(* ===== verification/Prelude.thy ===== *)
theory Prelude
  imports Main "HOL-Library.List_Lexorder" "HOL-Library.Char_ord" "HOL-Library.Sublist"
begin

text \<open>
  What every component of the model shares: byte strings with the operations of Rust's
  \<open>str\<close> the code uses, the ordering type of \<open>std::cmp\<close>, the stable \<open>sort_by\<close> of slices, ordered
  maps (\<open>BTreeMap\<close>) as sorted association lists, and keyed upserts into hash maps, which are
  HOL maps here because no code iterates one in an order that shows.
\<close>

named_theorems upsert_simps \<open>what a keyed store holds after an upsert\<close>
named_theorems bt_simps \<open>what an ordered map holds after an update\<close>

section \<open>Strings\<close>

text \<open>
  A Rust \<open>String\<close> is its UTF-8 byte sequence, and \<open>char\<close> is a byte: the order of
  \<open>List_Lexorder\<close> over \<open>Char_ord\<close> is then the bytewise order of Rust's \<open>str\<close>, and substring
  search on the bytes is \<open>str::contains\<close>.
\<close>

definition str_contains :: "string \<Rightarrow> string \<Rightarrow> bool" where
  "str_contains body pat = sublist pat body"

text \<open>
  Lower-casing of the whole of Unicode is a table of the standard library; the code only
  looks for ASCII keywords. Definitions that lower-case take the function as an argument;
  \<open>ascii_lower\<close> is its restriction to ASCII, which the witnesses use.
\<close>

definition ascii_lower_char :: "char \<Rightarrow> char" where
  "ascii_lower_char c =
     (if 65 \<le> (of_char c :: nat) \<and> (of_char c :: nat) \<le> 90
      then char_of ((of_char c :: nat) + 32) else c)"

definition ascii_lower :: "string \<Rightarrow> string" where
  "ascii_lower s = map ascii_lower_char s"

fun join :: "string \<Rightarrow> string list \<Rightarrow> string" where
  "join sep [] = []"
| "join sep [x] = x"
| "join sep (x # y # ys) = x @ sep @ join sep (y # ys)"

text \<open>The decimal rendering of an unsigned integer, as \<open>{}\<close> prints it.\<close>

fun show_nat :: "nat \<Rightarrow> string" where
  "show_nat n =
     (if n < 10 then [char_of (48 + n)] else show_nat (n div 10) @ [char_of (48 + n mod 10)])"

declare show_nat.simps [simp del]

section \<open>Comparison and stable sorting\<close>

datatype ordering = Less | Equal | Greater

fun ordering_then :: "ordering \<Rightarrow> ordering \<Rightarrow> ordering" where
  "ordering_then Equal other = other"
| "ordering_then o1 other = o1"

definition cmp_of :: "'a::linorder \<Rightarrow> 'a \<Rightarrow> ordering" where
  "cmp_of x y = (if x < y then Less else if x = y then Equal else Greater)"

fun insert_by :: "('a \<Rightarrow> 'a \<Rightarrow> ordering) \<Rightarrow> 'a \<Rightarrow> 'a list \<Rightarrow> 'a list" where
  "insert_by cmp x [] = [x]"
| "insert_by cmp x (y # ys) =
     (case cmp x y of Greater \<Rightarrow> y # insert_by cmp x ys | _ \<Rightarrow> x # y # ys)"

text \<open>
  \<open>slice::sort_by\<close> is a stable sort. For a comparison that is a total preorder its result
  is determined, and insertion from the right computes it.
\<close>

fun sort_by :: "('a \<Rightarrow> 'a \<Rightarrow> ordering) \<Rightarrow> 'a list \<Rightarrow> 'a list" where
  "sort_by cmp [] = []"
| "sort_by cmp (x # xs) = insert_by cmp x (sort_by cmp xs)"

lemma cmp_of_simps [simp]:
  "cmp_of x y = Less \<longleftrightarrow> x < y"
  "cmp_of x y = Equal \<longleftrightarrow> x = y"
  "cmp_of x y = Greater \<longleftrightarrow> y < x"
  by (auto simp: cmp_of_def)

lemma cmp_of_eqs [simp]:
  "x < y \<Longrightarrow> cmp_of x y = Less"
  "cmp_of x x = Equal"
  "y < x \<Longrightarrow> cmp_of x y = Greater"
  by (auto simp: cmp_of_def)

lemma ordering_then_eq_Greater:
  "ordering_then a b = Greater \<longleftrightarrow> a = Greater \<or> (a = Equal \<and> b = Greater)"
  by (cases a) auto

lemma set_insert_by [simp]: "set (insert_by cmp x xs) = insert x (set xs)"
  by (induction xs) (auto split: ordering.split)

lemma set_sort_by [simp]: "set (sort_by cmp xs) = set xs"
  by (induction xs) auto

lemma length_insert_by [simp]: "length (insert_by cmp x xs) = Suc (length xs)"
  by (induction xs) (auto split: ordering.split)

lemma length_sort_by [simp]: "length (sort_by cmp xs) = length xs"
  by (induction xs) auto

lemma map_distinct_insert_by [simp]:
  "distinct (map f (insert_by cmp x xs)) \<longleftrightarrow> f x \<notin> f ` set xs \<and> distinct (map f xs)"
  by (induction xs) (auto split: ordering.split)

lemma map_distinct_sort_by [simp]: "distinct (map f (sort_by cmp xs)) = distinct (map f xs)"
  by (induction xs) auto

lemma sort_by_eq_Nil [simp]: "sort_by cmp xs = [] \<longleftrightarrow> xs = []"
  by (metis length_0_conv length_sort_by)

text \<open>
  The contract a comparison must meet for \<open>sort_by\<close>: on the elements it is used on
  (\<open>ok\<close>), "not greater" is total and transitive.
\<close>

locale comparator =
  fixes cmp :: "'a \<Rightarrow> 'a \<Rightarrow> ordering"
    and ok :: "'a \<Rightarrow> bool"
  assumes total: "ok x \<Longrightarrow> ok y \<Longrightarrow> cmp x y = Greater \<Longrightarrow> cmp y x \<noteq> Greater"
    and trans: "ok x \<Longrightarrow> ok y \<Longrightarrow> ok z \<Longrightarrow> cmp x y \<noteq> Greater \<Longrightarrow> cmp y z \<noteq> Greater \<Longrightarrow> cmp x z \<noteq> Greater"
begin

lemma insert_by_sorted:
  assumes "ok x" and "\<forall>y\<in>set ys. ok y" and "sorted_wrt (\<lambda>a b. cmp a b \<noteq> Greater) ys"
  shows "sorted_wrt (\<lambda>a b. cmp a b \<noteq> Greater) (insert_by cmp x ys)"
  using assms
proof (induction ys)
  case Nil
  then show ?case by simp
next
  case (Cons y ys)
  show ?case
  proof (cases "cmp x y = Greater")
    case True
    then have "cmp y x \<noteq> Greater" using Cons.prems total by auto
    then show ?thesis using Cons True by auto
  next
    case False
    have "\<forall>b\<in>set (y # ys). cmp x b \<noteq> Greater"
      using Cons.prems False trans [of x y] by fastforce
    then have "sorted_wrt (\<lambda>a b. cmp a b \<noteq> Greater) (x # y # ys)"
      using Cons.prems by simp
    moreover have "insert_by cmp x (y # ys) = x # y # ys"
      using False by (cases "cmp x y") auto
    ultimately show ?thesis by simp
  qed
qed

lemma sort_by_sorted:
  "\<forall>x\<in>set xs. ok x \<Longrightarrow> sorted_wrt (\<lambda>a b. cmp a b \<noteq> Greater) (sort_by cmp xs)"
  by (induction xs) (auto intro!: insert_by_sorted)

lemma sort_by_hd_least:
  assumes "\<forall>x\<in>set xs. ok x" and "sort_by cmp xs = y # ys" and "x \<in> set xs" and "x \<noteq> y"
  shows "cmp y x \<noteq> Greater"
proof -
  have "x \<in> set ys" using assms(2-4) set_sort_by [of cmp xs] by auto
  then show ?thesis using sort_by_sorted [OF assms(1)] assms(2) by simp
qed

end

interpretation linorder_cmp: comparator "cmp_of :: 'a::linorder \<Rightarrow> 'a \<Rightarrow> ordering" "\<lambda>_. True"
  by unfold_locales (auto)

text \<open>\<open>filter_map\<close> of Rust's iterators.\<close>

lemma set_map_filter: "set (List.map_filter f xs) = {y. \<exists>x\<in>set xs. f x = Some y}"
  by (force simp: List.map_filter_def)

section \<open>Ordered maps\<close>

text \<open>
  A \<open>BTreeMap\<close> is a list of key and value pairs with strictly ascending keys, which is also
  its iteration order. \<open>bt_update k f\<close> is its entry API: \<open>f\<close> sees the present value, if any,
  and gives the one stored.
\<close>

type_synonym ('k, 'v) btree_map = "('k \<times> 'v) list"

fun bt_update :: "'k::linorder \<Rightarrow> ('v option \<Rightarrow> 'v) \<Rightarrow> ('k, 'v) btree_map \<Rightarrow> ('k, 'v) btree_map" where
  "bt_update k f [] = [(k, f None)]"
| "bt_update k f (e # es) =
     (case cmp_of k (fst e) of
        Less \<Rightarrow> (k, f None) # e # es
      | Equal \<Rightarrow> (k, f (Some (snd e))) # es
      | Greater \<Rightarrow> e # bt_update k f es)"

definition bt_ordered :: "('k::linorder, 'v) btree_map \<Rightarrow> bool" where
  "bt_ordered m = sorted_wrt (<) (map fst m)"

lemma bt_ordered_Nil [simp]: "bt_ordered []"
  by (simp add: bt_ordered_def)

lemma bt_ordered_Cons: "bt_ordered (e # es) \<longleftrightarrow> (\<forall>x\<in>set es. fst e < fst x) \<and> bt_ordered es"
  by (simp add: bt_ordered_def)

lemma bt_ordered_distinct: "bt_ordered m \<Longrightarrow> distinct (map fst m)"
  by (simp add: bt_ordered_def strict_sorted_iff)

lemma bt_update_Cons:
  "bt_update k f (e # es) =
     (if k < fst e then (k, f None) # e # es
      else if k = fst e then (k, f (Some (snd e))) # es
      else e # bt_update k f es)"
  by (auto simp: cmp_of_def)

declare bt_update.simps(2) [simp del]

lemma keys_bt_update [bt_simps]: "fst ` set (bt_update k f m) = insert k (fst ` set m)"
  by (induction m) (auto simp: bt_update_Cons)

lemma bt_ordered_update [bt_simps]: "bt_ordered m \<Longrightarrow> bt_ordered (bt_update k f m)"
proof (induction m)
  case Nil
  then show ?case by (simp add: bt_ordered_def)
next
  case (Cons e es)
  have "fst x = k \<or> fst x \<in> fst ` set es" if "x \<in> set (bt_update k f es)" for x
    using keys_bt_update [of k f es] that by (metis image_eqI insert_iff)
  with Cons show ?case
    by (fastforce simp: bt_ordered_Cons bt_update_Cons not_less less_le)
qed

lemma map_of_bt_update [bt_simps]:
  "bt_ordered m \<Longrightarrow> map_of (bt_update k f m) = (map_of m)(k \<mapsto> f (map_of m k))"
proof (induction m)
  case (Cons e es)
  have none: "map_of es k = None" if "k \<le> fst e"
  proof -
    have "k \<notin> fst ` set es"
      using Cons.prems that by (fastforce simp: bt_ordered_Cons)
    then show ?thesis by (simp add: map_of_eq_None_iff)
  qed
  show ?case
  proof (cases e)
    case (Pair a b)
    with Cons none show ?thesis
      by (auto simp: bt_update_Cons bt_ordered_Cons fun_eq_iff)
  qed
qed simp

lemma bt_map_of_iff: "bt_ordered m \<Longrightarrow> map_of m k = Some v \<longleftrightarrow> (k, v) \<in> set m"
  by (simp add: bt_ordered_distinct)

lemma sorted_wrt_key_unique:
  "set m = set n \<Longrightarrow> sorted_wrt (\<lambda>x y. f x < (f y :: 'k::linorder)) m \<Longrightarrow>
   sorted_wrt (\<lambda>x y. f x < f y) n \<Longrightarrow> m = n"
proof (induction m arbitrary: n)
  case (Cons x xs)
  then obtain y ys where n: "n = y # ys" by (cases n) auto
  have "x = y"
  proof (rule ccontr)
    assume "x \<noteq> y"
    with Cons.prems(1) n have "x \<in> set ys" and "y \<in> set xs" by auto
    with Cons.prems(2,3) n have "f y < f x" and "f x < f y" by auto
    then show False by simp
  qed
  moreover have "set xs = set ys"
    using Cons.prems n calculation by fastforce
  ultimately show ?case using Cons n by simp
qed simp

text \<open>Two ordered maps with the same lookups are the same list.\<close>

lemma bt_ext:
  assumes "bt_ordered m" and "bt_ordered n" and "map_of m = map_of n"
  shows "m = n"
proof -
  have "set m = set n"
    using assms by (metis bt_map_of_iff subsetI subset_antisym surj_pair)
  moreover have "sorted_wrt (\<lambda>x y. fst x < fst y) m" and "sorted_wrt (\<lambda>x y. fst x < fst y) n"
    using assms(1,2) by (simp_all add: bt_ordered_def sorted_wrt_map)
  ultimately show ?thesis
    by (rule_tac sorted_wrt_key_unique)
qed

section \<open>Keyed upserts\<close>

text \<open>
  Storing a sequence of values under their keys. When elements that share a key carry the
  same value, the result does not depend on the order or the number of the writes: the fact
  behind every at-least-once argument of the development.
\<close>

definition upsert_all :: "('a \<Rightarrow> 'k) \<Rightarrow> ('a \<Rightarrow> 'v) \<Rightarrow> 'a list \<Rightarrow> ('k \<rightharpoonup> 'v) \<Rightarrow> ('k \<rightharpoonup> 'v)" where
  "upsert_all key val xs m = fold (\<lambda>x m. m(key x \<mapsto> val x)) xs m"

lemma upsert_all_simps [simp]:
  "upsert_all key val [] m = m"
  "upsert_all key val (x # xs) m = upsert_all key val xs (m(key x \<mapsto> val x))"
  by (simp_all add: upsert_all_def)

lemma upsert_all_append:
  "upsert_all key val (xs @ ys) m = upsert_all key val ys (upsert_all key val xs m)"
  by (simp add: upsert_all_def)

lemma dom_upsert_all [upsert_simps]: "dom (upsert_all key val xs m) = dom m \<union> key ` set xs"
  by (induction xs arbitrary: m) auto

lemma upsert_all_other: "k \<notin> key ` set xs \<Longrightarrow> upsert_all key val xs m k = m k"
  by (induction xs arbitrary: m) auto

definition consistent_writes :: "('a \<Rightarrow> 'k) \<Rightarrow> ('a \<Rightarrow> 'v) \<Rightarrow> 'a set \<Rightarrow> bool" where
  "consistent_writes key val A \<longleftrightarrow> (\<forall>x\<in>A. \<forall>y\<in>A. key x = key y \<longrightarrow> val x = val y)"

lemma consistent_writes_inj: "inj_on key A \<Longrightarrow> consistent_writes key val A"
  by (auto simp: consistent_writes_def inj_on_def)

lemma consistent_writes_mono:
  "consistent_writes key val A \<Longrightarrow> B \<subseteq> A \<Longrightarrow> consistent_writes key val B"
  unfolding consistent_writes_def by blast

lemma consistent_writesD:
  "consistent_writes key val A \<Longrightarrow> x \<in> A \<Longrightarrow> y \<in> A \<Longrightarrow> key x = key y \<Longrightarrow> val x = val y"
  unfolding consistent_writes_def by blast

lemma upsert_all_lookup:
  assumes "consistent_writes key val (set xs)" and "x \<in> set xs"
  shows "upsert_all key val xs m (key x) = Some (val x)"
  using assms
proof (induction xs arbitrary: x m)
  case (Cons y ys)
  have ys: "consistent_writes key val (set ys)"
    by (rule consistent_writes_mono [OF Cons.prems(1)]) auto
  show ?case
  proof (cases "key x \<in> key ` set ys")
    case True
    then obtain z where z: "z \<in> set ys" "key z = key x" by (metis imageE)
    then have "val z = val x"
      by (intro consistent_writesD [OF Cons.prems(1)]) (use Cons.prems(2) in auto)
    moreover have "upsert_all key val ys (m(key y \<mapsto> val y)) (key z) = Some (val z)"
      by (rule Cons.IH [OF ys z(1)])
    ultimately show ?thesis using z(2) by simp
  next
    case False
    with Cons.prems(2) have "y = x" by auto
    with False show ?thesis by (simp add: upsert_all_other)
  qed
qed simp

theorem upsert_all_order_free:
  assumes "consistent_writes key val (set xs)" and "set ys = set xs"
  shows "upsert_all key val ys m = upsert_all key val xs m"
proof
  fix k
  have ys: "consistent_writes key val (set ys)" using assms by simp
  show "upsert_all key val ys m k = upsert_all key val xs m k"
  proof (cases "k \<in> key ` set xs")
    case True
    then obtain x where "x \<in> set xs" and "k = key x" by auto
    then show ?thesis
      using upsert_all_lookup [OF assms(1)] upsert_all_lookup [OF ys] assms(2) by simp
  next
    case False
    then show ?thesis using assms(2) by (simp add: upsert_all_other)
  qed
qed

end
