(* ===== verification/F64.thy ===== *)
theory F64
  imports Complex_Main Prelude "HOL-Library.Log_Nat"
begin

text \<open>
  IEEE 754 binary64, Rust's \<open>f64\<close>: sign and magnitude, with the magnitude an exact rational,
  rounded to nearest, ties to even, after every operation. All of it computes. The lemmas are
  what the scoring code relies on: rounding is monotone, exact on integers up to \<open>2^53\<close>, and
  adding confidences (values in \<open>[0, 1]\<close>) to a sum never leaves \<open>[0, 2^53]\<close>, so no infinity and no
  NaN ever arises from the confidences and scores of the program.
\<close>

named_theorems f64_simps \<open>evaluation of the floating-point operations\<close>

section \<open>Rounding\<close>

definition exponent_of :: "rat \<Rightarrow> int" where
  "exponent_of r =
     (case quotient_of r of (p, q) \<Rightarrow>
        let e = bitlen p - bitlen q in if r < 2 powi e then e - 1 else e)"

definition round_even :: "rat \<Rightarrow> int" where
  "round_even r =
     (let n = \<lfloor>r\<rfloor>; d = r - of_int n in
      if d < 1 / 2 then n else if 1 / 2 < d then n + 1 else if even n then n else n + 1)"

definition quantum :: "rat \<Rightarrow> int" where
  "quantum r = max (exponent_of r - 52) (- 1074)"

definition round_mag :: "rat \<Rightarrow> rat" where
  "round_mag r =
     (if r \<le> 0 then 0 else of_int (round_even (r / 2 powi quantum r)) * 2 powi quantum r)"

datatype f64 = FNan | FInf bool | FFin bool rat

definition f64_round :: "bool \<Rightarrow> rat \<Rightarrow> f64" where
  "f64_round neg m =
     (let v = round_mag m in if 0 < v \<and> 1024 \<le> exponent_of v then FInf neg else FFin neg v)"

section \<open>Operations\<close>

definition f64_zero :: f64 where "f64_zero = FFin False 0"
definition f64_one :: f64 where "f64_one = FFin False 1"

text \<open>A decimal literal and \<open>n as f64\<close> are the nearest representable value.\<close>

definition f64_lit :: "rat \<Rightarrow> f64" where "f64_lit r = f64_round False r"
definition f64_of_nat :: "nat \<Rightarrow> f64" where "f64_of_nat n = f64_round False (of_nat n)"

definition signed :: "bool \<Rightarrow> rat \<Rightarrow> rat" where
  "signed neg m = (if neg then - m else m)"

fun f64_add :: "f64 \<Rightarrow> f64 \<Rightarrow> f64" where
  "f64_add (FFin s a) (FFin t b) =
     (let v = signed s a + signed t b in
      if v = 0 then FFin (s \<and> t) 0 else f64_round (v < 0) \<bar>v\<bar>)"
| "f64_add FNan _ = FNan"
| "f64_add _ FNan = FNan"
| "f64_add (FInf s) (FInf t) = (if s = t then FInf s else FNan)"
| "f64_add (FInf s) (FFin _ _) = FInf s"
| "f64_add (FFin _ _) (FInf t) = FInf t"

fun f64_mul :: "f64 \<Rightarrow> f64 \<Rightarrow> f64" where
  "f64_mul (FFin s a) (FFin t b) = f64_round (s \<noteq> t) (a * b)"
| "f64_mul FNan _ = FNan"
| "f64_mul _ FNan = FNan"
| "f64_mul (FInf s) (FInf t) = FInf (s \<noteq> t)"
| "f64_mul (FInf s) (FFin t b) = (if b = 0 then FNan else FInf (s \<noteq> t))"
| "f64_mul (FFin s a) (FInf t) = (if a = 0 then FNan else FInf (s \<noteq> t))"

fun f64_div :: "f64 \<Rightarrow> f64 \<Rightarrow> f64" where
  "f64_div (FFin s a) (FFin t b) =
     (if b = 0 then (if a = 0 then FNan else FInf (s \<noteq> t)) else f64_round (s \<noteq> t) (a / b))"
| "f64_div FNan _ = FNan"
| "f64_div _ FNan = FNan"
| "f64_div (FInf _) (FInf _) = FNan"
| "f64_div (FInf s) (FFin t _) = FInf (s \<noteq> t)"
| "f64_div (FFin s _) (FInf t) = FFin (s \<noteq> t) 0"

text \<open>\<open>partial_cmp\<close>: no answer for NaN, and the two zeros are equal.\<close>

fun f64_partial_cmp :: "f64 \<Rightarrow> f64 \<Rightarrow> ordering option" where
  "f64_partial_cmp (FFin s a) (FFin t b) = Some (cmp_of (signed s a) (signed t b))"
| "f64_partial_cmp FNan _ = None"
| "f64_partial_cmp _ FNan = None"
| "f64_partial_cmp (FInf s) (FInf t) =
     Some (if s = t then Equal else if s then Less else Greater)"
| "f64_partial_cmp (FInf s) (FFin _ _) = Some (if s then Less else Greater)"
| "f64_partial_cmp (FFin _ _) (FInf t) = Some (if t then Greater else Less)"

definition f64_lt :: "f64 \<Rightarrow> f64 \<Rightarrow> bool" where
  "f64_lt x y = (f64_partial_cmp x y = Some Less)"

definition f64_eq :: "f64 \<Rightarrow> f64 \<Rightarrow> bool" where
  "f64_eq x y = (f64_partial_cmp x y = Some Equal)"

text \<open>\<open>f64::max\<close> prefers a number to NaN; \<open>f64::clamp\<close> keeps NaN.\<close>

definition f64_max :: "f64 \<Rightarrow> f64 \<Rightarrow> f64" where
  "f64_max x y = (if x = FNan then y else if y = FNan then x else if f64_lt x y then y else x)"

definition f64_clamp :: "f64 \<Rightarrow> f64 \<Rightarrow> f64 \<Rightarrow> f64" where
  "f64_clamp x lo hi =
     (let y = (if f64_lt x lo then lo else x) in if f64_lt hi y then hi else y)"

section \<open>The exponent\<close>

lemma exponent_of_bounds:
  assumes "0 < r"
  shows "2 powi exponent_of r \<le> r" and "r < 2 powi (exponent_of r + 1)"
proof -
  obtain p q where pq: "quotient_of r = (p, q)" by (cases "quotient_of r") auto
  have q: "0 < q" and r: "r = of_int p / of_int q"
    using quotient_of_denom_pos [OF pq] quotient_of_div [OF pq] by simp_all
  have p: "0 < p" using assms r q by (simp add: zero_less_divide_iff)
  define e where "e = bitlen p - bitlen q"
  have bounds: "2 powi (bitlen x - 1) \<le> (of_int x :: rat)" "(of_int x :: rat) < 2 powi bitlen x"
    if "0 < x" for x :: int
  proof -
    have nn: "0 \<le> bitlen x - 1" using that bitlen_ge_iff_power [of 1 x] by simp
    have "2 ^ nat (bitlen x - 1) \<le> x" "x < 2 ^ nat (bitlen x)"
      using bitlen_bounds [OF that] by auto
    then have "(of_int (2 ^ nat (bitlen x - 1)) :: rat) \<le> of_int x"
        "(of_int x :: rat) < of_int (2 ^ nat (bitlen x))"
      by (simp_all only: of_int_le_iff of_int_less_iff)
    then show "2 powi (bitlen x - 1) \<le> (of_int x :: rat)" "(of_int x :: rat) < 2 powi bitlen x"
      using nn by (simp_all add: power_int_def)
  qed
  have lo: "2 powi (e - 1) < r"
  proof -
    have "2 powi (e - 1) * (of_int q :: rat) < 2 powi (e - 1) * 2 powi bitlen q"
      using bounds(2) [OF q] by simp
    also have "\<dots> = 2 powi (bitlen p - 1)" by (simp add: e_def flip: power_int_add)
    also have "\<dots> \<le> of_int p" by (rule bounds(1) [OF p])
    finally show ?thesis using q by (simp add: r pos_less_divide_eq)
  qed
  have hi: "r < 2 powi (e + 1)"
  proof -
    have "of_int p < (2 powi bitlen p :: rat)" by (rule bounds(2) [OF p])
    also have "\<dots> = 2 powi (e + 1) * 2 powi (bitlen q - 1)" by (simp add: e_def flip: power_int_add)
    also have "\<dots> \<le> 2 powi (e + 1) * of_int q" using bounds(1) [OF q] by simp
    finally show ?thesis using q by (simp add: r pos_divide_less_eq)
  qed
  have e: "exponent_of r = (if r < 2 powi e then e - 1 else e)"
    by (simp add: exponent_of_def pq e_def Let_def)
  show "2 powi exponent_of r \<le> r" using lo by (auto simp: e)
  show "r < 2 powi (exponent_of r + 1)" using hi by (auto simp: e)
qed

lemma powi2_le_iff [simp]: "(2 powi i :: rat) \<le> 2 powi j \<longleftrightarrow> i \<le> j"
  by (metis linorder_not_le one_less_numeral_iff order_less_le power_int_strict_increasing
      power_int_increasing semiring_norm(76))

lemma powi2_less_iff [simp]: "(2 powi i :: rat) < 2 powi j \<longleftrightarrow> i < j"
  by (simp add: less_le_not_le)

lemma exponent_of_less: "0 < r \<Longrightarrow> r < 2 powi k \<Longrightarrow> exponent_of r < k"
  using exponent_of_bounds(1) [of r] by (metis order_le_less_trans powi2_less_iff)

lemma exponent_of_ge: "2 powi k \<le> r \<Longrightarrow> k \<le> exponent_of r"
proof -
  assume k: "2 powi k \<le> r"
  then have "0 < r" by (rule less_le_trans [rotated]) simp
  then have "2 powi k < (2 powi (exponent_of r + 1) :: rat)"
    using k exponent_of_bounds(2) [of r] by (metis order_le_less_trans)
  then show ?thesis by simp
qed

lemma exponent_of_mono: "0 < x \<Longrightarrow> x \<le> y \<Longrightarrow> exponent_of x \<le> exponent_of y"
  by (meson exponent_of_bounds(1) exponent_of_ge order_trans)

lemma quantum_mono: "0 < x \<Longrightarrow> x \<le> y \<Longrightarrow> quantum x \<le> quantum y"
  using exponent_of_mono [of x y] by (auto simp: quantum_def)

section \<open>Rounding to even\<close>

lemma round_even_of_int [simp]: "round_even (of_int n) = n"
  by (simp add: round_even_def)

lemma round_even_bounds: "\<lfloor>r\<rfloor> \<le> round_even r" "round_even r \<le> \<lfloor>r\<rfloor> + 1"
  by (auto simp: round_even_def Let_def)

lemma round_even_mono:
  assumes "x \<le> y"
  shows "round_even x \<le> round_even y"
proof (cases "\<lfloor>x\<rfloor> = \<lfloor>y\<rfloor>")
  case True
  with assms show ?thesis by (auto simp: round_even_def Let_def)
next
  case False
  with floor_mono [OF assms] have "\<lfloor>x\<rfloor> + 1 \<le> \<lfloor>y\<rfloor>" by simp
  then show ?thesis using round_even_bounds(2) [of x] round_even_bounds(1) [of y] by linarith
qed

lemma round_even_le: "x \<le> of_int n \<Longrightarrow> round_even x \<le> n"
  using round_even_mono [of x "of_int n"] by simp

lemma round_even_ge: "of_int n \<le> x \<Longrightarrow> n \<le> round_even x"
  using round_even_mono [of "of_int n" x] by simp

section \<open>Rounding of magnitudes\<close>

lemma powi2_of_int: "0 \<le> k \<Longrightarrow> (2 powi k :: rat) = of_int (2 ^ nat k)"
  by (simp add: power_int_def)

lemma powi2_diff: "(2 powi i :: rat) / 2 powi j = 2 powi (i - j)"
  by (simp add: power_int_diff)

lemma round_mag_le_powi:
  assumes "0 < x" and "x \<le> 2 powi m" and "quantum x \<le> m"
  shows "round_mag x \<le> 2 powi m"
proof -
  let ?k = "quantum x"
  have "x / 2 powi ?k \<le> 2 powi (m - ?k)"
    using assms(2) by (simp add: divide_le_eq flip: power_int_add)
  then have "round_even (x / 2 powi ?k) \<le> 2 ^ nat (m - ?k)"
    using assms(3) by (intro round_even_le) (simp add: powi2_of_int)
  then have "(of_int (round_even (x / 2 powi ?k)) :: rat) \<le> of_int (2 ^ nat (m - ?k))"
    by (simp only: of_int_le_iff)
  then have "of_int (round_even (x / 2 powi ?k)) \<le> (2 powi (m - ?k) :: rat)"
    using assms(3) by (simp add: powi2_of_int)
  then have "of_int (round_even (x / 2 powi ?k)) * 2 powi ?k \<le> (2 powi (m - ?k) * 2 powi ?k :: rat)"
    by (intro mult_right_mono) simp_all
  with assms(1) show ?thesis by (simp add: round_mag_def flip: power_int_add)
qed

lemma round_mag_ge_powi:
  assumes "2 powi m \<le> x" and "quantum x \<le> m"
  shows "2 powi m \<le> round_mag x"
proof -
  let ?k = "quantum x"
  have pos: "0 < x" using assms(1) by (rule less_le_trans [rotated]) simp
  have "2 powi (m - ?k) \<le> x / 2 powi ?k"
    using assms(1) by (simp add: le_divide_eq flip: power_int_add)
  then have "2 ^ nat (m - ?k) \<le> round_even (x / 2 powi ?k)"
    using assms(2) by (intro round_even_ge) (simp add: powi2_of_int)
  then have "(of_int (2 ^ nat (m - ?k)) :: rat) \<le> of_int (round_even (x / 2 powi ?k))"
    by (simp only: of_int_le_iff)
  then have "(2 powi (m - ?k) :: rat) \<le> of_int (round_even (x / 2 powi ?k))"
    using assms(2) by (simp add: powi2_of_int)
  then have "(2 powi (m - ?k) * 2 powi ?k :: rat) \<le> of_int (round_even (x / 2 powi ?k)) * 2 powi ?k"
    by (intro mult_right_mono) simp_all
  with pos show ?thesis by (simp add: round_mag_def flip: power_int_add)
qed

lemma round_mag_nonneg [simp]: "0 \<le> round_mag x"
proof (cases "x \<le> 0")
  case False
  then have "0 \<le> x / 2 powi quantum x" by simp
  then have "0 \<le> round_even (x / 2 powi quantum x)" by (intro round_even_ge) simp
  then show ?thesis by (simp add: round_mag_def)
qed (simp add: round_mag_def)

theorem round_mag_mono: "x \<le> y \<Longrightarrow> round_mag x \<le> round_mag y"
proof (cases "0 < x")
  case True
  assume xy: "x \<le> y"
  with True have y: "0 < y" by simp
  show ?thesis
  proof (cases "quantum x = quantum y")
    case same: True
    have "round_even (x / 2 powi quantum x) \<le> round_even (y / 2 powi quantum x)"
      using xy by (intro round_even_mono divide_right_mono) simp_all
    then show ?thesis using True y same by (simp add: round_mag_def)
  next
    case False
    with quantum_mono [OF True xy] have less: "quantum x < quantum y" by simp
    then have qy: "quantum y = exponent_of y - 52" and e: "exponent_of x + 1 \<le> exponent_of y"
      by (auto simp: quantum_def)
    have "x \<le> 2 powi exponent_of y"
      using exponent_of_bounds(2) [OF True] e
      by (meson less_imp_le order_trans powi2_le_iff)
    then have "round_mag x \<le> 2 powi exponent_of y"
      using True less qy by (intro round_mag_le_powi) simp_all
    also have "\<dots> \<le> round_mag y"
      using exponent_of_bounds(1) [OF y] qy by (intro round_mag_ge_powi) simp_all
    finally show ?thesis .
  qed
next
  case False
  then have "round_mag x = 0" by (simp add: round_mag_def)
  then show ?thesis by simp
qed

text \<open>A dyadic number with at most 53 significant bits rounds to itself.\<close>

definition representable :: "rat \<Rightarrow> bool" where
  "representable v \<longleftrightarrow> round_mag v = v"

lemma representable_dyadic_less:
  assumes "0 < n" and "n < 2 ^ 53" and "- 1074 \<le> k"
  shows "representable (of_int n * 2 powi k)"
proof -
  let ?v = "of_int n * 2 powi k :: rat"
  have pos: "0 < ?v" using assms(1) by simp
  have "(of_int n :: rat) < of_int (2 ^ 53)" using assms(2) by (simp only: of_int_less_iff)
  then have "?v < 2 ^ 53 * 2 powi k" by simp
  also have "\<dots> = 2 powi (53 + k)" by (simp add: power_int_add)
  finally have "exponent_of ?v < 53 + k" using pos by (intro exponent_of_less)
  then have q: "quantum ?v \<le> k" using assms(3) by (simp add: quantum_def)
  have "?v / 2 powi quantum ?v = of_int n * 2 powi (k - quantum ?v)"
    by (simp add: power_int_diff)
  also have "\<dots> = of_int (n * 2 ^ nat (k - quantum ?v))"
    using q by (simp add: powi2_of_int)
  finally have "of_int (round_even (?v / 2 powi quantum ?v)) = ?v / 2 powi quantum ?v"
    by (metis round_even_of_int)
  then show ?thesis using pos by (simp add: representable_def round_mag_def)
qed

lemma representable_dyadic:
  assumes "0 \<le> n" and "n \<le> 2 ^ 53" and "- 1074 \<le> k"
  shows "representable (of_int n * 2 powi k)"
proof -
  consider "n = 0" | "0 < n" "n < 2 ^ 53" | "n = 2 ^ 53" using assms by linarith
  then show ?thesis
  proof cases
    case 3
    have "(of_int n * 2 powi k :: rat) = of_int (2 ^ 52) * 2 powi (k + 1)"
      by (simp add: 3 power_int_add)
    then show ?thesis using representable_dyadic_less [of "2 ^ 52" "k + 1"] assms(3) by simp
  qed (use assms representable_dyadic_less in \<open>simp_all add: representable_def round_mag_def\<close>)
qed

lemma representable_of_nat:
  assumes "n \<le> 2 ^ 53"
  shows "representable (of_nat n)"
proof -
  have "int n \<le> int (2 ^ 53)" using assms by (simp only: of_nat_le_iff)
  then have "representable (of_int (int n) * 2 powi 0)"
    by (intro representable_dyadic) simp_all
  then show ?thesis by simp
qed

lemma representable_0 [simp]: "representable 0" and representable_1 [simp]: "representable 1"
  using representable_of_nat [of 0] representable_of_nat [of 1] by simp_all

lemma representable_round_mag [simp]: "representable (round_mag x)"
proof (cases "0 < x")
  case True
  let ?k = "quantum x" and ?n = "round_even (x / 2 powi quantum x)"
  have nn: "0 \<le> ?n" using True by (intro round_even_ge) simp
  have "x / 2 powi ?k < 2 powi (exponent_of x + 1 - ?k)"
    using exponent_of_bounds(2) [OF True] by (simp add: divide_less_eq flip: power_int_add)
  also have "\<dots> \<le> 2 powi 53" by (simp only: powi2_le_iff) (simp add: quantum_def)
  finally have "x / 2 powi ?k \<le> of_int (2 ^ 53)" by simp
  then have "?n \<le> 2 ^ 53" by (rule round_even_le)
  then have "representable (of_int ?n * 2 powi ?k)"
    using nn by (intro representable_dyadic) (simp_all add: quantum_def)
  with True show ?thesis by (simp add: round_mag_def)
qed (simp add: round_mag_def)

lemma round_mag_ge: "representable a \<Longrightarrow> a \<le> x \<Longrightarrow> a \<le> round_mag x"
  using round_mag_mono [of a x] by (simp add: representable_def)

lemma round_mag_le: "representable b \<Longrightarrow> x \<le> b \<Longrightarrow> round_mag x \<le> b"
  using round_mag_mono [of x b] by (simp add: representable_def)

section \<open>Gaps between numbers\<close>

lemma representable_scaled:
  assumes "representable a" and "0 < a"
  obtains m where "a = of_int m * 2 powi quantum a"
  using assms by (metis representable_def round_mag_def linorder_not_less)

lemma representable_below_powi:
  assumes "representable a" and "0 \<le> a" and "a < 2 powi k"
  shows "a \<le> 2 powi k * (1 - 1 / 2 ^ 53)"
proof (cases "a = 0")
  case True
  then show ?thesis by simp
next
  case False
  with assms(2) have pos: "0 < a" by simp
  let ?e = "exponent_of a" and ?j = "quantum a"
  obtain m where m: "a = of_int m * 2 powi ?j" by (rule representable_scaled [OF assms(1) pos])
  have j: "?e - 52 \<le> ?j" by (simp add: quantum_def)
  show ?thesis
  proof (cases "?j \<le> ?e + 1")
    case True
    have "(2 powi (?e + 1) :: rat) = 2 powi (?e + 1 - ?j) * 2 powi ?j" by (simp flip: power_int_add)
    then have top: "(2 powi (?e + 1) :: rat) = of_int (2 ^ nat (?e + 1 - ?j)) * 2 powi ?j"
      using True by (simp only: powi2_of_int [of "?e + 1 - ?j"] diff_ge_0_iff_ge)
    have "of_int m * 2 powi ?j < of_int (2 ^ nat (?e + 1 - ?j)) * (2 powi ?j :: rat)"
      using exponent_of_bounds(2) [OF pos] unfolding top by (simp flip: m)
    then have "m < 2 ^ nat (?e + 1 - ?j)" by (simp only: mult_less_cancel_right_pos zero_less_power_int zero_less_numeral of_int_less_iff)
    then have "m \<le> 2 ^ nat (?e + 1 - ?j) - 1" by simp
    then have "(of_int m :: rat) \<le> of_int (2 ^ nat (?e + 1 - ?j) - 1)" by (simp only: of_int_le_iff)
    then have "of_int m * 2 powi ?j \<le> of_int (2 ^ nat (?e + 1 - ?j) - 1) * (2 powi ?j :: rat)"
      by (intro mult_right_mono) simp_all
    then have "a \<le> 2 powi (?e + 1) - 2 powi ?j" by (simp add: top left_diff_distrib flip: m)
    also have "\<dots> \<le> 2 powi (?e + 1) - 2 powi (?e - 52)" using j by simp
    also have "\<dots> = 2 powi (?e + 1) * (1 - 1 / 2 ^ 53)"
      by (simp add: power_int_add power_int_diff right_diff_distrib)
    also have "\<dots> \<le> 2 powi k * (1 - 1 / 2 ^ 53)"
      using exponent_of_less [OF pos assms(3)] by (intro mult_right_mono) simp_all
    finally show ?thesis .
  next
    case False
    have "0 < of_int m * (2 powi ?j :: rat)" using pos by (simp only: m [symmetric])
    then have "0 < m" using zero_less_power_int [of "2 :: rat" ?j]
      by (metis of_int_0_less_iff zero_less_mult_pos2 zero_less_numeral)
    then have "1 \<le> (of_int m :: rat)" by simp
    then have "1 * 2 powi ?j \<le> of_int m * (2 powi ?j :: rat)" by (intro mult_right_mono) simp_all
    then have "2 powi ?j \<le> a" by (simp only: m [symmetric] mult_1)
    then have "?j \<le> ?e" by (rule exponent_of_ge)
    with False show ?thesis by simp
  qed
qed

text \<open>Two different numbers of the format are at least \<open>2 ^ - 53\<close> of the larger one apart.\<close>

lemma representable_gap:
  assumes "representable a" and "representable b" and "0 \<le> a" and "a < b"
  shows "a \<le> b * (1 - 1 / 2 ^ 53)"
proof (cases "a < 2 powi exponent_of b")
  case True
  have b: "0 < b" using assms by simp
  have "a \<le> 2 powi exponent_of b * (1 - 1 / 2 ^ 53)"
    by (rule representable_below_powi [OF assms(1,3) True])
  also have "\<dots> \<le> b * (1 - 1 / 2 ^ 53)"
    using exponent_of_bounds(1) [OF b] by (intro mult_right_mono) simp_all
  finally show ?thesis .
next
  case False
  have b: "0 < b" using assms by simp
  from False have a: "0 < a" by (metis less_le_trans linorder_not_less zero_less_numeral zero_less_power_int)
  from False have "exponent_of b \<le> exponent_of a" by (intro exponent_of_ge) simp
  then have q: "quantum a = quantum b"
    using quantum_mono [OF a less_imp_le [OF assms(4)]] by (simp add: quantum_def)
  obtain m where m: "a = of_int m * 2 powi quantum b" using representable_scaled [OF assms(1) a] q by metis
  obtain n where n: "b = of_int n * 2 powi quantum b" by (rule representable_scaled [OF assms(2) b])
  have "of_int m * 2 powi quantum b < of_int n * (2 powi quantum b :: rat)" using assms(4) m n by simp
  then have "m < n" by (simp only: mult_less_cancel_right_pos zero_less_power_int zero_less_numeral of_int_less_iff)
  then have "(of_int m :: rat) \<le> of_int (n - 1)" by (simp only: of_int_le_iff)
  then have "of_int m * 2 powi quantum b \<le> of_int (n - 1) * (2 powi quantum b :: rat)"
    by (intro mult_right_mono) simp_all
  then have "a \<le> b - 2 powi quantum b" using m n by (simp add: left_diff_distrib)
  moreover have "b / 2 ^ 53 \<le> 2 powi quantum b"
  proof -
    have "b \<le> 2 powi (exponent_of b + 1)" using exponent_of_bounds(2) [OF b] by simp
    also have "\<dots> \<le> 2 powi (quantum b + 53)" by (simp only: powi2_le_iff) (simp add: quantum_def)
    also have "\<dots> = 2 powi quantum b * 2 ^ 53" by (simp add: power_int_add)
    finally show ?thesis by (simp add: divide_le_eq)
  qed
  ultimately show ?thesis by (simp add: right_diff_distrib)
qed

lemma round_mag_ratio_less:
  assumes "representable a" and "representable b" and "0 \<le> a" and "a < b"
  shows "round_mag (a / b) < 1"
proof -
  have "a / b \<le> 1 - 1 / 2 ^ 53"
    using representable_gap [OF assms] assms by (simp add: divide_le_eq mult.commute)
  moreover have "representable (of_int (2 ^ 53 - 1) * 2 powi (- 53))"
    by (rule representable_dyadic) simp_all
  then have "representable (1 - 1 / 2 ^ 53)" by (simp add: power_int_minus field_simps)
  ultimately have "round_mag (a / b) \<le> 1 - 1 / 2 ^ 53" by (intro round_mag_le)
  then show ?thesis by (rule order_le_less_trans) simp
qed

section \<open>Confidences and their sums\<close>

text \<open>The finite non-negative numbers, read as rationals, and those at most \<open>b\<close>.\<close>

fun f64_rat :: "f64 \<Rightarrow> rat" where
  "f64_rat (FFin s m) = signed s m"
| "f64_rat _ = 0"

definition f64_within :: "rat \<Rightarrow> f64 \<Rightarrow> bool" where
  "f64_within b x =
     (\<exists>s v. x = FFin s v \<and> (s \<longrightarrow> v = 0) \<and> 0 \<le> v \<and> v \<le> b \<and> representable v)"

text \<open>A bit pattern of the format: a finite magnitude is one that rounding leaves alone.\<close>

fun f64_wf :: "f64 \<Rightarrow> bool" where
  "f64_wf (FFin s m) = (0 \<le> m \<and> m < 2 ^ 1024 \<and> representable m)"
| "f64_wf _ = True"

text \<open>A value in \<open>[0, 1]\<close>: what a confidence is documented to be.\<close>

abbreviation f64_unit :: "f64 \<Rightarrow> bool" where
  "f64_unit \<equiv> f64_within 1"

lemma f64_within_zero [simp]: "0 \<le> b \<Longrightarrow> f64_within b f64_zero"
  unfolding f64_within_def f64_zero_def by (intro exI [of _ False] exI [of _ 0]) simp

lemma f64_within_mono: "f64_within a x \<Longrightarrow> a \<le> b \<Longrightarrow> f64_within b x"
  by (auto simp: f64_within_def)

text \<open>Overflow is a magnitude of at least \<open>2^1024\<close>.\<close>

lemma f64_round_eq:
  "f64_round neg m = (if 2 ^ 1024 \<le> round_mag m then FInf neg else FFin neg (round_mag m))"
proof -
  have "0 < v \<and> 1024 \<le> exponent_of v \<longleftrightarrow> 2 powi 1024 \<le> v" for v
  proof
    assume "0 < v \<and> 1024 \<le> exponent_of v"
    then show "2 powi 1024 \<le> v"
      by (meson exponent_of_bounds(1) order_trans powi2_le_iff)
  next
    assume le: "2 powi 1024 \<le> v"
    then have "0 < v" by (rule less_le_trans [rotated]) (simp only: zero_less_power_int zero_less_numeral)
    with le show "0 < v \<and> 1024 \<le> exponent_of v" by (simp only: exponent_of_ge simp_thms)
  qed
  moreover have "(2 powi 1024 :: rat) = 2 ^ 1024" by (simp only: power_int_numeral)
  ultimately show ?thesis unfolding f64_round_def Let_def by (simp only:)
qed

lemma f64_round_below: "0 \<le> m \<Longrightarrow> m \<le> b \<Longrightarrow> representable b \<Longrightarrow> b < 2 ^ 1024 \<Longrightarrow>
    f64_round neg m = FFin neg (round_mag m) \<and> 0 \<le> round_mag m \<and> round_mag m \<le> b"
  using round_mag_le [of b m] by (simp add: f64_round_eq)

lemma round_mag_2p53_1: "round_mag (2 ^ 53 + 1) = 2 ^ 53"
  by code_simp

lemma representable_2p53: "representable (2 ^ 53)"
  using representable_of_nat [of "2 ^ 53"] by simp

lemma f64_withinE:
  assumes "f64_within b x"
  obtains s where "x = FFin s (f64_rat x)" "s \<longrightarrow> f64_rat x = 0" "signed s (f64_rat x) = f64_rat x"
    "0 \<le> f64_rat x" "f64_rat x \<le> b" "representable (f64_rat x)"
  using assms unfolding f64_within_def signed_def by (elim exE conjE) (auto simp: signed_def)

lemma f64_add_within:
  assumes "f64_within (2 ^ 53) x" and "f64_unit y"
  shows "f64_within (2 ^ 53) (f64_add x y)" and "f64_rat x \<le> f64_rat (f64_add x y)"
    and "f64_rat y \<le> f64_rat (f64_add x y)"
proof -
  define u v where "u = f64_rat x" and "v = f64_rat y"
  obtain s where x: "x = FFin s u" "signed s u = u" "0 \<le> u" "u \<le> 2 ^ 53" "representable u"
    using f64_withinE [OF assms(1)] unfolding u_def by metis
  obtain t where y: "y = FFin t v" "signed t v = v" "0 \<le> v" "v \<le> 1" "representable v"
    using f64_withinE [OF assms(2)] unfolding v_def by metis
  have le: "round_mag (u + v) \<le> 2 ^ 53"
    using round_mag_mono [of "u + v" "2 ^ 53 + 1"] x y round_mag_2p53_1 by simp
  have sum: "\<exists>w. f64_add x y = FFin w (round_mag (u + v)) \<and> (w \<longrightarrow> round_mag (u + v) = 0)"
  proof (cases "u + v = 0")
    case True
    then have "round_mag (u + v) = 0" by (simp add: round_mag_def)
    then show ?thesis using x y True by (simp add: Let_def)
  next
    case False
    have "round_mag (u + v) < 2 ^ 1024" using le by (rule order_le_less_trans) simp
    then show ?thesis using x y False by (simp add: Let_def f64_round_eq ex_bool_eq)
  qed
  then have r: "f64_rat (f64_add x y) = round_mag (u + v)" by (auto simp: signed_def)
  show "f64_within (2 ^ 53) (f64_add x y)"
    using le sum by (fastforce simp: f64_within_def)
  show "f64_rat x \<le> f64_rat (f64_add x y)"
    using x y r by (simp add: round_mag_ge)
  show "f64_rat y \<le> f64_rat (f64_add x y)"
    using x y r by (simp add: round_mag_ge)
qed

lemma f64_add_bounded:
  assumes "f64_within a x" and "f64_within b y" and "a + b \<le> c"
    and "representable c" and "c < 2 ^ 1024"
  shows "f64_within c (f64_add x y)" and "f64_rat (f64_add x y) = round_mag (f64_rat x + f64_rat y)"
proof -
  define u v where "u = f64_rat x" and "v = f64_rat y"
  obtain s where x: "x = FFin s u" "signed s u = u" "0 \<le> u" "u \<le> a"
    using f64_withinE [OF assms(1)] unfolding u_def by metis
  obtain t where y: "y = FFin t v" "signed t v = v" "0 \<le> v" "v \<le> b"
    using f64_withinE [OF assms(2)] unfolding v_def by metis
  have r: "f64_round False (u + v) = FFin False (round_mag (u + v))"
      "0 \<le> round_mag (u + v)" "round_mag (u + v) \<le> c"
    using f64_round_below [of "u + v" c False] assms x y by simp_all
  have "\<exists>w. f64_add x y = FFin w (round_mag (u + v)) \<and> (w \<longrightarrow> round_mag (u + v) = 0)"
  proof (cases "u + v = 0")
    case True
    then have "round_mag (u + v) = 0" by (simp add: round_mag_def)
    then show ?thesis using x y True by (simp add: Let_def)
  next
    case False
    then show ?thesis using x y r by (simp add: Let_def ex_bool_eq)
  qed
  then obtain w where w: "f64_add x y = FFin w (round_mag (u + v))" "w \<longrightarrow> round_mag (u + v) = 0"
    by blast
  show "f64_within c (f64_add x y)"
    unfolding f64_within_def using w r by fastforce
  show "f64_rat (f64_add x y) = round_mag (f64_rat x + f64_rat y)"
    using w by (auto simp: signed_def u_def v_def)
qed

lemma f64_mul_bounded:
  assumes "f64_within a x" and "f64_within b y" and "a * b \<le> c"
    and "representable c" and "c < 2 ^ 1024"
  shows "f64_within c (f64_mul x y)" and "f64_rat (f64_mul x y) = round_mag (f64_rat x * f64_rat y)"
proof -
  define u v where "u = f64_rat x" and "v = f64_rat y"
  obtain s where x: "x = FFin s u" "s \<longrightarrow> u = 0" "0 \<le> u" "u \<le> a"
    using f64_withinE [OF assms(1)] unfolding u_def by metis
  obtain t where y: "y = FFin t v" "t \<longrightarrow> v = 0" "0 \<le> v" "v \<le> b"
    using f64_withinE [OF assms(2)] unfolding v_def by metis
  have "u * v \<le> a * b" using x y by (intro mult_mono) simp_all
  then have r: "f64_round (s \<noteq> t) (u * v) = FFin (s \<noteq> t) (round_mag (u * v))"
      "0 \<le> round_mag (u * v)" "round_mag (u * v) \<le> c"
    using f64_round_below [of "u * v" c "s \<noteq> t"] assms x y by simp_all
  then have w: "f64_mul x y = FFin (s \<noteq> t) (round_mag (u * v))" using x y by simp
  have z: "s \<noteq> t \<longrightarrow> round_mag (u * v) = 0" using x y by (auto simp: round_mag_def)
  show "f64_within c (f64_mul x y)"
    unfolding f64_within_def using w z r by fastforce
  show "f64_rat (f64_mul x y) = round_mag (f64_rat x * f64_rat y)"
    using w z by (auto simp: signed_def u_def v_def)
qed

lemma f64_of_nat_within:
  assumes "n \<le> 2 ^ 53"
  shows "f64_of_nat n = FFin False (of_nat n)" and "f64_within (of_nat n) (f64_of_nat n)"
proof -
  have "(of_nat n :: rat) \<le> of_nat (2 ^ 53)" using assms by (simp only: of_nat_le_iff)
  then have "(of_nat n :: rat) < 2 ^ 1024" by (rule order_le_less_trans) simp
  moreover have "round_mag (of_nat n) = of_nat n"
    using representable_of_nat [OF assms] by (simp add: representable_def)
  ultimately show eq: "f64_of_nat n = FFin False (of_nat n)"
    by (simp add: f64_of_nat_def f64_round_eq not_le)
  show "f64_within (of_nat n) (f64_of_nat n)"
    using representable_of_nat [OF assms] unfolding eq f64_within_def by auto
qed

section \<open>Quotients by a maximum\<close>

lemma f64_partial_cmp_within:
  assumes "f64_within a x" and "f64_within b y"
  shows "f64_partial_cmp x y = Some (cmp_of (f64_rat x) (f64_rat y))"
  using assms by (cases x; cases y) (auto simp: f64_within_def)

lemma f64_lt_within:
  assumes "f64_within a x" and "f64_within b y"
  shows "f64_lt x y \<longleftrightarrow> f64_rat x < f64_rat y"
  by (simp add: f64_lt_def f64_partial_cmp_within [OF assms])

lemma f64_within_not_nan: "f64_within b x \<Longrightarrow> x \<noteq> FNan"
  by (auto simp: f64_within_def)

lemma f64_max_within:
  assumes "f64_within b x" and "f64_within b y"
  shows "f64_within b (f64_max x y)" and "f64_rat (f64_max x y) = max (f64_rat x) (f64_rat y)"
proof -
  have m: "f64_max x y = (if f64_rat x < f64_rat y then y else x)"
    using f64_lt_within [OF assms] assms [THEN f64_within_not_nan] by (simp add: f64_max_def)
  show "f64_within b (f64_max x y)" using assms by (simp add: m)
  show "f64_rat (f64_max x y) = max (f64_rat x) (f64_rat y)" by (simp add: m max_def)
qed

lemma f64_div_unit:
  assumes "f64_within b x" and "f64_within c y" and "f64_rat x \<le> f64_rat y" and "0 < f64_rat y"
  shows "f64_unit (f64_div x y)"
proof -
  define u v where "u = f64_rat x" and "v = f64_rat y"
  obtain s where x: "x = FFin s u" "s \<longrightarrow> u = 0" "0 \<le> u"
    using f64_withinE [OF assms(1)] unfolding u_def by metis
  obtain t where y: "y = FFin t v" "t \<longrightarrow> v = 0"
    using f64_withinE [OF assms(2)] unfolding v_def by metis
  have "u \<le> v" "0 < v" using assms(3,4) by (simp_all only: u_def v_def)
  with y(2) have uv: "u \<le> v" "0 < v" "\<not> t" by auto
  then have "0 \<le> u / v" "u / v \<le> 1" using x by simp_all
  then have r: "f64_round s (u / v) = FFin s (round_mag (u / v)) \<and>
      0 \<le> round_mag (u / v) \<and> round_mag (u / v) \<le> 1"
    by (intro f64_round_below) simp_all
  have "f64_div x y = FFin s (round_mag (u / v))" using x y uv r by simp
  moreover have "s \<longrightarrow> round_mag (u / v) = 0" using x by (simp add: round_mag_def)
  ultimately show ?thesis using r by (simp add: f64_within_def)
qed

lemma f64_div_rat:
  assumes "f64_within b x" and "f64_within c y" and "f64_rat x \<le> f64_rat y" and "0 < f64_rat y"
  shows "f64_rat (f64_div x y) = round_mag (f64_rat x / f64_rat y)"
proof -
  define u v where "u = f64_rat x" and "v = f64_rat y"
  obtain s where x: "x = FFin s u" "s \<longrightarrow> u = 0" "0 \<le> u"
    using f64_withinE [OF assms(1)] unfolding u_def by metis
  obtain t where y: "y = FFin t v" "t \<longrightarrow> v = 0"
    using f64_withinE [OF assms(2)] unfolding v_def by metis
  have "u \<le> v" "0 < v" using assms(3,4) by (simp_all only: u_def v_def)
  with y(2) have uv: "u \<le> v" "0 < v" "\<not> t" by auto
  then have "f64_round s (u / v) = FFin s (round_mag (u / v))"
    using f64_round_below [of "u / v" 1 s] x by simp
  then have "f64_div x y = FFin s (round_mag (u / v))" using x y uv by simp
  moreover have "s \<longrightarrow> round_mag (u / v) = 0" using x by (simp add: round_mag_def)
  ultimately show ?thesis by (auto simp: signed_def u_def v_def)
qed

lemma f64_div_self:
  assumes "f64_within b x" and "0 < f64_rat x"
  shows "f64_div x x = f64_one"
proof -
  define u where "u = f64_rat x"
  obtain s where x: "x = FFin s u"
    using f64_withinE [OF assms(1)] unfolding u_def by metis
  have "0 < u" using assms by (simp add: u_def)
  moreover have "f64_round False 1 = FFin False (round_mag 1)"
    using f64_round_below [of 1 1 False] by simp
  moreover have "round_mag 1 = 1" using representable_1 by (simp only: representable_def)
  ultimately show ?thesis using x by (simp add: f64_one_def)
qed

section \<open>Comparison\<close>

text \<open>On numbers, \<open>partial_cmp\<close> is a total preorder; a NaN has no place in it.\<close>

lemma f64_partial_cmp_refl: "x \<noteq> FNan \<Longrightarrow> f64_partial_cmp x x = Some Equal"
  by (cases x) auto

lemma f64_eq_within:
  assumes "f64_within a x" and "f64_within b y"
  shows "f64_eq x y \<longleftrightarrow> f64_rat x = f64_rat y"
  by (simp add: f64_eq_def f64_partial_cmp_within [OF assms])

text \<open>\<open>clamp(0.0, 1.0)\<close> brings every number into the unit interval, and lets only NaN through.\<close>

lemma f64_clamp_unit:
  assumes "f64_wf x" and "x \<noteq> FNan"
  shows "f64_unit (f64_clamp x f64_zero f64_one)"
proof (cases x)
  case (FInf neg)
  then show ?thesis
    by (cases neg) (simp_all add: f64_clamp_def f64_lt_def f64_zero_def f64_one_def signed_def
      f64_within_def cmp_of_def ex_bool_eq)
next
  case (FFin s m)
  then show ?thesis using assms(1)
    by (cases s) (auto simp: f64_clamp_def f64_lt_def f64_zero_def f64_one_def signed_def
      f64_within_def Let_def)
qed (use assms in simp)

lemma f64_clamp_nan [simp]: "f64_clamp FNan lo hi = FNan"
  by (cases hi) (simp_all add: f64_clamp_def f64_lt_def)

lemma f64_clamp_id:
  assumes "f64_unit x"
  shows "f64_clamp x f64_zero f64_one = x"
  using assms by (auto simp: f64_clamp_def f64_lt_def f64_zero_def f64_one_def signed_def
      f64_within_def)

lemma f64_unit_zero_one [simp]: "f64_unit f64_zero" "f64_unit f64_one"
  by (simp_all add: f64_within_def f64_zero_def f64_one_def ex_bool_eq)

end
