(* ===== verification/Runtime.thy ===== *)
theory Runtime
  imports Main Prelude
begin

text \<open>
  The runtime crate (\<open>crates/mirrorlane-runtime\<close>): the \<open>Step\<close> trait, the \<open>Cache\<close> port, the
  in-memory cache and the \<open>Cached\<close> decorator. A step is a record of its methods. \<open>run\<close> threads
  a state, because a real step (a model behind HTTP) is not a function of its input, and its
  result is \<open>None\<close> when the step panics. A mutex of the source guards one map that every call
  reads or writes whole, so it leaves no trace in the model.
\<close>

section \<open>Steps\<close>

datatype step_version = StepVersion (version_str: string)

record ('s, 'i, 'o) step =
  st_kind :: string
  st_version :: step_version
  st_run :: "'s \<Rightarrow> 'i \<Rightarrow> 'o option \<times> 's"

text \<open>A step behind a trait object is the step itself.\<close>

definition dyn_step :: "('s, 'i, 'o) step \<Rightarrow> ('s, 'i, 'o) step" where
  "dyn_step inner =
     \<lparr>st_kind = st_kind inner, st_version = st_version inner, st_run = st_run inner\<rparr>"

text \<open>A sequence of calls, as a caller that catches panics makes them.\<close>

fun run_all :: "('s \<Rightarrow> 'i \<Rightarrow> 'o option \<times> 's) \<Rightarrow> 's \<Rightarrow> 'i list \<Rightarrow> 'o option list \<times> 's" where
  "run_all run s [] = ([], s)"
| "run_all run s (i # is) =
     (let (o1, s1) = run s i; (os, s2) = run_all run s1 is in (o1 # os, s2))"

section \<open>The cache port and the in-memory cache\<close>

type_synonym 'v cache_map = "(string \<times> string \<times> string) \<rightharpoonup> 'v"

definition cache_new :: "'v cache_map" where
  "cache_new = Map.empty"

definition cache_len :: "'v cache_map \<Rightarrow> nat" where
  "cache_len c = card (dom c)"

definition cache_is_empty :: "'v cache_map \<Rightarrow> bool" where
  "cache_is_empty c = (cache_len c = 0)"

definition cache_get :: "'v cache_map \<Rightarrow> string \<Rightarrow> step_version \<Rightarrow> string \<Rightarrow> 'v option" where
  "cache_get c kind version key = c (kind, version_str version, key)"

definition cache_put :: "'v cache_map \<Rightarrow> string \<Rightarrow> step_version \<Rightarrow> string \<Rightarrow> 'v \<Rightarrow> 'v cache_map" where
  "cache_put c kind version key v = c((kind, version_str version, key) \<mapsto> v)"

text \<open>
  The port: what a decorator may rely on. A cache keeps an invariant \<open>ok\<close> of its own, and among
  the entries of one step kind a lookup sees the last write under exactly the same version and
  key. A decorator only ever uses the kind of its inner step, so nothing is asked about others.
  A durable cache gives back what its serialization preserves, the values \<open>storable\<close> admits.
\<close>

locale semantic_cache =
  fixes get :: "'c \<Rightarrow> string \<Rightarrow> step_version \<Rightarrow> string \<Rightarrow> 'v option"
    and put :: "'c \<Rightarrow> string \<Rightarrow> step_version \<Rightarrow> string \<Rightarrow> 'v \<Rightarrow> 'c"
    and ok :: "'c \<Rightarrow> bool"
    and storable :: "'v \<Rightarrow> bool"
  assumes ok_put: "ok c \<Longrightarrow> storable y \<Longrightarrow> ok (put c k v x y)"
    and get_put: "ok c \<Longrightarrow> storable y \<Longrightarrow>
      get (put c k v x y) k v' x' = (if (v', x') = (v, x) then Some y else get c k v' x')"

section \<open>The decorator\<close>

definition cached_run ::
  "('c \<Rightarrow> string \<Rightarrow> step_version \<Rightarrow> string \<Rightarrow> 'o option) \<Rightarrow>
   ('c \<Rightarrow> string \<Rightarrow> step_version \<Rightarrow> string \<Rightarrow> 'o \<Rightarrow> 'c) \<Rightarrow>
   ('i \<Rightarrow> string) \<Rightarrow> ('s, 'i, 'o) step \<Rightarrow> step_version \<Rightarrow> 'c \<times> 's \<Rightarrow> 'i \<Rightarrow> 'o option \<times> ('c \<times> 's)" where
  "cached_run get put cache_key inner version cs input =
     (let key = cache_key input in
      case get (fst cs) (st_kind inner) version key of
        Some hit \<Rightarrow> (Some hit, cs)
      | None \<Rightarrow>
          (case st_run inner (snd cs) input of
             (None, s') \<Rightarrow> (None, (fst cs, s'))
           | (Some out, s') \<Rightarrow> (Some out, (put (fst cs) (st_kind inner) version key out, s'))))"

definition cached_step ::
  "('c \<Rightarrow> string \<Rightarrow> step_version \<Rightarrow> string \<Rightarrow> 'o option) \<Rightarrow>
   ('c \<Rightarrow> string \<Rightarrow> step_version \<Rightarrow> string \<Rightarrow> 'o \<Rightarrow> 'c) \<Rightarrow>
   ('i \<Rightarrow> string) \<Rightarrow> ('s, 'i, 'o) step \<Rightarrow> step_version \<Rightarrow> ('c \<times> 's, 'i, 'o) step" where
  "cached_step get put cache_key inner version =
     \<lparr>st_kind = st_kind inner, st_version = version,
      st_run = cached_run get put cache_key inner version\<rparr>"

definition cached_with_inner_version ::
  "('c \<Rightarrow> string \<Rightarrow> step_version \<Rightarrow> string \<Rightarrow> 'o option) \<Rightarrow>
   ('c \<Rightarrow> string \<Rightarrow> step_version \<Rightarrow> string \<Rightarrow> 'o \<Rightarrow> 'c) \<Rightarrow>
   ('i \<Rightarrow> string) \<Rightarrow> ('s, 'i, 'o) step \<Rightarrow> ('c \<times> 's, 'i, 'o) step" where
  "cached_with_inner_version get put cache_key inner =
     cached_step get put cache_key inner (st_version inner)"

lemma cached_step_run [simp]:
  "st_run (cached_step get put cache_key inner version) = cached_run get put cache_key inner version"
  by (simp add: cached_step_def)

lemma dyn_step_eq [simp]: "dyn_step inner = inner"
  by (simp add: dyn_step_def)

text \<open>
  A ghost of the specification: the same step, recording in its state the inputs it answered.
\<close>

definition logged :: "('s, 'i, 'o) step \<Rightarrow> ('s \<times> 'i list, 'i, 'o) step" where
  "logged inner =
     \<lparr>st_kind = st_kind inner, st_version = st_version inner,
      st_run = (\<lambda>sl input.
        case st_run inner (fst sl) input of
          (None, s') \<Rightarrow> (None, (s', snd sl))
        | (Some out, s') \<Rightarrow> (Some out, (s', snd sl @ [input])))\<rparr>"

definition storable_answers :: "('o \<Rightarrow> bool) \<Rightarrow> ('s, 'i, 'o) step \<Rightarrow> bool" where
  "storable_answers storable inner \<longleftrightarrow>
     (\<forall>s i out s'. st_run inner s i = (Some out, s') \<longrightarrow> storable out)"

lemma storable_answersD: "storable_answers storable inner \<Longrightarrow> st_run inner s i = (Some out, s') \<Longrightarrow> storable out"
  unfolding storable_answers_def by blast

lemma storable_answers_True [simp]: "storable_answers (\<lambda>_. True) inner"
  by (simp add: storable_answers_def)

lemma storable_answers_logged: "storable_answers storable inner \<Longrightarrow> storable_answers storable (logged inner)"
  by (fastforce simp: storable_answers_def logged_def split: prod.splits option.splits)

context semantic_cache begin

lemma cached_hit:
  assumes "get c (st_kind inner) version (cache_key i) = Some hit"
  shows "cached_run get put cache_key inner version (c, s) i = (Some hit, (c, s))"
  using assms by (simp add: cached_run_def Let_def)

lemma cached_ok:
  assumes "ok c" and "storable_answers storable inner" and "cached_run get put cache_key inner version (c, s) i = (r, (c', s'))"
  shows "ok c'"
  using assms by (auto simp: cached_run_def Let_def ok_put dest: storable_answersD split: option.splits prod.splits)

lemma cached_panic_stores_nothing:
  assumes "cached_run get put cache_key inner version (c, s) i = (None, (c', s'))"
  shows "c' = c"
  using assms by (auto simp: cached_run_def Let_def split: option.splits prod.splits)

lemma cached_answer_is_stored:
  assumes "ok c" and "storable_answers storable inner" and "cached_run get put cache_key inner version (c, s) i = (Some out, (c', s'))"
  shows "get c' (st_kind inner) version (cache_key i) = Some out"
  using assms by (auto simp: cached_run_def Let_def get_put dest: storable_answersD split: option.splits prod.splits)

text \<open>Nothing the cache already holds is ever overwritten by the decorator.\<close>

lemma cached_keeps:
  assumes "ok c" and "storable_answers storable inner" and "cached_run get put cache_key inner version (c, s) i = (r, (c', s'))"
    and "get c (st_kind inner) v x = Some y"
  shows "get c' (st_kind inner) v x = Some y"
proof (cases "get c (st_kind inner) version (cache_key i)")
  case None
  show ?thesis
  proof (cases "fst (st_run inner s i)")
    case None
    with assms \<open>get c (st_kind inner) version (cache_key i) = None\<close> show ?thesis
      by (auto simp: cached_run_def Let_def split: prod.splits option.splits)
  next
    case (Some out)
    then obtain s2 where run: "st_run inner s i = (Some out, s2)" by (cases "st_run inner s i") simp
    have "c' = put c (st_kind inner) version (cache_key i) out"
      using assms(3) None run by (simp add: cached_run_def Let_def)
    then show ?thesis
      using assms(4) None by (auto simp: get_put [OF assms(1) storable_answersD [OF assms(2) run]])
  qed
qed (use assms in \<open>simp add: cached_run_def Let_def\<close>)

lemma cached_all_keeps:
  assumes "ok c" and "storable_answers storable inner" and "run_all (cached_run get put cache_key inner version) (c, s) is = (os, (c', s'))"
    and "get c (st_kind inner) v x = Some y"
  shows "get c' (st_kind inner) v x = Some y" and "ok c'"
proof -
  have "get c' (st_kind inner) v x = Some y \<and> ok c'"
    using assms
  proof (induction "is" arbitrary: c s os)
    case (Cons i "is")
    obtain o1 c1 s1 where run: "cached_run get put cache_key inner version (c, s) i = (o1, (c1, s1))"
      by (metis prod.collapse)
    obtain os' where "run_all (cached_run get put cache_key inner version) (c1, s1) is = (os', (c', s'))"
      using Cons.prems(3) run by (auto simp: Let_def split: prod.splits)
    then show ?case
      using Cons.IH cached_ok [OF Cons.prems(1,2) run] Cons.prems(2) cached_keeps [OF Cons.prems(1,2) run Cons.prems(4)]
      by blast
  qed simp
  then show "get c' (st_kind inner) v x = Some y" and "ok c'" by simp_all
qed

text \<open>An answer, once given, is the answer for good: whatever is run in between.\<close>

lemma cached_answer_for_good:
  assumes "ok c" and "storable_answers storable inner" and "cached_run get put cache_key inner version (c, s) i = (Some out, (c1, s1))"
    and "run_all (cached_run get put cache_key inner version) (c1, s1) is = (os, (c2, s2))"
    and "cache_key j = cache_key i"
  shows "cached_run get put cache_key inner version (c2, s2) j = (Some out, (c2, s2))"
proof -
  have "ok c1" by (rule cached_ok [OF assms(1-3)])
  moreover have "get c1 (st_kind inner) version (cache_key i) = Some out"
    by (rule cached_answer_is_stored [OF assms(1-3)])
  ultimately have "get c2 (st_kind inner) version (cache_key j) = Some out"
    using cached_all_keeps(1) [OF _ assms(2,4)] assms(5) by simp
  then show ?thesis by (rule cached_hit)
qed

text \<open>Over a cache that holds every input, a run is a lookup, whatever the inner step is.\<close>

lemma cached_all_populated:
  assumes "\<forall>i\<in>set is. get c (st_kind inner) version (cache_key i) \<noteq> None"
  shows "run_all (cached_run get put cache_key inner version) (c, s) is =
    (map (\<lambda>i. get c (st_kind inner) version (cache_key i)) is, (c, s))"
  using assms by (induction "is") (auto simp: cached_hit)

text \<open>The keys of the inputs the inner step answered are distinct.\<close>

lemma cached_inner_once:
  assumes "ok c" and "storable_answers storable inner"
    and "run_all (cached_run get put cache_key (logged inner) version) (c, (s, l)) is =
      (os, (c', (s', l')))"
    and "distinct (map cache_key l)"
    and "\<forall>i\<in>set l. get c (st_kind inner) version (cache_key i) \<noteq> None"
  shows "distinct (map cache_key l')"
  using assms
proof (induction "is" arbitrary: c s l os)
  case (Cons i "is")
  let ?run = "cached_run get put cache_key (logged inner) version"
  obtain o1 c1 s1 l1 where run: "?run (c, (s, l)) i = (o1, (c1, (s1, l1)))"
    by (metis prod.collapse)
  obtain os' where rest: "run_all ?run (c1, (s1, l1)) is = (os', (c', (s', l')))"
    using Cons.prems(3) run by (auto simp: Let_def split: prod.splits)
  have sto: "storable_answers storable (logged inner)" by (rule storable_answers_logged [OF Cons.prems(2)])
  have kind: "st_kind (logged inner) = st_kind inner" by (simp add: logged_def)
  have "l1 = l \<or> (l1 = l @ [i] \<and> get c (st_kind inner) version (cache_key i) = None \<and> o1 \<noteq> None)"
    using run by (auto simp: cached_run_def logged_def Let_def split: option.splits prod.splits)
  moreover have "\<forall>j\<in>set l. get c1 (st_kind inner) version (cache_key j) \<noteq> None"
    using cached_keeps [OF Cons.prems(1) sto run] Cons.prems(5) kind by fastforce
  moreover have "get c1 (st_kind inner) version (cache_key i) \<noteq> None" if "o1 \<noteq> None"
    using cached_answer_is_stored [OF Cons.prems(1) sto] run that kind by fastforce
  moreover have "cache_key i \<notin> cache_key ` set l"
    if "get c (st_kind inner) version (cache_key i) = None"
    using Cons.prems(5) that by (metis imageE)
  ultimately have "distinct (map cache_key l1)"
    and "\<forall>j\<in>set l1. get c1 (st_kind inner) version (cache_key j) \<noteq> None"
    using Cons.prems(4) by auto
  then show ?case
    using Cons.IH [OF cached_ok [OF Cons.prems(1) sto run] Cons.prems(2) rest] by simp
qed simp

end

interpretation mem_cache: semantic_cache cache_get cache_put "\<lambda>_. True" "\<lambda>_. True"
  by unfold_locales (auto simp: cache_get_def cache_put_def step_version.expand)

text \<open>In memory the kind is part of the key too: entries alias only when all three agree.\<close>

lemma cache_get_put:
  "cache_get (cache_put c k v x y) k' v' x' =
    (if k' = k \<and> v' = v \<and> x' = x then Some y else cache_get c k' v' x')"
  by (auto simp: cache_get_def cache_put_def step_version.expand)

lemma cache_put_len:
  assumes "finite (dom c)"
  shows "cache_len (cache_put c k v x y) =
    (if cache_get c k v x = None then cache_len c + 1 else cache_len c)"
  using assms by (auto simp: cache_len_def cache_put_def cache_get_def card_insert_if)

lemma cache_is_empty_iff:
  "finite (dom c) \<Longrightarrow> cache_is_empty c \<longleftrightarrow> c = cache_new"
  by (simp add: cache_is_empty_def cache_len_def cache_new_def)

end
