(* ===== verification/Model.thy ===== *)
theory Model
  imports Main Prelude F64
begin

text \<open>
  The data of the core crate (\<open>crates/mirrorlane-core\<close>: \<open>message.rs\<close>, \<open>projection.rs\<close>,
  \<open>scope.rs\<close>, \<open>skill.rs\<close>, \<open>warmup.rs\<close> and the data of \<open>routing.rs\<close>). A newtype of the source
  is a datatype with one constructor, a struct is a record whose fields carry a prefix of
  their own. The derived \<open>PartialEq\<close> of a type that holds an \<open>f64\<close> is written out, because it
  is not equality: a NaN differs from itself and the two zeros are equal.
\<close>

section \<open>Messages\<close>

datatype message_id = MessageId (message_id_str: string)
datatype author_id = AuthorId (author_id_str: string)
datatype conversation_id = ConversationId (conversation_id_str: string)
datatype thread_id = ThreadId (thread_id_str: string)
datatype source = Discord | Slack | SourceGitHub | Manual

record author =
  au_id :: author_id
  au_display_name :: string

record conversation =
  conv_id :: conversation_id
  conv_thread :: "thread_id option"

record message_envelope =
  env_id :: message_id
  env_source :: source
  env_author :: author
  env_conversation :: conversation
  env_body :: string

section \<open>Projections\<close>

datatype intent = Question | Decision | Proposal | Task | Issue | Social
datatype topic = Topic (topic_str: string)
datatype entity = Entity (entity_str: string)
datatype confidence = Confidence (confidence_f64: f64)

definition confidence_new :: "f64 \<Rightarrow> confidence" where
  "confidence_new v = Confidence (f64_clamp v f64_zero f64_one)"

definition confidence_get :: "confidence \<Rightarrow> f64" where
  "confidence_get c = confidence_f64 c"

record projection =
  proj_message_id :: message_id
  proj_intent :: intent
  proj_topics :: "topic list"
  proj_entities :: "entity list"
  proj_confidence :: confidence

section \<open>Scopes and warm-ups\<close>

datatype component = Component (component_str: string)

record scope =
  sc_conversation :: conversation_id
  sc_load :: "component list"
  sc_ignore :: "component list"
  sc_reason :: string
  sc_confidence :: confidence

record scope_request =
  sreq_conversation :: conversation_id
  sreq_messages :: "message_id list"

record warmup_document =
  wu_conversation :: conversation_id
  wu_focus :: "component list"
  wu_decisions :: "message_id list"
  wu_open_questions :: "message_id list"
  wu_tasks :: "message_id list"
  wu_summary :: string

record warmup_request =
  wreq_conversation :: conversation_id
  wreq_messages :: "message_id list"

section \<open>Skills and developers\<close>

datatype skill_score = SkillScore (skill_score_f64: f64)

definition skill_score_new :: "f64 \<Rightarrow> skill_score" where
  "skill_score_new v = SkillScore (f64_clamp v f64_zero f64_one)"

definition skill_score_get :: "skill_score \<Rightarrow> f64" where
  "skill_score_get s = skill_score_f64 s"

record topic_weight =
  tw_topic :: topic
  tw_weight :: f64

record developer_profile =
  dp_author :: author_id
  dp_display_name :: string
  dp_topics :: "topic_weight list"

record expert_candidate =
  ec_author :: author_id
  ec_display_name :: string
  ec_score :: skill_score

record topic_ownership =
  own_topic :: topic
  own_candidates :: "expert_candidate list"

record skill_index =
  si_profiles :: "developer_profile list"
  si_ownerships :: "topic_ownership list"

record skill_contribution =
  sk_author :: author_id
  sk_display_name :: string
  sk_topics :: "topic list"
  sk_confidence :: confidence

record developer_snapshot =
  ds_author :: author_id
  ds_display_name :: string
  ds_topics :: "topic_weight list"

record session_developers =
  sd_conversation :: conversation_id
  sd_developers :: "developer_snapshot list"

record participant =
  pt_author :: author_id
  pt_display_name :: string

record developer_snapshot_request =
  dreq_conversation :: conversation_id
  dreq_participants :: "participant list"
  dreq_messages :: "message_id list"

record skill_entry =
  se_author :: author_id
  se_display_name :: string
  se_message :: message_id

record skill_request =
  skreq_entries :: "skill_entry list"

section \<open>Routing\<close>

datatype consumer_kind = Human | Agent | WorklaneJob | ConsumerGitHub

record routing_rule =
  rule_intent :: intent
  rule_target :: consumer_kind

record routing_decision =
  dec_message_id :: message_id
  dec_target :: consumer_kind
  dec_reason :: string
  dec_escalated :: bool

record evaluation_step =
  ev_rule_name :: string
  ev_matched :: bool
  ev_resulting_target :: "consumer_kind option"

record routing_trace =
  rt_message_id :: message_id
  rt_steps :: "evaluation_step list"

record routing_hint =
  hint_message_id :: message_id
  hint_reviewers :: "expert_candidate list"
  hint_human_hint :: "expert_candidate option"

record consumer_receipt =
  rcpt_kind :: consumer_kind
  rcpt_message_id :: message_id

record routing_request =
  rreq_messages :: "message_id list"

record routing_hint_request =
  hreq_messages :: "message_id list"

datatype consumer_error = ConsumerError (consumer_error_str: string)

definition consumer_error_new :: "string \<Rightarrow> consumer_error" where
  "consumer_error_new message = ConsumerError message"

definition consumer_error_display :: "consumer_error \<Rightarrow> string" where
  "consumer_error_display e = ''consumer error: '' @ consumer_error_str e"

section \<open>Orders\<close>

text \<open>
  \<open>Component\<close> derives \<open>Ord\<close>; topics and authors are ordered by their strings wherever the
  code sorts or keys an ordered map by them.
\<close>

instantiation component :: linorder
begin

definition less_eq_component_def: "c \<le> d \<longleftrightarrow> component_str c \<le> component_str d"
definition less_component_def: "c < d \<longleftrightarrow> component_str c < component_str d"

instance
  by standard (auto simp: less_eq_component_def less_component_def component.expand)

end

instantiation topic :: linorder
begin

definition less_eq_topic_def: "c \<le> d \<longleftrightarrow> topic_str c \<le> topic_str d"
definition less_topic_def: "c < d \<longleftrightarrow> topic_str c < topic_str d"

instance
  by standard (auto simp: less_eq_topic_def less_topic_def topic.expand)

end

instantiation author_id :: linorder
begin

definition less_eq_author_id_def: "c \<le> d \<longleftrightarrow> author_id_str c \<le> author_id_str d"
definition less_author_id_def: "c < d \<longleftrightarrow> author_id_str c < author_id_str d"

instance
  by standard (auto simp: less_eq_author_id_def less_author_id_def author_id.expand)

end

section \<open>Derived equality\<close>

definition confidence_eq :: "confidence \<Rightarrow> confidence \<Rightarrow> bool" where
  "confidence_eq a b = f64_eq (confidence_f64 a) (confidence_f64 b)"

definition projection_eq :: "projection \<Rightarrow> projection \<Rightarrow> bool" where
  "projection_eq a b =
     (proj_message_id a = proj_message_id b \<and> proj_intent a = proj_intent b \<and>
      proj_topics a = proj_topics b \<and> proj_entities a = proj_entities b \<and>
      confidence_eq (proj_confidence a) (proj_confidence b))"

definition scope_eq :: "scope \<Rightarrow> scope \<Rightarrow> bool" where
  "scope_eq a b =
     (sc_conversation a = sc_conversation b \<and> sc_load a = sc_load b \<and>
      sc_ignore a = sc_ignore b \<and> sc_reason a = sc_reason b \<and>
      confidence_eq (sc_confidence a) (sc_confidence b))"

definition topic_weight_eq :: "topic_weight \<Rightarrow> topic_weight \<Rightarrow> bool" where
  "topic_weight_eq a b = (tw_topic a = tw_topic b \<and> f64_eq (tw_weight a) (tw_weight b))"

definition developer_snapshot_eq :: "developer_snapshot \<Rightarrow> developer_snapshot \<Rightarrow> bool" where
  "developer_snapshot_eq a b =
     (ds_author a = ds_author b \<and> ds_display_name a = ds_display_name b \<and>
      list_all2 topic_weight_eq (ds_topics a) (ds_topics b))"

definition session_developers_eq :: "session_developers \<Rightarrow> session_developers \<Rightarrow> bool" where
  "session_developers_eq a b =
     (sd_conversation a = sd_conversation b \<and>
      list_all2 developer_snapshot_eq (sd_developers a) (sd_developers b))"

definition expert_candidate_eq :: "expert_candidate \<Rightarrow> expert_candidate \<Rightarrow> bool" where
  "expert_candidate_eq a b =
     (ec_author a = ec_author b \<and> ec_display_name a = ec_display_name b \<and>
      f64_eq (skill_score_f64 (ec_score a)) (skill_score_f64 (ec_score b)))"

fun option_eq :: "('a \<Rightarrow> 'a \<Rightarrow> bool) \<Rightarrow> 'a option \<Rightarrow> 'a option \<Rightarrow> bool" where
  "option_eq eq None None = True"
| "option_eq eq (Some a) (Some b) = eq a b"
| "option_eq eq _ _ = False"

definition routing_hint_eq :: "routing_hint \<Rightarrow> routing_hint \<Rightarrow> bool" where
  "routing_hint_eq a b =
     (hint_message_id a = hint_message_id b \<and>
      list_all2 expert_candidate_eq (hint_reviewers a) (hint_reviewers b) \<and>
      option_eq expert_candidate_eq (hint_human_hint a) (hint_human_hint b))"

section \<open>Confidences\<close>

text \<open>Construction clamps: every confidence but NaN lies in the unit interval.\<close>

definition confidence_ok :: "confidence \<Rightarrow> bool" where
  "confidence_ok c = f64_unit (confidence_get c)"

lemma confidence_new_ok: "f64_wf v \<Longrightarrow> v \<noteq> FNan \<Longrightarrow> confidence_ok (confidence_new v)"
  by (simp add: confidence_ok_def confidence_new_def confidence_get_def f64_clamp_unit)

lemma confidence_new_id: "f64_unit v \<Longrightarrow> confidence_get (confidence_new v) = v"
  by (simp add: confidence_new_def confidence_get_def f64_clamp_id)

lemma confidence_new_nan: "confidence_get (confidence_new FNan) = FNan"
  by (simp add: confidence_new_def confidence_get_def)

lemma f64_eq_refl: "x \<noteq> FNan \<Longrightarrow> f64_eq x x"
  by (simp add: f64_eq_def f64_partial_cmp_refl)

lemma confidence_eq_refl: "confidence_ok c \<Longrightarrow> confidence_eq c c"
  by (auto simp: confidence_ok_def confidence_eq_def confidence_get_def
      intro!: f64_eq_refl dest: f64_within_not_nan)

lemma projection_eq_refl: "confidence_ok (proj_confidence p) \<Longrightarrow> projection_eq p p"
  by (simp add: projection_eq_def confidence_eq_refl)

lemma option_eq_refl: "(\<And>x. a = Some x \<Longrightarrow> eq x x) \<Longrightarrow> option_eq eq a a"
  by (cases a) auto

end
