(* ===== verification/MessageLog.thy ===== *)
theory MessageLog
  imports Main Prelude Model
begin

text \<open>
  The message log (\<open>crates/mirrorlane-core/src/message_log.rs\<close>): the append-only source of
  truth. The port is the locale \<open>message_store\<close>, whose laws are given by an abstraction: a log
  is the list of its messages, and \<open>append\<close> replaces in place by id or adds at the end. The
  in-memory store (an id list and a hash map) is an implementation; the SQLite one is in
  \<open>SqliteLog\<close>.
\<close>

section \<open>The abstract log\<close>

type_synonym abstract_log = "message_envelope list"

fun log_append :: "message_envelope \<Rightarrow> abstract_log \<Rightarrow> abstract_log" where
  "log_append m [] = [m]"
| "log_append m (x # xs) = (if env_id x = env_id m then m # xs else x # log_append m xs)"

definition log_find :: "message_id \<Rightarrow> abstract_log \<Rightarrow> message_envelope option" where
  "log_find i l = find (\<lambda>m. env_id m = i) l"

definition log_wf :: "abstract_log \<Rightarrow> bool" where
  "log_wf l = distinct (map env_id l)"

lemma log_ids_append:
  "map env_id (log_append m l) =
    (if env_id m \<in> env_id ` set l then map env_id l else map env_id l @ [env_id m])"
  by (induction l) auto

lemma log_wf_append: "log_wf l \<Longrightarrow> log_wf (log_append m l)"
  unfolding log_wf_def log_ids_append by simp

lemma log_find_append:
  "log_find i (log_append m l) = (if i = env_id m then Some m else log_find i l)"
  by (induction l) (auto simp: log_find_def)

lemma log_append_idem: "log_append m (log_append m l) = log_append m l"
  by (induction l) auto

lemma log_append_new: "env_id m \<notin> env_id ` set l \<Longrightarrow> log_append m l = l @ [m]"
  by (induction l) auto

lemma log_append_same: "log_wf l \<Longrightarrow> m \<in> set l \<Longrightarrow> log_append m l = l"
  by (induction l) (force simp: log_wf_def)+

lemma set_log_append:
  "log_wf l \<Longrightarrow> set (log_append m l) = insert m {x \<in> set l. env_id x \<noteq> env_id m}"
proof (induction l)
  case (Cons x xs)
  have new: "env_id x \<notin> env_id ` set xs" and wf: "log_wf xs"
    using Cons.prems by (simp_all add: log_wf_def)
  show ?case
  proof (cases "env_id x = env_id m")
    case True
    with new have "\<forall>y\<in>set xs. env_id y \<noteq> env_id m" by (metis image_eqI)
    with True show ?thesis by auto
  next
    case False
    with Cons.IH [OF wf] show ?thesis by auto
  qed
qed simp

lemma log_find_iff: "log_wf l \<Longrightarrow> log_find (env_id m) l = Some m \<longleftrightarrow> m \<in> set l"
proof (induction l)
  case (Cons x xs)
  have new: "env_id x \<notin> env_id ` set xs" and wf: "log_wf xs"
    using Cons.prems by (simp_all add: log_wf_def)
  show ?case
  proof (cases "env_id x = env_id m")
    case True
    with new have "m \<notin> set xs" by (metis image_eqI)
    with True show ?thesis by (auto simp: log_find_def)
  next
    case False
    with Cons.IH [OF wf] show ?thesis by (auto simp: log_find_def)
  qed
qed (simp add: log_find_def)

section \<open>The default queries of the port\<close>

definition conversation_of :: "message_envelope \<Rightarrow> conversation_id" where
  "conversation_of m = conv_id (env_conversation m)"

fun conversation_ids_loop :: "conversation_id list \<Rightarrow> message_envelope list \<Rightarrow> conversation_id list" where
  "conversation_ids_loop seen [] = seen"
| "conversation_ids_loop seen (m # ms) =
     (if conversation_of m \<in> set seen then conversation_ids_loop seen ms
      else conversation_ids_loop (seen @ [conversation_of m]) ms)"

definition default_conversation_ids :: "message_envelope list \<Rightarrow> conversation_id list" where
  "default_conversation_ids all = conversation_ids_loop [] all"

definition default_messages_for :: "message_envelope list \<Rightarrow> conversation_id \<Rightarrow> message_envelope list" where
  "default_messages_for all c = filter (\<lambda>m. conversation_of m = c) all"

text \<open>The loop keeps the first of each conversation: \<open>remdups\<close> read from the front.\<close>

lemma conversation_ids_loop:
  "set (conversation_ids_loop seen ms) = set seen \<union> conversation_of ` set ms"
  "distinct seen \<Longrightarrow> distinct (conversation_ids_loop seen ms)"
  by (induction ms arbitrary: seen) auto

lemma conversation_ids_loop_eq:
  "conversation_ids_loop seen ms =
    seen @ rev (remdups (rev (filter (\<lambda>c. c \<notin> set seen) (map conversation_of ms))))"
proof (induction ms arbitrary: seen)
  case (Cons m ms)
  have split: "rev (remdups (rev xs @ [c])) = c # rev (remdups (rev (filter (\<lambda>d. d \<noteq> c) xs)))"
    for c :: conversation_id and xs
  proof -
    have "remdups (ys @ [c]) = remdups (filter (\<lambda>d. d \<noteq> c) ys) @ [c]" for ys :: "conversation_id list"
      by (induction ys) auto
    then show ?thesis by (simp add: rev_filter)
  qed
  have "filter (\<lambda>d. d \<noteq> conversation_of m) (filter (\<lambda>c. c \<notin> set seen) (map conversation_of ms)) =
      filter (\<lambda>c. c \<notin> set (seen @ [conversation_of m])) (map conversation_of ms)"
    by (auto intro: filter_cong)
  then show ?case by (simp add: Cons.IH split)
qed simp

lemma set_default_conversation_ids [simp]:
  "set (default_conversation_ids all) = conversation_of ` set all"
  by (simp add: default_conversation_ids_def conversation_ids_loop)

lemma distinct_default_conversation_ids [simp]: "distinct (default_conversation_ids all)"
  by (simp add: default_conversation_ids_def conversation_ids_loop)

lemma default_conversation_ids_append:
  "default_conversation_ids (ms @ [m]) =
    (if conversation_of m \<in> conversation_of ` set ms then default_conversation_ids ms
     else default_conversation_ids ms @ [conversation_of m])"
proof -
  have "conversation_ids_loop seen (xs @ [m]) =
    (if conversation_of m \<in> set (conversation_ids_loop seen xs) then conversation_ids_loop seen xs
     else conversation_ids_loop seen xs @ [conversation_of m])" for seen xs
    by (induction xs arbitrary: seen) auto
  from this [of "[]" ms] show ?thesis
    by (simp only: flip: default_conversation_ids_def) simp
qed

section \<open>The port\<close>

text \<open>
  What the rest of the program may assume of a message store: an abstraction \<open>all\<close> that its
  operations refine, on the states \<open>ok\<close> admits and for the messages it can store.
\<close>

locale message_store =
  fixes append :: "message_envelope \<Rightarrow> 's \<Rightarrow> 's"
    and get :: "'s \<Rightarrow> message_id \<Rightarrow> message_envelope option"
    and all :: "'s \<Rightarrow> message_envelope list"
    and conversation_ids :: "'s \<Rightarrow> conversation_id list"
    and messages_for :: "'s \<Rightarrow> conversation_id \<Rightarrow> message_envelope list"
    and ok :: "'s \<Rightarrow> bool"
    and storable :: "message_envelope \<Rightarrow> bool"
  assumes ok_append: "ok s \<Longrightarrow> storable m \<Longrightarrow> ok (append m s)"
    and all_wf: "ok s \<Longrightarrow> log_wf (all s)"
    and all_append: "ok s \<Longrightarrow> storable m \<Longrightarrow> all (append m s) = log_append m (all s)"
    and get_all: "ok s \<Longrightarrow> get s i = log_find i (all s)"
    and conversation_ids_all: "ok s \<Longrightarrow> conversation_ids s = default_conversation_ids (all s)"
    and messages_for_all: "ok s \<Longrightarrow> messages_for s c = default_messages_for (all s) c"
begin

lemma ok_appends: "ok s \<Longrightarrow> \<forall>m\<in>set ms. storable m \<Longrightarrow> ok (fold append ms s)"
  by (induction ms arbitrary: s) (auto simp: ok_append)

lemma all_appends: "ok s \<Longrightarrow> \<forall>m\<in>set ms. storable m \<Longrightarrow> all (fold append ms s) = fold log_append ms (all s)"
  by (induction ms arbitrary: s) (auto simp: ok_append all_append)

lemma get_append: "ok s \<Longrightarrow> storable m \<Longrightarrow> get (append m s) i = (if i = env_id m then Some m else get s i)"
  by (simp add: ok_append get_all all_append log_find_append)

lemma append_idem: "ok s \<Longrightarrow> storable m \<Longrightarrow> all (append m (append m s)) = all (append m s)"
  by (simp add: ok_append all_append log_append_idem)

text \<open>Every message of the log is in exactly one of the listed conversations, in log order.\<close>

lemma conversations_cover:
  assumes "ok s"
  shows "distinct (conversation_ids s)"
    and "m \<in> set (all s) \<longleftrightarrow> conversation_of m \<in> set (conversation_ids s) \<and> m \<in> set (messages_for s (conversation_of m))"
  using assms by (auto simp: conversation_ids_all messages_for_all default_messages_for_def)

end

section \<open>The in-memory store\<close>

record mem_log =
  lg_order :: "message_id list"
  lg_by_id :: "message_id \<rightharpoonup> message_envelope"

definition mem_log_new :: mem_log where
  "mem_log_new = \<lparr>lg_order = [], lg_by_id = Map.empty\<rparr>"

definition mem_log_len :: "mem_log \<Rightarrow> nat" where
  "mem_log_len s = length (lg_order s)"

definition mem_log_is_empty :: "mem_log \<Rightarrow> bool" where
  "mem_log_is_empty s = (lg_order s = [])"

definition mem_log_append :: "message_envelope \<Rightarrow> mem_log \<Rightarrow> mem_log" where
  "mem_log_append m s =
     (let order = (if lg_by_id s (env_id m) = None then lg_order s @ [env_id m] else lg_order s) in
      \<lparr>lg_order = order, lg_by_id = (lg_by_id s)(env_id m \<mapsto> m)\<rparr>)"

definition mem_log_get :: "mem_log \<Rightarrow> message_id \<Rightarrow> message_envelope option" where
  "mem_log_get s i = lg_by_id s i"

text \<open>
  \<open>all\<close> indexes the map by every id of the order, which panics on a missing id; \<open>None\<close> is that
  panic.
\<close>

definition mem_log_all_checked :: "mem_log \<Rightarrow> message_envelope list option" where
  "mem_log_all_checked s = those (map (lg_by_id s) (lg_order s))"

definition mem_log_all :: "mem_log \<Rightarrow> message_envelope list" where
  "mem_log_all s = map (\<lambda>i. the (lg_by_id s i)) (lg_order s)"

definition mem_log_conversation_ids :: "mem_log \<Rightarrow> conversation_id list" where
  "mem_log_conversation_ids s = default_conversation_ids (mem_log_all s)"

definition mem_log_messages_for :: "mem_log \<Rightarrow> conversation_id \<Rightarrow> message_envelope list" where
  "mem_log_messages_for s c = default_messages_for (mem_log_all s) c"

text \<open>The invariant ties the order to the map.\<close>

definition mem_log_ok :: "mem_log \<Rightarrow> bool" where
  "mem_log_ok s \<longleftrightarrow>
     distinct (lg_order s) \<and> set (lg_order s) = dom (lg_by_id s) \<and>
     (\<forall>i m. lg_by_id s i = Some m \<longrightarrow> env_id m = i)"

lemma mem_log_ok_new [simp]: "mem_log_ok mem_log_new"
  by (simp add: mem_log_ok_def mem_log_new_def)

lemma mem_log_ok_append: "mem_log_ok s \<Longrightarrow> mem_log_ok (mem_log_append m s)"
  by (auto simp: mem_log_ok_def mem_log_append_def)

lemma those_map_Some: "\<forall>x\<in>set xs. f x \<noteq> None \<Longrightarrow> those (map f xs) = Some (map (the \<circ> f) xs)"
  by (induction xs) auto

lemma mem_log_all_no_panic:
  "mem_log_ok s \<Longrightarrow> mem_log_all_checked s = Some (mem_log_all s)"
  unfolding mem_log_all_checked_def mem_log_all_def mem_log_ok_def
  by (subst those_map_Some) auto

lemma mem_log_ids:
  assumes "mem_log_ok s"
  shows "map env_id (mem_log_all s) = lg_order s"
  unfolding mem_log_all_def map_map comp_def
  by (rule map_idI) (use assms in \<open>force simp: mem_log_ok_def\<close>)

lemma mem_log_all_append:
  assumes "mem_log_ok s"
  shows "mem_log_all (mem_log_append m s) = log_append m (mem_log_all s)"
proof -
  have step: "distinct is \<Longrightarrow> \<forall>i\<in>set is. env_id (the (M i)) = i \<Longrightarrow> env_id m \<in> set is \<Longrightarrow>
      map (\<lambda>i. the ((M(env_id m \<mapsto> m)) i)) is = log_append m (map (\<lambda>i. the (M i)) is)"
    for M :: "message_id \<rightharpoonup> message_envelope" and "is"
    by (induction "is") (auto intro!: map_cong)
  have ids: "\<forall>i\<in>set (lg_order s). env_id (the (lg_by_id s i)) = i"
    using assms by (auto simp: mem_log_ok_def)
  show ?thesis
  proof (cases "env_id m \<in> set (lg_order s)")
    case True
    then have "lg_by_id s (env_id m) \<noteq> None" using assms by (auto simp: mem_log_ok_def)
    then show ?thesis
      using step [OF _ ids True] assms
      by (auto simp: mem_log_all_def mem_log_append_def mem_log_ok_def)
  next
    case False
    then have "lg_by_id s (env_id m) = None" using assms by (auto simp: mem_log_ok_def)
    moreover have "env_id m \<notin> env_id ` set (mem_log_all s)"
      using False mem_log_ids [OF assms] by (metis image_set)
    ultimately show ?thesis using False
      by (auto simp: mem_log_all_def mem_log_append_def log_append_new)
  qed
qed

lemma mem_log_wf: "mem_log_ok s \<Longrightarrow> log_wf (mem_log_all s)"
  by (simp add: log_wf_def mem_log_ids) (simp add: mem_log_ok_def)

lemma mem_log_get_all:
  assumes "mem_log_ok s"
  shows "mem_log_get s i = log_find i (mem_log_all s)"
proof (cases "lg_by_id s i")
  case None
  then have "i \<notin> set (map env_id (mem_log_all s))"
    using assms unfolding mem_log_ids [OF assms] by (auto simp: mem_log_ok_def)
  then have "log_find i (mem_log_all s) = None"
    by (auto simp: log_find_def find_None_iff)
  then show ?thesis using None by (simp add: mem_log_get_def)
next
  case (Some m)
  then have "m \<in> set (mem_log_all s)" and "env_id m = i"
    using assms by (force simp: mem_log_ok_def mem_log_all_def)+
  then show ?thesis
    using Some log_find_iff [OF mem_log_wf [OF assms], of m] by (simp add: mem_log_get_def)
qed

interpretation mem_log: message_store mem_log_append mem_log_get mem_log_all
    mem_log_conversation_ids mem_log_messages_for mem_log_ok "\<lambda>_. True"
  by unfold_locales
    (simp_all add: mem_log_ok_append mem_log_wf mem_log_all_append mem_log_get_all
      mem_log_conversation_ids_def mem_log_messages_for_def)

lemma mem_log_len_all: "mem_log_len s = length (mem_log_all s)"
  by (simp add: mem_log_len_def mem_log_all_def)

lemma mem_log_is_empty_iff: "mem_log_is_empty s \<longleftrightarrow> mem_log_len s = 0"
  by (simp add: mem_log_is_empty_def mem_log_len_def)

end
