(* ===== verification/Stores.thy ===== *)
theory Stores
  imports Main Prelude Model
begin

text \<open>
  The keyed stores of the core crate (\<open>crates/mirrorlane-core/src/store.rs\<close>). All eight are a
  hash map from the key a value carries to the value; they share one contract, the locale
  \<open>keyed_store\<close>, in which the argument behind at-least-once delivery is made once: writes that
  agree on every key may be repeated and reordered freely.
\<close>

section \<open>The contract\<close>

locale keyed_store =
  fixes key :: "'v \<Rightarrow> 'k"
    and upsert :: "('k \<rightharpoonup> 'v) \<Rightarrow> 'v \<Rightarrow> ('k \<rightharpoonup> 'v)"
    and get :: "('k \<rightharpoonup> 'v) \<Rightarrow> 'k \<Rightarrow> 'v option"
  assumes get_upsert: "get (upsert s v) k = (if k = key v then Some v else get s k)"
    and get_ext: "(\<And>k. get s k = get t k) \<Longrightarrow> s = t"
    and get_apply: "get s k = s k"
begin

lemma upsert_eq: "upsert s v = s(key v \<mapsto> v)"
  by (rule get_ext) (simp add: get_upsert, simp add: get_apply)

lemma upsert_idem: "upsert (upsert s v) v = upsert s v"
  by (simp add: upsert_eq)

lemma fold_upsert: "fold (\<lambda>x s. upsert s (val x)) xs s = upsert_all (key \<circ> val) val xs s"
  by (simp add: upsert_all_def upsert_eq)

lemma fold_upsert_order_free:
  assumes "consistent_writes (key \<circ> val) val (set xs)" and "set ys = set xs"
  shows "fold (\<lambda>x s. upsert s (val x)) ys s = fold (\<lambda>x s. upsert s (val x)) xs s"
  unfolding fold_upsert by (rule upsert_all_order_free [OF assms])

lemma dom_fold_upsert: "dom (fold (\<lambda>x s. upsert s (val x)) xs s) = dom s \<union> (key \<circ> val) ` set xs"
  unfolding fold_upsert by (rule dom_upsert_all)

lemma get_fold_upsert:
  assumes "consistent_writes (key \<circ> val) val (set xs)" and "x \<in> set xs"
  shows "get (fold (\<lambda>x s. upsert s (val x)) xs s) (key (val x)) = Some (val x)"
  using upsert_all_lookup [OF assms] unfolding fold_upsert get_apply by simp

end

section \<open>The hash map behind every store\<close>

definition store_new :: "'k \<rightharpoonup> 'v" where
  "store_new = Map.empty"

definition store_len :: "('k \<rightharpoonup> 'v) \<Rightarrow> nat" where
  "store_len s = card (dom s)"

definition store_is_empty :: "('k \<rightharpoonup> 'v) \<Rightarrow> bool" where
  "store_is_empty s = (store_len s = 0)"

section \<open>The eight stores\<close>

type_synonym projection_store = "message_id \<rightharpoonup> projection"

definition projection_store_upsert :: "projection_store \<Rightarrow> projection \<Rightarrow> projection_store" where
  "projection_store_upsert s v = s(proj_message_id v \<mapsto> v)"

definition projection_store_get :: "projection_store \<Rightarrow> message_id \<Rightarrow> projection option" where
  "projection_store_get s k = s k"

type_synonym scope_store = "conversation_id \<rightharpoonup> scope"

definition scope_store_upsert :: "scope_store \<Rightarrow> scope \<Rightarrow> scope_store" where
  "scope_store_upsert s v = s(sc_conversation v \<mapsto> v)"

definition scope_store_get :: "scope_store \<Rightarrow> conversation_id \<Rightarrow> scope option" where
  "scope_store_get s k = s k"

type_synonym warmup_store = "conversation_id \<rightharpoonup> warmup_document"

definition warmup_store_upsert :: "warmup_store \<Rightarrow> warmup_document \<Rightarrow> warmup_store" where
  "warmup_store_upsert s v = s(wu_conversation v \<mapsto> v)"

definition warmup_store_get :: "warmup_store \<Rightarrow> conversation_id \<Rightarrow> warmup_document option" where
  "warmup_store_get s k = s k"

type_synonym skill_store = "topic \<rightharpoonup> topic_ownership"

definition skill_store_upsert :: "skill_store \<Rightarrow> topic_ownership \<Rightarrow> skill_store" where
  "skill_store_upsert s v = s(own_topic v \<mapsto> v)"

definition skill_store_get :: "skill_store \<Rightarrow> topic \<Rightarrow> topic_ownership option" where
  "skill_store_get s k = s k"

type_synonym routing_store = "message_id \<rightharpoonup> routing_decision"

definition routing_store_upsert :: "routing_store \<Rightarrow> routing_decision \<Rightarrow> routing_store" where
  "routing_store_upsert s v = s(dec_message_id v \<mapsto> v)"

definition routing_store_get :: "routing_store \<Rightarrow> message_id \<Rightarrow> routing_decision option" where
  "routing_store_get s k = s k"

type_synonym routing_trace_store = "message_id \<rightharpoonup> routing_trace"

definition routing_trace_store_upsert :: "routing_trace_store \<Rightarrow> routing_trace \<Rightarrow> routing_trace_store" where
  "routing_trace_store_upsert s v = s(rt_message_id v \<mapsto> v)"

definition routing_trace_store_get :: "routing_trace_store \<Rightarrow> message_id \<Rightarrow> routing_trace option" where
  "routing_trace_store_get s k = s k"

type_synonym routing_hint_store = "message_id \<rightharpoonup> routing_hint"

definition routing_hint_store_upsert :: "routing_hint_store \<Rightarrow> routing_hint \<Rightarrow> routing_hint_store" where
  "routing_hint_store_upsert s v = s(hint_message_id v \<mapsto> v)"

definition routing_hint_store_get :: "routing_hint_store \<Rightarrow> message_id \<Rightarrow> routing_hint option" where
  "routing_hint_store_get s k = s k"

type_synonym developer_store = "conversation_id \<rightharpoonup> session_developers"

definition developer_store_upsert :: "developer_store \<Rightarrow> session_developers \<Rightarrow> developer_store" where
  "developer_store_upsert s v = s(sd_conversation v \<mapsto> v)"

definition developer_store_get :: "developer_store \<Rightarrow> conversation_id \<Rightarrow> session_developers option" where
  "developer_store_get s k = s k"

section \<open>Interpretations\<close>

interpretation projection_st: keyed_store proj_message_id projection_store_upsert projection_store_get
  by unfold_locales (auto simp: projection_store_upsert_def projection_store_get_def)

interpretation scope_st: keyed_store sc_conversation scope_store_upsert scope_store_get
  by unfold_locales (auto simp: scope_store_upsert_def scope_store_get_def)

interpretation warmup_st: keyed_store wu_conversation warmup_store_upsert warmup_store_get
  by unfold_locales (auto simp: warmup_store_upsert_def warmup_store_get_def)

interpretation skill_st: keyed_store own_topic skill_store_upsert skill_store_get
  by unfold_locales (auto simp: skill_store_upsert_def skill_store_get_def)

interpretation routing_st: keyed_store dec_message_id routing_store_upsert routing_store_get
  by unfold_locales (auto simp: routing_store_upsert_def routing_store_get_def)

interpretation routing_trace_st: keyed_store rt_message_id routing_trace_store_upsert routing_trace_store_get
  by unfold_locales (auto simp: routing_trace_store_upsert_def routing_trace_store_get_def)

interpretation routing_hint_st: keyed_store hint_message_id routing_hint_store_upsert routing_hint_store_get
  by unfold_locales (auto simp: routing_hint_store_upsert_def routing_hint_store_get_def)

interpretation developer_st: keyed_store sd_conversation developer_store_upsert developer_store_get
  by unfold_locales (auto simp: developer_store_upsert_def developer_store_get_def)

lemma store_len_upsert:
  assumes "finite (dom s)"
  shows "store_len (s(k \<mapsto> v)) = (if s k = None then store_len s + 1 else store_len s)"
  using assms by (auto simp: store_len_def card_insert_if)

lemma store_is_empty_iff: "finite (dom s) \<Longrightarrow> store_is_empty s \<longleftrightarrow> s = store_new"
  by (simp add: store_is_empty_def store_len_def store_new_def)

end
