(* ===== verification/Routing.thy ===== *)
theory Routing
  imports Main Prelude F64 Model
begin

text \<open>
  Routing: the consumer registry of the core crate (\<open>routing.rs\<close>), and the rule router and the
  recording consumer of the provider crate (\<open>routing.rs\<close>). A consumer acts on a world of its
  own and reports an error or nothing.
\<close>

section \<open>Consumers and their registry\<close>

type_synonym 'w consumer =
  "'w \<Rightarrow> routing_decision \<Rightarrow> projection \<Rightarrow> (consumer_error + unit) \<times> 'w"

type_synonym 'w consumer_registry = "consumer_kind \<rightharpoonup> 'w consumer"

definition registry_new :: "'w consumer_registry" where
  "registry_new = Map.empty"

definition registry_register ::
  "'w consumer_registry \<Rightarrow> consumer_kind \<Rightarrow> 'w consumer \<Rightarrow> 'w consumer_registry" where
  "registry_register r kind consumer = r(kind \<mapsto> consumer)"

definition registry_dispatch ::
  "'w consumer_registry \<Rightarrow> 'w \<Rightarrow> routing_decision \<Rightarrow> projection \<Rightarrow> (consumer_error + unit) \<times> 'w" where
  "registry_dispatch r w decision projection =
     (case r (dec_target decision) of
        Some consumer \<Rightarrow>
          (case consumer w decision projection of
             (Inl e, w') \<Rightarrow> (Inl e, w')
           | (Inr (), w') \<Rightarrow> (Inr (), w'))
      | None \<Rightarrow> (Inr (), w))"

text \<open>
  Delivery is at least once, so a consumer must be idempotent: a decision it has accepted is
  accepted again, and changes nothing.
\<close>

locale idempotent_consumer =
  fixes consume :: "'w consumer"
    and ok :: "'w \<Rightarrow> bool"
  assumes ok_consume: "ok w \<Longrightarrow> ok (snd (consume w d p))"
    and again: "ok w \<Longrightarrow> consume w d p = (Inr (), w') \<Longrightarrow> consume w' d p = (Inr (), w')"
begin

lemma redelivery:
  assumes "ok w" and "consume w d p = (Inr (), w')"
  shows "((\<lambda>v. snd (consume v d p)) ^^ n) w' = w'"
  using again [OF assms] by (induction n) simp_all

lemma dispatch_redelivery:
  assumes "ok w" and "r (dec_target d) = Some consume"
    and "registry_dispatch r w d p = (Inr (), w')"
  shows "registry_dispatch r w' d p = (Inr (), w')"
  using assms again [OF assms(1), of d p w']
  by (auto simp: registry_dispatch_def split: prod.splits sum.splits unit.splits)

end

lemma dispatch_unregistered:
  "r (dec_target d) = None \<Longrightarrow> registry_dispatch r w d p = (Inr (), w)"
  by (simp add: registry_dispatch_def)

lemma dispatch_registered:
  "r (dec_target d) = Some c \<Longrightarrow> registry_dispatch r w d p = c w d p"
  by (auto simp: registry_dispatch_def split: prod.splits sum.splits unit.splits)

lemma dispatch_register:
  "registry_dispatch (registry_register r kind c) w d p =
    (if dec_target d = kind then c w d p else registry_dispatch r w d p)"
  by (cases "dec_target d = kind")
    (simp_all add: registry_register_def dispatch_registered, simp add: registry_dispatch_def)

section \<open>Two decimals\<close>

text \<open>
  \<open>{:.2}\<close> prints the exact value of the number rounded to two decimals, ties to even.
\<close>

definition show_hundredths :: "nat \<Rightarrow> string" where
  "show_hundredths h =
     show_nat (h div 100) @ ''.'' @ show_nat (h div 10 mod 10) @ show_nat (h mod 10)"

fun fmt2 :: "f64 \<Rightarrow> string" where
  "fmt2 FNan = ''NaN''"
| "fmt2 (FInf s) = (if s then ''-inf'' else ''inf'')"
| "fmt2 (FFin s m) = (if s then ''-'' else []) @ show_hundredths (nat (round_even (m * 100)))"

section \<open>The rule router\<close>

record rule_router =
  rr_rules :: "routing_rule list"
  rr_escalation_threshold :: f64
  rr_default_target :: consumer_kind

definition default_escalation_threshold :: f64 where
  "default_escalation_threshold = f64_lit (6 / 10)"

definition default_rules :: "routing_rule list" where
  "default_rules =
     [\<lparr>rule_intent = Question, rule_target = Human\<rparr>,
      \<lparr>rule_intent = Decision, rule_target = Agent\<rparr>,
      \<lparr>rule_intent = Proposal, rule_target = ConsumerGitHub\<rparr>,
      \<lparr>rule_intent = Issue, rule_target = ConsumerGitHub\<rparr>,
      \<lparr>rule_intent = Task, rule_target = WorklaneJob\<rparr>,
      \<lparr>rule_intent = Social, rule_target = Human\<rparr>]"

definition router_with_rules :: "routing_rule list \<Rightarrow> f64 \<Rightarrow> consumer_kind \<Rightarrow> rule_router" where
  "router_with_rules rules threshold target =
     \<lparr>rr_rules = rules, rr_escalation_threshold = threshold, rr_default_target = target\<rparr>"

definition router_new :: rule_router where
  "router_new = router_with_rules default_rules default_escalation_threshold Human"

definition target_for :: "rule_router \<Rightarrow> intent \<Rightarrow> consumer_kind" where
  "target_for r i =
     (case find (\<lambda>rule. rule_intent rule = i) (rr_rules r) of
        Some rule \<Rightarrow> rule_target rule
      | None \<Rightarrow> rr_default_target r)"

fun intent_label :: "intent \<Rightarrow> string" where
  "intent_label Question = ''question''"
| "intent_label Decision = ''decision''"
| "intent_label Proposal = ''proposal''"
| "intent_label Task = ''task''"
| "intent_label Issue = ''issue''"
| "intent_label Social = ''social''"

fun target_label :: "consumer_kind \<Rightarrow> string" where
  "target_label Human = ''human''"
| "target_label Agent = ''agent''"
| "target_label WorklaneJob = ''worklane-job''"
| "target_label ConsumerGitHub = ''github''"

definition router_route :: "rule_router \<Rightarrow> projection \<Rightarrow> routing_decision \<times> routing_trace" where
  "router_route r p =
     (let conf = confidence_get (proj_confidence p);
          threshold = rr_escalation_threshold r;
          steps = [\<lparr>ev_rule_name = ''confidence_threshold'',
                    ev_matched = f64_lt conf threshold,
                    ev_resulting_target = (if f64_lt conf threshold then Some Human else None)\<rparr>] in
      if f64_lt conf threshold then
        (\<lparr>dec_message_id = proj_message_id p, dec_target = Human,
          dec_reason = ''confidence '' @ fmt2 conf @ '' below '' @ fmt2 threshold
            @ '' threshold; escalated to human'',
          dec_escalated = True\<rparr>,
         \<lparr>rt_message_id = proj_message_id p, rt_steps = steps\<rparr>)
      else
        let target = target_for r (proj_intent p) in
        (\<lparr>dec_message_id = proj_message_id p, dec_target = target,
          dec_reason = ''intent='' @ intent_label (proj_intent p) @ '' routed to ''
            @ target_label target,
          dec_escalated = False\<rparr>,
         \<lparr>rt_message_id = proj_message_id p,
          rt_steps = steps @ [\<lparr>ev_rule_name = ''intent_routing'', ev_matched = True,
                               ev_resulting_target = Some target\<rparr>]\<rparr>))"

lemma route_ids:
  "dec_message_id (fst (router_route r p)) = proj_message_id p"
  "rt_message_id (snd (router_route r p)) = proj_message_id p"
  by (simp_all add: router_route_def Let_def)

lemma route_escalated:
  "dec_escalated (fst (router_route r p)) \<longleftrightarrow>
    f64_lt (confidence_get (proj_confidence p)) (rr_escalation_threshold r)"
  by (simp add: router_route_def Let_def)

lemma route_target:
  "dec_target (fst (router_route r p)) =
    (if dec_escalated (fst (router_route r p)) then Human else target_for r (proj_intent p))"
  by (simp add: router_route_def Let_def)

lemma find_first:
  assumes "rules = pre @ rule # post" and "P rule" and "\<forall>r\<in>set pre. \<not> P r"
  shows "find P rules = Some rule"
  using assms(3) unfolding assms(1) by (induction pre) (auto simp: assms(2))

lemma target_for_first:
  assumes "rr_rules r = pre @ rule # post" and "rule_intent rule = i"
    and "\<forall>x\<in>set pre. rule_intent x \<noteq> i"
  shows "target_for r i = rule_target rule"
  using find_first [of "rr_rules r" pre rule post "\<lambda>x. rule_intent x = i"] assms
  by (simp add: target_for_def)

lemma target_for_default:
  "\<forall>x\<in>set (rr_rules r). rule_intent x \<noteq> i \<Longrightarrow> target_for r i = rr_default_target r"
  using find_None_iff [of "\<lambda>rule. rule_intent rule = i" "rr_rules r"]
  by (simp add: target_for_def)

text \<open>The trace explains the decision: its last step that matched names the target.\<close>

definition trace_target :: "routing_trace \<Rightarrow> consumer_kind option" where
  "trace_target t =
     (case filter ev_matched (rt_steps t) of [] \<Rightarrow> None | xs \<Rightarrow> ev_resulting_target (last xs))"

lemma route_trace_explains:
  "trace_target (snd (router_route r p)) = Some (dec_target (fst (router_route r p)))"
  by (simp add: router_route_def Let_def trace_target_def)

lemma target_for_new:
  "target_for router_new i =
    (case i of Question \<Rightarrow> Human | Decision \<Rightarrow> Agent | Proposal \<Rightarrow> ConsumerGitHub
     | Issue \<Rightarrow> ConsumerGitHub | Task \<Rightarrow> WorklaneJob | Social \<Rightarrow> Human)"
  by (cases i) (simp_all add: target_for_def router_new_def router_with_rules_def default_rules_def)

section \<open>The recording consumer\<close>

type_synonym recording_consumer = "consumer_receipt set"

definition recorder_new :: recording_consumer where
  "recorder_new = {}"

definition recorder_len :: "recording_consumer \<Rightarrow> nat" where
  "recorder_len c = card c"

definition recorder_is_empty :: "recording_consumer \<Rightarrow> bool" where
  "recorder_is_empty c = (recorder_len c = 0)"

definition recorder_received :: "recording_consumer \<Rightarrow> consumer_kind \<Rightarrow> message_id \<Rightarrow> bool" where
  "recorder_received c kind i = (\<lparr>rcpt_kind = kind, rcpt_message_id = i\<rparr> \<in> c)"

definition recorder_consume :: "recording_consumer consumer" where
  "recorder_consume c decision projection =
     (Inr (), insert \<lparr>rcpt_kind = dec_target decision, rcpt_message_id = dec_message_id decision\<rparr> c)"

interpretation recorder: idempotent_consumer recorder_consume finite
  by unfold_locales (auto simp: recorder_consume_def)

lemma recorder_received_iff:
  "recorder_received (snd (recorder_consume c d p)) kind i \<longleftrightarrow>
    (kind = dec_target d \<and> i = dec_message_id d) \<or> recorder_received c kind i"
  by (auto simp: recorder_received_def recorder_consume_def)

lemma recorder_len_consume:
  assumes "finite c"
  shows "recorder_len (snd (recorder_consume c d p)) =
    (if recorder_received c (dec_target d) (dec_message_id d) then recorder_len c
     else recorder_len c + 1)"
  using assms by (simp add: recorder_len_def recorder_consume_def recorder_received_def card_insert_if)

end
