(* ===== verification/Mock.thy ===== *)
theory Mock
  imports Main Prelude F64 Runtime Model
begin

text \<open>
  The deterministic keyword projector (\<open>crates/mirrorlane-provider/src/mock.rs\<close>), and the
  caching projector (\<open>caching.rs\<close>), which is the runtime's decorator over a projector. The
  Unicode lower-casing of the standard library is the argument \<open>lc\<close>.
\<close>

section \<open>Keywords\<close>

definition topic_keywords :: "string list" where
  "topic_keywords =
     [''rust'', ''backend'', ''sdk'', ''infra'', ''ai'', ''auth'', ''oauth'', ''ci'']"

definition entity_keywords :: "string list" where
  "entity_keywords =
     [''postgres'', ''sqlite'', ''refresh-token'', ''authservice'', ''opentelemetry'']"

definition detect_intent :: "string \<Rightarrow> intent" where
  "detect_intent body =
     (if str_contains body ''?'' then Question
      else if str_contains body ''propose'' \<or> str_contains body ''proposal'' \<or>
        str_contains body ''suggest'' then Proposal
      else if str_contains body ''decided'' \<or> str_contains body ''let's'' \<or>
        str_contains body ''we will'' then Decision
      else if str_contains body ''bug'' \<or> str_contains body ''error'' \<or>
        str_contains body ''broken'' then Issue
      else if str_contains body ''todo'' \<or> str_contains body ''task'' \<or>
        str_contains body ''need to'' then Task
      else Social)"

definition signal_confidence :: "nat \<Rightarrow> confidence" where
  "signal_confidence signal =
     confidence_new (f64_add (f64_lit (5 / 10)) (f64_mul (f64_lit (1 / 10)) (f64_of_nat signal)))"

section \<open>The projector\<close>

definition mock_run :: "(string \<Rightarrow> string) \<Rightarrow> message_envelope \<Rightarrow> projection" where
  "mock_run lc message =
     (let body = lc (env_body message);
          topics = map Topic (filter (str_contains body) topic_keywords);
          entities = map Entity (filter (str_contains body) entity_keywords);
          signal = length topics + length entities in
      \<lparr>proj_message_id = env_id message, proj_intent = detect_intent body,
       proj_topics = topics, proj_entities = entities,
       proj_confidence = signal_confidence signal\<rparr>)"

definition mock_step :: "(string \<Rightarrow> string) \<Rightarrow> ('s, message_envelope, projection) step" where
  "mock_step lc =
     \<lparr>st_kind = ''mirrorlane.projection.mock'', st_version = StepVersion ''mock:v1'',
      st_run = (\<lambda>s message. (Some (mock_run lc message), s))\<rparr>"

section \<open>The caching projector\<close>

definition caching_projector ::
  "('c \<Rightarrow> string \<Rightarrow> step_version \<Rightarrow> string \<Rightarrow> projection option) \<Rightarrow>
   ('c \<Rightarrow> string \<Rightarrow> step_version \<Rightarrow> string \<Rightarrow> projection \<Rightarrow> 'c) \<Rightarrow>
   (message_envelope \<Rightarrow> string) \<Rightarrow> ('s, message_envelope, projection) step \<Rightarrow> string \<Rightarrow>
   ('c \<times> 's, message_envelope, projection) step" where
  "caching_projector get put cache_key inner version =
     (let c = cached_step get put cache_key (dyn_step inner) (StepVersion version) in
      \<lparr>st_kind = ''mirrorlane.projection.cached'', st_version = st_version c, st_run = st_run c\<rparr>)"

lemma caching_projector_run [simp]:
  "st_run (caching_projector get put cache_key inner version) =
    cached_run get put cache_key inner (StepVersion version)"
  by (simp add: caching_projector_def Let_def)

section \<open>Correctness\<close>

definition mock_signal :: "(string \<Rightarrow> string) \<Rightarrow> message_envelope \<Rightarrow> nat" where
  "mock_signal lc message =
     length (filter (str_contains (lc (env_body message))) (topic_keywords @ entity_keywords))"

lemma mock_run_fields [simp]:
  "proj_message_id (mock_run lc m) = env_id m"
  "proj_intent (mock_run lc m) = detect_intent (lc (env_body m))"
  "proj_topics (mock_run lc m) = map Topic (filter (str_contains (lc (env_body m))) topic_keywords)"
  "proj_entities (mock_run lc m) = map Entity (filter (str_contains (lc (env_body m))) entity_keywords)"
  "proj_confidence (mock_run lc m) = signal_confidence (mock_signal lc m)"
  by (simp_all add: mock_run_def mock_signal_def Let_def)

lemma mock_signal_le: "mock_signal lc m \<le> 13"
proof -
  have "mock_signal lc m \<le> length (topic_keywords @ entity_keywords)"
    unfolding mock_signal_def by (rule length_filter_le)
  then show ?thesis by (simp add: topic_keywords_def entity_keywords_def)
qed

lemma mock_signal_pos:
  "0 < mock_signal lc m \<longleftrightarrow>
    proj_topics (mock_run lc m) \<noteq> [] \<or> proj_entities (mock_run lc m) \<noteq> []"
  by (simp add: mock_signal_def)

text \<open>
  The score grows with the signal: it starts at one half, and one keyword already reaches the
  default escalation threshold, because \<open>0.5 + 0.1\<close> rounds to the literal \<open>0.6\<close>.
\<close>

definition tenth :: rat where "tenth = 3602879701896397 / 36028797018963968"
definition six_tenths :: rat where "six_tenths = 5404319552844595 / 9007199254740992"

lemma lit_tenth: "f64_lit (1 / 10) = FFin False tenth"
  by code_simp

lemma lit_half: "f64_lit (1 / 2) = FFin False (1 / 2)"
  by code_simp

lemma lit_six_tenths: "f64_lit (6 / 10) = FFin False six_tenths"
  by code_simp

lemma half_plus_tenth: "round_mag (1 / 2 + tenth) = six_tenths"
  by code_simp

lemma tenth_representable: "round_mag tenth = tenth"
  by code_simp

lemma tenth_bounds: "0 < tenth" "tenth \<le> 1 / 8" "0 < six_tenths" "six_tenths \<le> 1" "1 / 2 < six_tenths"
  by (simp_all add: tenth_def six_tenths_def)

lemma half_representable: "round_mag (1 / 2) = 1 / 2"
  by code_simp

lemma signal_score:
  assumes "n \<le> 13"
  defines "x \<equiv> f64_add (f64_lit (5 / 10)) (f64_mul (f64_lit (1 / 10)) (f64_of_nat n))"
  shows "f64_within 4 x"
    and "f64_rat x = round_mag (1 / 2 + round_mag (tenth * of_nat n))"
proof -
  have tenth: "f64_within (1 / 8) (f64_lit (1 / 10))"
    unfolding lit_tenth f64_within_def representable_def
    using tenth_bounds by (intro exI conjI) (rule refl, simp_all add: tenth_representable)
  have half: "f64_within (1 / 2) (f64_lit (1 / 2))"
    unfolding lit_half f64_within_def representable_def
    by (intro exI conjI) (rule refl, simp_all add: half_representable)
  have n: "f64_within 16 (f64_of_nat n)" "f64_rat (f64_of_nat n) = of_nat n"
    using f64_of_nat_within [of n] assms by (auto intro: f64_within_mono simp: signed_def)
  have rep: "representable 2" "representable 4"
    using representable_of_nat [of 2] representable_of_nat [of 4] by simp_all
  note m = f64_mul_bounded [OF tenth n(1), of 2]
  have mul: "f64_within 2 (f64_mul (f64_lit (1 / 10)) (f64_of_nat n))"
    "f64_rat (f64_mul (f64_lit (1 / 10)) (f64_of_nat n)) =
      round_mag (tenth * of_nat n)"
    using m rep n(2) by (simp_all add: lit_tenth signed_def)
  have five: "(5 / 10 :: rat) = 1 / 2" by simp
  note a = f64_add_bounded [OF half mul(1), of 4]
  show "f64_within 4 x" using a(1) rep unfolding x_def five by simp
  show "f64_rat x = round_mag (1 / 2 + round_mag (tenth * of_nat n))"
    using a(2) rep unfolding x_def five mul(2) by (simp add: lit_half signed_def)
qed

text \<open>A score is a number between zero and four before the clamp, so the clamp is a minimum.\<close>

lemma clamp_number:
  assumes "f64_within b x" and "b < 2 ^ 1024"
  shows "f64_unit (f64_clamp x f64_zero f64_one)"
    and "f64_rat (f64_clamp x f64_zero f64_one) = min (f64_rat x) 1"
proof -
  obtain s where s: "x = FFin s (f64_rat x)" "0 \<le> f64_rat x" "f64_rat x \<le> b" "representable (f64_rat x)"
    by (rule f64_withinE [OF assms(1)])
  then have "f64_wf x" using assms(2) by (metis f64_wf.simps(1) order_le_less_trans)
  then show "f64_unit (f64_clamp x f64_zero f64_one)"
    by (rule f64_clamp_unit) (rule f64_within_not_nan [OF assms(1)])
  have one: "f64_rat f64_one = 1" by (simp add: f64_one_def signed_def)
  have zero: "f64_rat f64_zero = 0" by (simp add: f64_zero_def signed_def)
  have "f64_lt x f64_zero \<longleftrightarrow> False"
    using f64_lt_within [OF assms(1) f64_unit_zero_one(1)] s by (simp add: zero)
  moreover have "f64_lt f64_one x \<longleftrightarrow> 1 < f64_rat x"
    using f64_lt_within [OF f64_unit_zero_one(2) assms(1)] by (simp add: one)
  ultimately show "f64_rat (f64_clamp x f64_zero f64_one) = min (f64_rat x) 1"
    by (simp add: f64_clamp_def one min_def)
qed

lemma signal_confidence_score:
  assumes "n \<le> 13"
  shows "confidence_ok (signal_confidence n)"
    and "f64_rat (confidence_get (signal_confidence n)) =
      min (round_mag (1 / 2 + round_mag (tenth * of_nat n))) 1"
  using clamp_number [OF signal_score(1) [OF assms]] signal_score(2) [OF assms]
  by (simp_all add: confidence_ok_def confidence_get_def signal_confidence_def confidence_new_def)

lemma signal_confidence_mono:
  assumes "m \<le> n" and "n \<le> 13"
  shows "f64_rat (confidence_get (signal_confidence m)) \<le> f64_rat (confidence_get (signal_confidence n))"
proof -
  have "(of_nat m :: rat) \<le> of_nat n" using assms(1) by simp
  then have "round_mag (tenth * of_nat m) \<le>
      round_mag (tenth * of_nat n)"
    using tenth_bounds by (intro round_mag_mono mult_left_mono) simp_all
  then have "round_mag (1 / 2 + round_mag (tenth * of_nat m)) \<le>
      round_mag (1 / 2 + round_mag (tenth * of_nat n))"
    by (rule round_mag_mono [OF add_left_mono])
  then show ?thesis using assms by (simp add: signal_confidence_score(2) min.coboundedI1)
qed

lemma signal_confidence_0: "f64_rat (confidence_get (signal_confidence 0)) = 1 / 2"
  using half_representable by (simp add: signal_confidence_score(2) round_mag_def [of 0])

lemma signal_confidence_1:
  "f64_rat (confidence_get (signal_confidence 1)) = six_tenths"
proof -
  have "round_mag (tenth * of_nat 1) = tenth"
    using tenth_representable by simp
  then show ?thesis using half_plus_tenth signal_confidence_score(2) [of 1] tenth_bounds by simp
qed

lemma mock_confidence_ok: "confidence_ok (proj_confidence (mock_run lc m))"
  by (simp add: signal_confidence_score mock_signal_le)

lemma mock_confidence_ge_half:
  "1 / 2 \<le> f64_rat (confidence_get (proj_confidence (mock_run lc m)))"
  using signal_confidence_mono [of 0 "mock_signal lc m"] mock_signal_le [of lc m]
  by (simp add: signal_confidence_0)

lemma mock_below_threshold:
  "f64_lt (confidence_get (proj_confidence (mock_run lc m))) (f64_lit (6 / 10)) \<longleftrightarrow>
    mock_signal lc m = 0"
proof -
  let ?n = "mock_signal lc m" and ?t = "six_tenths"
  have "representable ?t"
    using representable_round_mag [of "1 / 2 + tenth"] by (simp only: half_plus_tenth)
  then have "f64_within 1 (FFin False ?t)"
    using tenth_bounds by (simp add: f64_within_def ex_bool_eq)
  then have t: "f64_within 1 (f64_lit (6 / 10))" "f64_rat (f64_lit (6 / 10)) = ?t"
    unfolding lit_six_tenths by (simp_all add: signed_def)
  have "f64_unit (confidence_get (signal_confidence ?n))"
    using signal_confidence_score(1) [OF mock_signal_le] by (simp add: confidence_ok_def)
  from f64_lt_within [OF this t(1)]
  have lt: "f64_lt (confidence_get (signal_confidence ?n)) (f64_lit (6 / 10)) \<longleftrightarrow>
      f64_rat (confidence_get (signal_confidence ?n)) < ?t"
    by (simp only: t(2))
  show ?thesis
  proof (cases "?n = 0")
    case True
    then show ?thesis using lt signal_confidence_0 tenth_bounds by simp
  next
    case False
    then have "?t \<le> f64_rat (confidence_get (signal_confidence ?n))"
      using signal_confidence_mono [of 1 ?n] mock_signal_le [of lc m] signal_confidence_1 by simp
    then show ?thesis using False lt by simp
  qed
qed

lemma mock_run_all:
  "run_all (st_run (mock_step lc)) s ms = (map (\<lambda>m. Some (mock_run lc m)) ms, s)"
  by (induction ms) (auto simp: mock_step_def)

text \<open>Only the body, lower-cased, and the id reach the projection.\<close>

lemma mock_run_cong:
  "env_id m = env_id n \<Longrightarrow> lc (env_body m) = lc (env_body n) \<Longrightarrow> mock_run lc m = mock_run lc n"
  by (simp add: mock_run_def)

end
