(* ===== verification/ScopeWarmup.thy ===== *)
theory ScopeWarmup
  imports Main Prelude F64 Model
begin

text \<open>
  The catalog-based scope projector and the warm-up builder of the provider crate
  (\<open>scope.rs\<close>, \<open>warmup.rs\<close>). A \<open>BTreeSet\<close> of components is its sorted list. The Unicode
  lower-casing of the standard library is the argument \<open>lc\<close>.
\<close>

section \<open>The scope projector\<close>

definition catalog :: "string list" where
  "catalog =
     [''auth-sdk'', ''oauth2'', ''token-refresh'', ''web-ui'', ''analytics'', ''billing'']"

definition component_for :: "(string \<Rightarrow> string) \<Rightarrow> string \<Rightarrow> string option" where
  "component_for lc keyword =
     (let k = lc keyword in
      if k = ''auth'' \<or> k = ''sdk'' then Some ''auth-sdk''
      else if k = ''oauth'' \<or> k = ''oauth2'' then Some ''oauth2''
      else if k = ''refresh-token'' then Some ''token-refresh''
      else if k = ''web'' \<or> k = ''ui'' \<or> k = ''web-ui'' then Some ''web-ui''
      else if k = ''analytics'' then Some ''analytics''
      else if k = ''billing'' then Some ''billing''
      else None)"

definition keywords_of :: "projection \<Rightarrow> string list" where
  "keywords_of p = map topic_str (proj_topics p) @ map entity_str (proj_entities p)"

fun load_keywords :: "(string \<Rightarrow> string) \<Rightarrow> string list \<Rightarrow> component list \<Rightarrow> component list" where
  "load_keywords lc [] loaded = loaded"
| "load_keywords lc (k # ks) loaded =
     (case component_for lc k of
        Some c \<Rightarrow> load_keywords lc ks (insort_insert (Component c) loaded)
      | None \<Rightarrow> load_keywords lc ks loaded)"

fun scope_loop ::
  "(string \<Rightarrow> string) \<Rightarrow> projection list \<Rightarrow> component list \<Rightarrow> f64 \<Rightarrow> component list \<times> f64" where
  "scope_loop lc [] loaded csum = (loaded, csum)"
| "scope_loop lc (p # ps) loaded csum =
     scope_loop lc ps (load_keywords lc (keywords_of p) loaded)
       (f64_add csum (confidence_get (proj_confidence p)))"

definition scope_project :: "(string \<Rightarrow> string) \<Rightarrow> conversation_id \<Rightarrow> projection list \<Rightarrow> scope" where
  "scope_project lc conversation projections =
     (let (loaded, csum) = scope_loop lc projections [] f64_zero;
          ignore = filter (\<lambda>c. c \<notin> set loaded) (map Component catalog);
          confidence =
            (if projections = [] then confidence_new f64_zero
             else confidence_new (f64_div csum (f64_of_nat (length projections))));
          reason =
            (if loaded = [] then ''No known components detected for this session.''
             else ''Session focuses on '' @ join '', '' (map component_str loaded) @ ''.'') in
      \<lparr>sc_conversation = conversation, sc_load = loaded, sc_ignore = ignore,
       sc_reason = reason, sc_confidence = confidence\<rparr>)"

text \<open>The components the projections name.\<close>

definition named_components :: "(string \<Rightarrow> string) \<Rightarrow> projection list \<Rightarrow> component set" where
  "named_components lc ps =
     {Component c | c p k. p \<in> set ps \<and> k \<in> set (keywords_of p) \<and> component_for lc k = Some c}"

lemma component_for_catalog: "component_for lc k = Some c \<Longrightarrow> c \<in> set catalog"
  by (auto simp: component_for_def catalog_def Let_def split: if_splits)

lemma named_components_Nil [simp]: "named_components lc [] = {}"
  by (simp add: named_components_def)

lemma named_components_Cons:
  "named_components lc (p # ps) =
    {Component c | c k. k \<in> set (keywords_of p) \<and> component_for lc k = Some c} \<union> named_components lc ps"
  by (auto simp: named_components_def)

lemma named_components_catalog: "named_components lc ps \<subseteq> Component ` set catalog"
  by (auto simp: named_components_def dest: component_for_catalog)

lemma set_load_keywords:
  "set (load_keywords lc ks loaded) =
    set loaded \<union> {Component c | c k. k \<in> set ks \<and> component_for lc k = Some c}"
  by (induction ks arbitrary: loaded) (auto simp: set_insort_insert split: option.split)

lemma sorted_load_keywords:
  "sorted loaded \<and> distinct loaded \<Longrightarrow>
    sorted (load_keywords lc ks loaded) \<and> distinct (load_keywords lc ks loaded)"
  by (induction ks arbitrary: loaded)
    (auto simp: sorted_insort_insert distinct_insort_insert split: option.split)

lemma scope_loop_loaded:
  "set (fst (scope_loop lc ps loaded csum)) = set loaded \<union> named_components lc ps"
  "sorted loaded \<and> distinct loaded \<Longrightarrow>
    sorted (fst (scope_loop lc ps loaded csum)) \<and> distinct (fst (scope_loop lc ps loaded csum))"
  by (induction ps arbitrary: loaded csum)
    (auto simp: set_load_keywords named_components_Cons sorted_load_keywords)

lemma scope_fields [simp]:
  "sc_conversation (scope_project lc c ps) = c"
  "sc_load (scope_project lc c ps) = fst (scope_loop lc ps [] f64_zero)"
  "sc_ignore (scope_project lc c ps) =
    filter (\<lambda>x. x \<notin> set (sc_load (scope_project lc c ps))) (map Component catalog)"
  by (simp_all add: scope_project_def Let_def split: prod.split)

lemma scope_load_set: "set (sc_load (scope_project lc c ps)) = named_components lc ps"
  by (simp add: scope_loop_loaded)

lemma scope_load_sorted:
  "sorted (sc_load (scope_project lc c ps)) \<and> distinct (sc_load (scope_project lc c ps))"
  using scope_loop_loaded(2) [of "[]"] by simp

lemma scope_ignore_set:
  "set (sc_ignore (scope_project lc c ps)) = Component ` set catalog - named_components lc ps"
  by (auto simp: scope_loop_loaded)

text \<open>The sum of confidences never exceeds the number of projections, whatever the rounding.\<close>

lemma scope_loop_total:
  assumes "\<forall>p\<in>set ps. confidence_ok (proj_confidence p)"
    and "f64_within (of_nat n) csum" and "n + length ps \<le> 2 ^ 53"
  shows "f64_within (of_nat (n + length ps)) (snd (scope_loop lc ps loaded csum))"
  using assms
proof (induction ps arbitrary: n loaded csum)
  case (Cons p ps)
  have unit: "f64_unit (confidence_get (proj_confidence p))"
    using Cons.prems by (simp add: confidence_ok_def)
  have n: "Suc n \<le> 2 ^ 53" using Cons.prems(3) by simp
  have "(of_nat (Suc n) :: rat) \<le> of_nat (2 ^ 53)" using n by (simp only: of_nat_le_iff)
  then have "(of_nat (Suc n) :: rat) < 2 ^ 1024" by (rule order_le_less_trans) simp
  then have "f64_within (of_nat (Suc n)) (f64_add csum (confidence_get (proj_confidence p)))"
    by (intro f64_add_bounded(1) [OF Cons.prems(2) unit] representable_of_nat n) simp_all
  from Cons.IH [OF _ this] show ?case using Cons.prems by simp
qed simp

lemma scope_confidence_unit:
  assumes "\<forall>p\<in>set ps. confidence_ok (proj_confidence p)" and "length ps \<le> 2 ^ 53"
  shows "confidence_ok (sc_confidence (scope_project lc c ps))"
proof (cases "ps = []")
  case True
  then show ?thesis
    by (simp add: scope_project_def confidence_ok_def confidence_new_id)
next
  case False
  let ?csum = "snd (scope_loop lc ps [] f64_zero)" and ?n = "f64_of_nat (length ps)"
  have "f64_within (of_nat 0) f64_zero" by simp
  from scope_loop_total [OF assms(1) this] assms(2)
  have t: "f64_within (of_nat (length ps)) ?csum" by simp
  have n: "f64_within (of_nat (length ps)) ?n" "f64_rat ?n = of_nat (length ps)"
    using f64_of_nat_within [OF assms(2)] by (simp_all add: signed_def)
  have "f64_rat ?csum \<le> of_nat (length ps)" using f64_withinE [OF t] by metis
  then have "f64_unit (f64_div ?csum ?n)"
    using False n by (intro f64_div_unit [OF t n(1)]) simp_all
  moreover have "sc_confidence (scope_project lc c ps) = confidence_new (f64_div ?csum ?n)"
    using False by (simp add: scope_project_def Let_def split: prod.split)
  ultimately show ?thesis by (simp add: confidence_ok_def confidence_new_id)
qed

section \<open>The warm-up builder\<close>

fun warmup_loop ::
  "projection list \<Rightarrow> message_id list \<Rightarrow> message_id list \<Rightarrow> message_id list \<Rightarrow>
   message_id list \<times> message_id list \<times> message_id list" where
  "warmup_loop [] decisions questions tasks = (decisions, questions, tasks)"
| "warmup_loop (p # ps) decisions questions tasks =
     (case proj_intent p of
        Decision \<Rightarrow> warmup_loop ps (decisions @ [proj_message_id p]) questions tasks
      | Question \<Rightarrow> warmup_loop ps decisions (questions @ [proj_message_id p]) tasks
      | Task \<Rightarrow> warmup_loop ps decisions questions (tasks @ [proj_message_id p])
      | Proposal \<Rightarrow> warmup_loop ps decisions questions tasks
      | Issue \<Rightarrow> warmup_loop ps decisions questions tasks
      | Social \<Rightarrow> warmup_loop ps decisions questions tasks)"

definition warmup_render ::
  "conversation_id \<Rightarrow> scope option \<Rightarrow> component list \<Rightarrow> message_id list \<Rightarrow> message_id list \<Rightarrow>
   message_id list \<Rightarrow> string" where
  "warmup_render conversation scope focus decisions questions tasks =
     (let focus_line =
            (if focus = [] then ''Focus: (no scope yet)''
             else ''Focus: '' @ join '', '' (map component_str focus));
          why = (case scope of Some s \<Rightarrow> CHR 0x0A # ''Why: '' @ sc_reason s | None \<Rightarrow> []) in
      ''You are joining '' @ conversation_id_str conversation @ ''.'' @ [CHR 0x0A]
      @ focus_line @ why @ [CHR 0x0A]
      @ ''Recent decisions: '' @ show_nat (length decisions) @ [CHR 0x0A]
      @ ''Open questions: '' @ show_nat (length questions) @ [CHR 0x0A]
      @ ''Tasks: '' @ show_nat (length tasks))"

definition warmup_build :: "conversation_id \<Rightarrow> scope option \<Rightarrow> projection list \<Rightarrow> warmup_document" where
  "warmup_build conversation scope projections =
     (let (decisions, questions, tasks) = warmup_loop projections [] [] [];
          focus = (case scope of Some s \<Rightarrow> sc_load s | None \<Rightarrow> []) in
      \<lparr>wu_conversation = conversation, wu_focus = focus, wu_decisions = decisions,
       wu_open_questions = questions, wu_tasks = tasks,
       wu_summary = warmup_render conversation scope focus decisions questions tasks\<rparr>)"

definition ids_with :: "intent \<Rightarrow> projection list \<Rightarrow> message_id list" where
  "ids_with i ps = map proj_message_id (filter (\<lambda>p. proj_intent p = i) ps)"

lemma warmup_loop_eq:
  "warmup_loop ps ds qs ts =
    (ds @ ids_with Decision ps, qs @ ids_with Question ps, ts @ ids_with Task ps)"
  by (induction ps arbitrary: ds qs ts) (auto simp: ids_with_def split: intent.split)

lemma warmup_fields [simp]:
  "wu_conversation (warmup_build c s ps) = c"
  "wu_focus (warmup_build c s ps) = (case s of Some x \<Rightarrow> sc_load x | None \<Rightarrow> [])"
  "wu_decisions (warmup_build c s ps) = ids_with Decision ps"
  "wu_open_questions (warmup_build c s ps) = ids_with Question ps"
  "wu_tasks (warmup_build c s ps) = ids_with Task ps"
  by (simp_all add: warmup_build_def warmup_loop_eq Let_def)

text \<open>The summary counts what the lists hold.\<close>

lemma warmup_summary:
  "wu_summary (warmup_build c s ps) =
    warmup_render c s (wu_focus (warmup_build c s ps)) (ids_with Decision ps)
      (ids_with Question ps) (ids_with Task ps)"
  by (simp add: warmup_build_def warmup_loop_eq Let_def)

lemma ids_with_disjoint:
  assumes "distinct (map proj_message_id ps)" and "i \<noteq> j"
  shows "set (ids_with i ps) \<inter> set (ids_with j ps) = {}"
proof -
  have "inj_on proj_message_id (set ps)" using assms(1) by (simp add: distinct_map)
  then show ?thesis using assms(2) by (auto simp: ids_with_def inj_on_def)
qed

end
