(* ===== verification/Skill.thy ===== *)
theory Skill
  imports Main Prelude F64 Model
begin

text \<open>
  The skill builder of the provider crate (\<open>skill.rs\<close>): it tallies each author's weight per
  topic, turns the tally around, and ranks the contributors of every topic. The ordered maps
  of the code are the sorted association lists of \<open>Prelude\<close>. The ranking (a maximum, a quotient
  by it, a stable sort) is a definition of its own, because the routing hinter does the same.
\<close>

section \<open>The tally\<close>

type_synonym topic_weights = "(string, f64) btree_map"
type_synonym author_tally = "(string, string \<times> topic_weights) btree_map"

definition or_zero :: "f64 option \<Rightarrow> f64" where
  "or_zero w = (case w of Some x \<Rightarrow> x | None \<Rightarrow> f64_zero)"

fun tally_topics :: "f64 \<Rightarrow> topic list \<Rightarrow> topic_weights \<Rightarrow> topic_weights" where
  "tally_topics c [] w = w"
| "tally_topics c (t # ts) w =
     tally_topics c ts (bt_update (topic_str t) (\<lambda>old. f64_add (or_zero old) c) w)"

definition tally_contribution :: "skill_contribution \<Rightarrow> author_tally \<Rightarrow> author_tally" where
  "tally_contribution k tally =
     bt_update (author_id_str (sk_author k))
       (\<lambda>old. (sk_display_name k,
          tally_topics (confidence_get (sk_confidence k)) (sk_topics k)
            (case old of Some (_, w) \<Rightarrow> w | None \<Rightarrow> [])))
       tally"

definition tally_all :: "skill_contribution list \<Rightarrow> author_tally" where
  "tally_all ks = fold tally_contribution ks []"

definition profiles_of :: "author_tally \<Rightarrow> developer_profile list" where
  "profiles_of tally =
     map (\<lambda>(author, name, weights).
       \<lparr>dp_author = AuthorId author, dp_display_name = name,
        dp_topics = map (\<lambda>(t, w). \<lparr>tw_topic = Topic t, tw_weight = w\<rparr>) weights\<rparr>) tally"

section \<open>The inversion\<close>

type_synonym contributor = "string \<times> string \<times> f64"
type_synonym topic_tally = "(string, contributor list) btree_map"

fun invert_author :: "string \<Rightarrow> string \<Rightarrow> topic_weights \<Rightarrow> topic_tally \<Rightarrow> topic_tally" where
  "invert_author author name [] m = m"
| "invert_author author name ((t, w) # tws) m =
     invert_author author name tws
       (bt_update t (\<lambda>old. (case old of Some cs \<Rightarrow> cs | None \<Rightarrow> []) @ [(author, name, w)]) m)"

fun invert_tally :: "author_tally \<Rightarrow> topic_tally \<Rightarrow> topic_tally" where
  "invert_tally [] m = m"
| "invert_tally ((author, name, weights) # es) m =
     invert_tally es (invert_author author name weights m)"

section \<open>The ranking\<close>

definition compare_candidates :: "expert_candidate \<Rightarrow> expert_candidate \<Rightarrow> ordering" where
  "compare_candidates a b =
     ordering_then
       (case f64_partial_cmp (skill_score_get (ec_score b)) (skill_score_get (ec_score a)) of
          Some o1 \<Rightarrow> o1 | None \<Rightarrow> Equal)
       (cmp_of (author_id_str (ec_author a)) (author_id_str (ec_author b)))"

definition max_weight :: "f64 list \<Rightarrow> f64" where
  "max_weight ws = foldl f64_max f64_zero ws"

definition normalise :: "f64 \<Rightarrow> f64 \<Rightarrow> f64" where
  "normalise peak w = (if f64_lt f64_zero peak then f64_div w peak else f64_zero)"

definition rank_candidates :: "contributor list \<Rightarrow> expert_candidate list" where
  "rank_candidates contributors =
     (let peak = max_weight (map (\<lambda>(author, name, w). w) contributors) in
      sort_by compare_candidates
        (map (\<lambda>(author, name, w).
           \<lparr>ec_author = AuthorId author, ec_display_name = name,
            ec_score = skill_score_new (normalise peak w)\<rparr>) contributors))"

definition ownerships_of :: "topic_tally \<Rightarrow> topic_ownership list" where
  "ownerships_of m =
     map (\<lambda>(t, contributors).
       \<lparr>own_topic = Topic t, own_candidates = rank_candidates contributors\<rparr>) m"

definition skill_build :: "skill_contribution list \<Rightarrow> skill_index" where
  "skill_build ks =
     (let tally = tally_all ks in
      \<lparr>si_profiles = profiles_of tally, si_ownerships = ownerships_of (invert_tally tally [])\<rparr>)"

section \<open>Weights stay numbers\<close>

definition weight_ok :: "f64 \<Rightarrow> bool" where
  "weight_ok w = f64_within (2 ^ 53) w"

lemma weight_ok_zero [simp]: "weight_ok f64_zero"
  by (simp add: weight_ok_def)

lemma weight_ok_add: "weight_ok w \<Longrightarrow> f64_unit c \<Longrightarrow> weight_ok (f64_add w c)"
  unfolding weight_ok_def by (rule f64_add_within(1))

lemma weight_ok_unit: "f64_unit c \<Longrightarrow> weight_ok c"
  unfolding weight_ok_def by (erule f64_within_mono) simp

definition score_ok :: "expert_candidate \<Rightarrow> bool" where
  "score_ok e = f64_unit (skill_score_get (ec_score e))"

definition contribution_ok :: "skill_contribution \<Rightarrow> bool" where
  "contribution_ok k = confidence_ok (sk_confidence k)"

lemma or_zero_ok: "(\<And>w. old = Some w \<Longrightarrow> weight_ok w) \<Longrightarrow> weight_ok (or_zero old)"
  by (cases old) (simp_all add: or_zero_def)

definition weights_ok :: "topic_weights \<Rightarrow> bool" where
  "weights_ok m \<longleftrightarrow> bt_ordered m \<and> (\<forall>e\<in>set m. weight_ok (snd e))"

lemma weights_ok_Nil [simp]: "weights_ok []"
  by (simp add: weights_ok_def)

text \<open>What an update may put in: every value is \<open>f\<close> of a present one or of none.\<close>

lemma bt_update_values:
  assumes "e \<in> set (bt_update k f m)"
  shows "e \<in> set m \<or> (fst e = k \<and> (snd e = f None \<or> (\<exists>v. (k, v) \<in> set m \<and> snd e = f (Some v))))"
  using assms by (induction m) (auto simp: bt_update_Cons split: if_splits)

lemma weights_ok_update:
  assumes "weights_ok m" and "weight_ok (f None)" and "\<And>v. weight_ok v \<Longrightarrow> weight_ok (f (Some v))"
  shows "weights_ok (bt_update k f m)"
proof -
  have "weight_ok (snd e)" if "e \<in> set (bt_update k f m)" for e
    using bt_update_values [OF that] assms by (auto simp: weights_ok_def)
  then show ?thesis using assms(1) by (simp add: weights_ok_def bt_simps)
qed

lemma weights_ok_tally:
  assumes "f64_unit c"
  shows "weights_ok w \<Longrightarrow> weights_ok (tally_topics c ts w)"
proof (induction ts arbitrary: w)
  case (Cons t ts)
  have "weights_ok (bt_update (topic_str t) (\<lambda>old. f64_add (or_zero old) c) w)"
    by (rule weights_ok_update [OF Cons.prems])
      (auto intro!: weight_ok_add [OF _ assms] simp: or_zero_def)
  then show ?case by (simp add: Cons.IH)
qed simp

definition tally_ok :: "author_tally \<Rightarrow> bool" where
  "tally_ok m \<longleftrightarrow> bt_ordered m \<and> (\<forall>e\<in>set m. weights_ok (snd (snd e)))"

lemma tally_ok_contribution:
  assumes "tally_ok m" and "contribution_ok k"
  shows "tally_ok (tally_contribution k m)"
proof -
  have unit: "f64_unit (confidence_get (sk_confidence k))"
    using assms(2) by (simp add: contribution_ok_def confidence_ok_def)
  have "weights_ok (snd (snd e))" if "e \<in> set (tally_contribution k m)" for e
    using bt_update_values [OF that [unfolded tally_contribution_def]] assms(1)
    by (auto simp: tally_ok_def weights_ok_tally [OF unit] split: prod.splits)
  then show ?thesis
    using assms(1) by (simp add: tally_ok_def tally_contribution_def bt_simps)
qed

lemma tally_ok_fold:
  "tally_ok m \<Longrightarrow> \<forall>k\<in>set ks. contribution_ok k \<Longrightarrow> tally_ok (fold tally_contribution ks m)"
  by (induction ks arbitrary: m) (auto simp: tally_ok_contribution)

lemma tally_ok_all: "\<forall>k\<in>set ks. contribution_ok k \<Longrightarrow> tally_ok (tally_all ks)"
  unfolding tally_all_def by (rule tally_ok_fold) (simp_all add: tally_ok_def)

section \<open>What a weight is\<close>

text \<open>
  The weight of an author on a topic is the sum, in the order of the contributions, of the
  confidence of each mention.
\<close>

definition mentions :: "string \<Rightarrow> skill_contribution \<Rightarrow> f64 list" where
  "mentions t k =
     map (\<lambda>_. confidence_get (sk_confidence k)) (filter (\<lambda>x. topic_str x = t) (sk_topics k))"

definition weight_spec :: "skill_contribution list \<Rightarrow> string \<Rightarrow> string \<Rightarrow> f64 option" where
  "weight_spec ks a t =
     (let ms = concat (map (mentions t) (filter (\<lambda>k. author_id_str (sk_author k) = a) ks)) in
      if ms = [] then None else Some (foldl f64_add f64_zero ms))"

definition weight_in :: "author_tally \<Rightarrow> string \<Rightarrow> string \<Rightarrow> f64 option" where
  "weight_in m a t = (case map_of m a of Some (_, w) \<Rightarrow> map_of w t | None \<Rightarrow> None)"

definition bump :: "f64 option \<Rightarrow> f64 list \<Rightarrow> f64 option" where
  "bump old ms = (if ms = [] then old else Some (foldl f64_add (or_zero old) ms))"

lemma bump_append: "bump (bump old xs) ys = bump old (xs @ ys)"
  by (auto simp: bump_def or_zero_def)

lemma tally_topics_lookup:
  assumes "bt_ordered w"
  shows "bt_ordered (tally_topics c ts w)"
    and "map_of (tally_topics c ts w) t =
      bump (map_of w t) (map (\<lambda>_. c) (filter (\<lambda>x. topic_str x = t) ts))"
proof -
  have "bt_ordered (tally_topics c ts w) \<and> map_of (tally_topics c ts w) t =
      bump (map_of w t) (map (\<lambda>_. c) (filter (\<lambda>x. topic_str x = t) ts))"
    using assms
    by (induction ts arbitrary: w) (auto simp: bt_simps bump_def or_zero_def)
  then show "bt_ordered (tally_topics c ts w)" and "map_of (tally_topics c ts w) t =
      bump (map_of w t) (map (\<lambda>_. c) (filter (\<lambda>x. topic_str x = t) ts))" by simp_all
qed

definition tally_ordered :: "author_tally \<Rightarrow> bool" where
  "tally_ordered m \<longleftrightarrow> bt_ordered m \<and> (\<forall>e\<in>set m. bt_ordered (snd (snd e)))"

lemma tally_ordered_contribution:
  assumes "tally_ordered m"
  shows "tally_ordered (tally_contribution k m)"
proof -
  have "bt_ordered (snd (snd e))" if "e \<in> set (tally_contribution k m)" for e
    using bt_update_values [OF that [unfolded tally_contribution_def]] assms
    by (auto simp: tally_ordered_def tally_topics_lookup(1) split: prod.splits)
  then show ?thesis
    using assms by (simp add: tally_ordered_def tally_contribution_def bt_simps)
qed

lemma weight_in_contribution:
  assumes "tally_ordered m"
  shows "weight_in (tally_contribution k m) a t =
    (if author_id_str (sk_author k) = a then bump (weight_in m a t) (mentions t k)
     else weight_in m a t)"
proof -
  have w: "bt_ordered w" if "map_of m a = Some (n, w)" for a n w
    using that assms by (force simp: tally_ordered_def dest: map_of_SomeD)
  have "bt_ordered m" using assms by (simp add: tally_ordered_def)
  then show ?thesis
    by (auto simp: weight_in_def tally_contribution_def map_of_bt_update tally_topics_lookup(2)
        mentions_def w split: option.split)
qed

lemma weight_in_fold:
  "tally_ordered m \<Longrightarrow> weight_in (fold tally_contribution ks m) a t =
    bump (weight_in m a t)
      (concat (map (mentions t) (filter (\<lambda>k. author_id_str (sk_author k) = a) ks)))"
proof (induction ks arbitrary: m)
  case Nil
  then show ?case by (simp add: bump_def)
next
  case (Cons k ks)
  from Cons.IH [OF tally_ordered_contribution [OF Cons.prems]]
  show ?case by (simp add: weight_in_contribution [OF Cons.prems] bump_append)
qed

theorem tally_weights: "weight_in (tally_all ks) a t = weight_spec ks a t"
  unfolding tally_all_def weight_spec_def
  by (subst weight_in_fold)
    (simp_all add: tally_ordered_def weight_in_def bump_def or_zero_def Let_def)

text \<open>The display name is the last one seen.\<close>

lemma tally_name:
  "bt_ordered m \<Longrightarrow> map_option fst (map_of (fold tally_contribution ks m) a) =
    (let own = filter (\<lambda>k. author_id_str (sk_author k) = a) ks in
     if own = [] then map_option fst (map_of m a) else Some (sk_display_name (last own)))"
proof (induction ks arbitrary: m)
  case (Cons k ks)
  have "bt_ordered (tally_contribution k m)"
    using Cons.prems by (simp add: tally_contribution_def bt_simps)
  from Cons.IH [OF this] show ?case
    using Cons.prems by (auto simp: tally_contribution_def map_of_bt_update Let_def)
qed simp

section \<open>The inversion, by topic\<close>

definition contributors_of :: "author_tally \<Rightarrow> string \<Rightarrow> contributor list" where
  "contributors_of tally t =
     concat (map (\<lambda>(a, n, ws). case map_of ws t of Some w \<Rightarrow> [(a, n, w)] | None \<Rightarrow> []) tally)"

definition or_empty :: "'a list option \<Rightarrow> 'a list" where
  "or_empty xs = (case xs of Some ys \<Rightarrow> ys | None \<Rightarrow> [])"

lemma invert_author_lookup:
  assumes "bt_ordered m" and "distinct (map fst ws)"
  shows "bt_ordered (invert_author a n ws m)"
    and "map_of (invert_author a n ws m) t =
      (case map_of ws t of Some w \<Rightarrow> Some (or_empty (map_of m t) @ [(a, n, w)]) | None \<Rightarrow> map_of m t)"
proof -
  have "bt_ordered (invert_author a n ws m) \<and> map_of (invert_author a n ws m) t =
      (case map_of ws t of Some w \<Rightarrow> Some (or_empty (map_of m t) @ [(a, n, w)]) | None \<Rightarrow> map_of m t)"
    using assms
  proof (induction ws arbitrary: m)
    case (Cons e ws)
    obtain t' w where e: "e = (t', w)" by (cases e)
    have "map_of ws t' = None"
      using Cons.prems(2) e by (simp add: map_of_eq_None_iff)
    then show ?case using Cons.prems Cons.IH
      by (auto simp: e bt_simps or_empty_def split: option.split)
  qed simp
  then show "bt_ordered (invert_author a n ws m)" and "map_of (invert_author a n ws m) t =
      (case map_of ws t of Some w \<Rightarrow> Some (or_empty (map_of m t) @ [(a, n, w)]) | None \<Rightarrow> map_of m t)"
    by simp_all
qed

lemma invert_tally_lookup:
  assumes "bt_ordered m" and "\<forall>e\<in>set tally. distinct (map fst (snd (snd e)))"
  shows "bt_ordered (invert_tally tally m)"
    and "map_of (invert_tally tally m) t =
      (if contributors_of tally t = [] then map_of m t
       else Some (or_empty (map_of m t) @ contributors_of tally t))"
proof -
  have "bt_ordered (invert_tally tally m) \<and> map_of (invert_tally tally m) t =
      (if contributors_of tally t = [] then map_of m t
       else Some (or_empty (map_of m t) @ contributors_of tally t))"
    using assms
  proof (induction tally arbitrary: m)
    case Nil
    then show ?case by (simp add: contributors_of_def)
  next
    case (Cons e tally)
    obtain a n ws where e: "e = (a, n, ws)" by (metis prod.collapse)
    have ws: "distinct (map fst ws)" using Cons.prems(2) e by simp
    note inv = invert_author_lookup [OF Cons.prems(1) ws, of a n]
    have tl: "\<forall>e\<in>set tally. distinct (map fst (snd (snd e)))" using Cons.prems(2) by simp
    from Cons.IH [OF inv(1) tl] show ?case
      by (auto simp: e inv(2) contributors_of_def or_empty_def split: option.split)
  qed
  then show "bt_ordered (invert_tally tally m)" and "map_of (invert_tally tally m) t =
      (if contributors_of tally t = [] then map_of m t
       else Some (or_empty (map_of m t) @ contributors_of tally t))" by simp_all
qed

lemma contributors_of_authors:
  assumes "distinct (map fst tally)"
  shows "distinct (map fst (contributors_of tally t))"
    and "(a, n, w) \<in> set (contributors_of tally t) \<longleftrightarrow>
      (\<exists>ws. (a, n, ws) \<in> set tally \<and> map_of ws t = Some w)"
proof -
  have sub: "fst ` set (contributors_of tl t) \<subseteq> fst ` set tl" for tl
    by (force simp: contributors_of_def split: option.splits)
  show "distinct (map fst (contributors_of tally t))"
    using assms
  proof (induction tally)
    case (Cons e tally)
    obtain a n ws where e: "e = (a, n, ws)" by (metis prod.collapse)
    have "contributors_of (e # tally) t =
        (case map_of ws t of Some w \<Rightarrow> [(a, n, w)] | None \<Rightarrow> []) @ contributors_of tally t"
      by (simp add: e contributors_of_def)
    then show ?case using Cons sub [of tally] by (auto simp: e split: option.split)
  qed (simp add: contributors_of_def)
  show "(a, n, w) \<in> set (contributors_of tally t) \<longleftrightarrow>
      (\<exists>ws. (a, n, ws) \<in> set tally \<and> map_of ws t = Some w)"
    by (force simp: contributors_of_def split: option.splits)
qed

section \<open>The ranking is right\<close>

lemma compare_candidates_ok:
  assumes "score_ok a" and "score_ok b"
  shows "compare_candidates a b = ordering_then
    (cmp_of (f64_rat (skill_score_get (ec_score b))) (f64_rat (skill_score_get (ec_score a))))
    (cmp_of (author_id_str (ec_author a)) (author_id_str (ec_author b)))"
  using assms f64_partial_cmp_within [of 1 _ 1] by (simp add: compare_candidates_def score_ok_def)

lemma compare_candidates_Greater:
  assumes "score_ok a" and "score_ok b"
  shows "compare_candidates a b = Greater \<longleftrightarrow>
    f64_rat (skill_score_get (ec_score a)) < f64_rat (skill_score_get (ec_score b)) \<or>
    (f64_rat (skill_score_get (ec_score a)) = f64_rat (skill_score_get (ec_score b)) \<and>
     author_id_str (ec_author b) < author_id_str (ec_author a))"
  by (auto simp: compare_candidates_ok [OF assms] ordering_then_eq_Greater)

interpretation candidate_order: comparator compare_candidates score_ok
  by unfold_locales (auto simp: compare_candidates_Greater)

definition contributors_ok :: "contributor list \<Rightarrow> bool" where
  "contributors_ok cs = (\<forall>(a, n, w)\<in>set cs. weight_ok w)"

lemma max_weight_bounds:
  assumes "\<forall>w\<in>set ws. weight_ok w"
  shows "weight_ok (max_weight ws)"
    and "w \<in> set ws \<Longrightarrow> f64_rat w \<le> f64_rat (max_weight ws)"
    and "0 < f64_rat (max_weight ws) \<Longrightarrow> \<exists>w\<in>set ws. f64_rat w = f64_rat (max_weight ws)"
proof -
  have fold: "weight_ok (foldl f64_max x ws) \<and> f64_rat x \<le> f64_rat (foldl f64_max x ws) \<and>
      (\<forall>w\<in>set ws. f64_rat w \<le> f64_rat (foldl f64_max x ws)) \<and>
      (f64_rat (foldl f64_max x ws) = f64_rat x \<or>
       (\<exists>w\<in>set ws. f64_rat w = f64_rat (foldl f64_max x ws)))" if "weight_ok x" for x
    using assms that
  proof (induction ws arbitrary: x)
    case (Cons w ws)
    have wx: "f64_within (2 ^ 53) x" "f64_within (2 ^ 53) w"
      using Cons.prems by (simp_all only: weight_ok_def list.set_intros)
    note step = f64_max_within [OF wx]
    have "weight_ok (f64_max x w)" unfolding weight_ok_def by (rule step(1))
    with Cons.IH [of "f64_max x w"] Cons.prems show ?case
      by (auto simp: step(2) max_def split: if_splits)
  qed simp
  have zero: "f64_rat f64_zero = 0" by (simp add: f64_zero_def signed_def)
  show "weight_ok (max_weight ws)" "w \<in> set ws \<Longrightarrow> f64_rat w \<le> f64_rat (max_weight ws)"
    "0 < f64_rat (max_weight ws) \<Longrightarrow> \<exists>w\<in>set ws. f64_rat w = f64_rat (max_weight ws)"
    using fold [of f64_zero] by (auto simp: max_weight_def zero)
qed

lemma f64_lt_zero: "weight_ok x \<Longrightarrow> f64_lt f64_zero x \<longleftrightarrow> 0 < f64_rat x"
  using f64_lt_within [of 0 f64_zero "2 ^ 53" x]
  by (simp add: weight_ok_def f64_zero_def signed_def f64_within_def ex_bool_eq)

lemma normalise_unit:
  assumes "weight_ok peak" and "weight_ok w" and "f64_rat w \<le> f64_rat peak"
  shows "f64_unit (normalise peak w)"
  using f64_div_unit [of "2 ^ 53" w "2 ^ 53" peak] assms
  by (simp add: normalise_def f64_lt_zero) (simp add: weight_ok_def)

lemma f64_rat_inject:
  "weight_ok x \<Longrightarrow> weight_ok y \<Longrightarrow> f64_rat x = f64_rat y \<Longrightarrow> 0 < f64_rat x \<Longrightarrow> x = y"
  by (auto simp: weight_ok_def f64_within_def signed_def split: if_splits)

lemma normalise_peak:
  assumes "weight_ok peak" and "weight_ok w" and "f64_rat w = f64_rat peak" and "0 < f64_rat peak"
  shows "normalise peak w = f64_one"
proof -
  have "w = peak" using f64_rat_inject [OF assms(2,1,3)] assms by simp
  then show ?thesis
    using assms f64_div_self [of "2 ^ 53" peak]
    by (simp add: normalise_def f64_lt_zero) (simp add: weight_ok_def)
qed

definition candidate_of :: "f64 \<Rightarrow> contributor \<Rightarrow> expert_candidate" where
  "candidate_of peak = (\<lambda>(author, name, w).
     \<lparr>ec_author = AuthorId author, ec_display_name = name,
      ec_score = skill_score_new (normalise peak w)\<rparr>)"

definition peak_of :: "contributor list \<Rightarrow> f64" where
  "peak_of cs = max_weight (map (snd \<circ> snd) cs)"

lemma rank_candidates_eq:
  "rank_candidates cs = sort_by compare_candidates (map (candidate_of (peak_of cs)) cs)"
  by (simp add: rank_candidates_def candidate_of_def peak_of_def Let_def comp_def case_prod_unfold)

lemma peak_of_bounds:
  assumes "contributors_ok cs"
  shows "weight_ok (peak_of cs)"
    and "(a, n, w) \<in> set cs \<Longrightarrow> f64_rat w \<le> f64_rat (peak_of cs)"
    and "0 < f64_rat (peak_of cs) \<Longrightarrow> \<exists>a n w. (a, n, w) \<in> set cs \<and> f64_rat w = f64_rat (peak_of cs)"
proof -
  have ok: "\<forall>w\<in>set (map (snd \<circ> snd) cs). weight_ok w"
    using assms by (auto simp: contributors_ok_def)
  note b = max_weight_bounds [OF ok, folded peak_of_def]
  show "weight_ok (peak_of cs)" by (rule b(1))
  show "(a, n, w) \<in> set cs \<Longrightarrow> f64_rat w \<le> f64_rat (peak_of cs)"
    by (rule b(2)) force
  show "\<exists>a n w. (a, n, w) \<in> set cs \<and> f64_rat w = f64_rat (peak_of cs)" if "0 < f64_rat (peak_of cs)"
    using b(3) [OF that] by force
qed

lemma candidate_score:
  assumes "contributors_ok cs" and "(a, n, w) \<in> set cs"
  shows "skill_score_get (ec_score (candidate_of (peak_of cs) (a, n, w))) = normalise (peak_of cs) w"
    and "f64_unit (normalise (peak_of cs) w)"
proof -
  have "weight_ok w" using assms by (auto simp: contributors_ok_def)
  then show unit: "f64_unit (normalise (peak_of cs) w)"
    by (intro normalise_unit peak_of_bounds(1) [OF assms(1)] peak_of_bounds(2) [OF assms])
  then show "skill_score_get (ec_score (candidate_of (peak_of cs) (a, n, w))) = normalise (peak_of cs) w"
    by (simp add: candidate_of_def skill_score_new_def skill_score_get_def f64_clamp_id)
qed

text \<open>The order of a ranking: scores descend, and equal scores ascend by author.\<close>

definition ranked :: "expert_candidate list \<Rightarrow> bool" where
  "ranked es = sorted_wrt (\<lambda>a b.
     f64_rat (skill_score_get (ec_score b)) < f64_rat (skill_score_get (ec_score a)) \<or>
     (f64_rat (skill_score_get (ec_score a)) = f64_rat (skill_score_get (ec_score b)) \<and>
      author_id_str (ec_author a) \<le> author_id_str (ec_author b))) es"

theorem rank_candidates_correct:
  assumes "contributors_ok cs"
  shows "\<forall>e\<in>set (rank_candidates cs). score_ok e"
    and "ranked (rank_candidates cs)"
    and "ec_author ` set (rank_candidates cs) = (AuthorId \<circ> fst) ` set cs"
    and "distinct (map fst cs) \<Longrightarrow> distinct (map ec_author (rank_candidates cs))"
    and "0 < f64_rat (peak_of cs) \<Longrightarrow> skill_score_get (ec_score (hd (rank_candidates cs))) = f64_one"
proof -
  let ?es = "map (candidate_of (peak_of cs)) cs"
  have ok: "\<forall>e\<in>set ?es. score_ok e"
    using candidate_score [OF assms] by (auto simp: score_ok_def)
  show ok': "\<forall>e\<in>set (rank_candidates cs). score_ok e"
    using ok by (simp add: rank_candidates_eq)
  have "sorted_wrt (\<lambda>a b. compare_candidates a b \<noteq> Greater) (rank_candidates cs)"
    unfolding rank_candidates_eq by (rule candidate_order.sort_by_sorted [OF ok])
  then show ranked: "ranked (rank_candidates cs)"
    unfolding ranked_def
    by (rule sorted_wrt_mono_rel [rotated]) (use ok' in \<open>force simp: compare_candidates_Greater\<close>)
  have author: "ec_author (candidate_of x c) = AuthorId (fst c)" for x c
    by (simp add: candidate_of_def split: prod.split)
  show "ec_author ` set (rank_candidates cs) = (AuthorId \<circ> fst) ` set cs"
    by (simp add: rank_candidates_eq image_image author comp_def)
  have authors: "map ec_author ?es = map AuthorId (map fst cs)" by (simp add: author)
  have "distinct (map ec_author ?es) = distinct (map fst cs)"
    unfolding authors distinct_map [of AuthorId] by (simp add: inj_on_def)
  then show "distinct (map ec_author (rank_candidates cs))" if "distinct (map fst cs)"
    using that by (simp add: rank_candidates_eq)
  show "skill_score_get (ec_score (hd (rank_candidates cs))) = f64_one" if pos: "0 < f64_rat (peak_of cs)"
  proof -
    obtain a n w where w: "(a, n, w) \<in> set cs" "f64_rat w = f64_rat (peak_of cs)"
      using peak_of_bounds(3) [OF assms pos] by blast
    have "weight_ok w" using w assms by (auto simp: contributors_ok_def)
    then have one: "normalise (peak_of cs) w = f64_one"
      by (intro normalise_peak peak_of_bounds(1) [OF assms] w(2) pos)
    let ?e = "candidate_of (peak_of cs) (a, n, w)"
    have mem: "?e \<in> set (rank_candidates cs)" using w by (force simp: rank_candidates_eq)
    then obtain h t where ht: "rank_candidates cs = h # t" by (cases "rank_candidates cs") auto
    have e: "f64_rat (skill_score_get (ec_score ?e)) = 1"
      using candidate_score(1) [OF assms w(1)] one by (simp add: f64_one_def signed_def)
    have "1 \<le> f64_rat (skill_score_get (ec_score h))"
      using ranked mem e unfolding ht ranked_def by fastforce
    moreover have h: "f64_unit (skill_score_get (ec_score h))"
      using ok' ht by (simp add: score_ok_def)
    moreover from h have "f64_rat (skill_score_get (ec_score h)) \<le> 1"
      by (rule f64_withinE)
    ultimately have "f64_rat (skill_score_get (ec_score h)) = 1" by simp
    moreover have "f64_rat f64_one = 1" by (simp add: f64_one_def signed_def)
    ultimately have "skill_score_get (ec_score h) = f64_one"
      by (intro f64_rat_inject weight_ok_unit h f64_unit_zero_one) simp_all
    then show ?thesis by (simp add: ht)
  qed
qed

section \<open>The index as a whole\<close>

lemma tally_ordered_all: "tally_ordered (tally_all ks)"
proof -
  have "tally_ordered m \<Longrightarrow> tally_ordered (fold tally_contribution ks m)" for m
    by (induction ks arbitrary: m) (auto simp: tally_ordered_contribution)
  moreover have "tally_ordered []" by (simp add: tally_ordered_def)
  ultimately show ?thesis unfolding tally_all_def .
qed

lemma tally_ordered_inner:
  "tally_ordered m \<Longrightarrow> bt_ordered m \<and> (\<forall>e\<in>set m. distinct (map fst (snd (snd e))))"
  by (auto simp: tally_ordered_def bt_ordered_distinct)

lemma contributors_of_iff:
  "(a, n, w) \<in> set (contributors_of (tally_all ks) t) \<longleftrightarrow>
    weight_spec ks a t = Some w \<and> map_option fst (map_of (tally_all ks) a) = Some n"
proof -
  have o: "bt_ordered (tally_all ks)" using tally_ordered_all by (simp add: tally_ordered_def)
  have mem: "(a, n, ws) \<in> set (tally_all ks) \<longleftrightarrow> map_of (tally_all ks) a = Some (n, ws)" for ws
    by (rule bt_map_of_iff [OF o, symmetric])
  show ?thesis
    unfolding contributors_of_authors(2) [OF bt_ordered_distinct [OF o]] mem
      tally_weights [symmetric] weight_in_def
    by (auto split: option.split)
qed

text \<open>\<open>mentioned ks a t\<close>: some contribution of author \<open>a\<close> carries topic \<open>t\<close>.\<close>

definition mentioned :: "skill_contribution list \<Rightarrow> string \<Rightarrow> string \<Rightarrow> bool" where
  "mentioned ks a t \<longleftrightarrow>
     (\<exists>k\<in>set ks. author_id_str (sk_author k) = a \<and> t \<in> topic_str ` set (sk_topics k))"

lemma weight_spec_None: "weight_spec ks a t = None \<longleftrightarrow> \<not> mentioned ks a t"
  by (auto simp: weight_spec_def mentioned_def mentions_def Let_def filter_empty_conv)

lemma tally_has_author: "mentioned ks a t \<Longrightarrow> map_of (tally_all ks) a \<noteq> None"
  using tally_weights [of ks a t] weight_spec_None [of ks a t]
  by (auto simp: weight_in_def split: option.splits)

lemma contributors_of_fst:
  "fst ` set (contributors_of (tally_all ks) t) = {a. mentioned ks a t}"
proof -
  have "a \<in> fst ` set (contributors_of (tally_all ks) t) \<longleftrightarrow> mentioned ks a t" for a
  proof
    assume "a \<in> fst ` set (contributors_of (tally_all ks) t)"
    then obtain n w where "(a, n, w) \<in> set (contributors_of (tally_all ks) t)" by force
    then show "mentioned ks a t" using weight_spec_None [of ks a t] by (auto simp: contributors_of_iff)
  next
    assume m: "mentioned ks a t"
    then obtain w where "weight_spec ks a t = Some w" using weight_spec_None [of ks a t] by auto
    moreover obtain n ws where "map_of (tally_all ks) a = Some (n, ws)"
      using tally_has_author [OF m] by auto
    ultimately have "(a, n, w) \<in> set (contributors_of (tally_all ks) t)"
      by (simp add: contributors_of_iff)
    then show "a \<in> fst ` set (contributors_of (tally_all ks) t)" by (metis fst_conv image_eqI)
  qed
  then show ?thesis by blast
qed

lemma ownerships_lookup:
  "bt_ordered (invert_tally (tally_all ks) [])"
  "(t, cs) \<in> set (invert_tally (tally_all ks) []) \<longleftrightarrow>
    cs = contributors_of (tally_all ks) t \<and> (\<exists>a. mentioned ks a t)"
proof -
  have "\<forall>e\<in>set (tally_all ks). distinct (map fst (snd (snd e)))"
    using tally_ordered_inner [OF tally_ordered_all] by simp
  note inv = invert_tally_lookup [OF bt_ordered_Nil this]
  show o: "bt_ordered (invert_tally (tally_all ks) [])" by (rule inv(1))
  have "contributors_of (tally_all ks) t = [] \<longleftrightarrow> \<not> (\<exists>a. mentioned ks a t)"
    using contributors_of_fst [of ks t] by (metis (mono_tags) Collect_empty_eq image_is_empty set_empty)
  then show "(t, cs) \<in> set (invert_tally (tally_all ks) []) \<longleftrightarrow>
      cs = contributors_of (tally_all ks) t \<and> (\<exists>a. mentioned ks a t)"
    unfolding bt_map_of_iff [OF o, symmetric] inv(2) by (auto simp: or_empty_def)
qed

lemma contributors_ok_tally:
  assumes "\<forall>k\<in>set ks. contribution_ok k"
  shows "contributors_ok (contributors_of (tally_all ks) t)"
proof -
  have "weight_ok w" if c: "(a, n, w) \<in> set (contributors_of (tally_all ks) t)" for a n w
  proof -
    have o: "bt_ordered (tally_all ks)" using tally_ordered_all by (simp add: tally_ordered_def)
    obtain ws where ws: "(a, n, ws) \<in> set (tally_all ks)" "map_of ws t = Some w"
      using c contributors_of_authors(2) [OF bt_ordered_distinct [OF o]] by blast
    have "\<forall>e\<in>set (tally_all ks). weights_ok (snd (snd e))"
      using tally_ok_all [OF assms] unfolding tally_ok_def by (rule conjunct2)
    from bspec [OF this ws(1)] have "\<forall>e\<in>set ws. weight_ok (snd e)" by (simp add: weights_ok_def)
    from bspec [OF this map_of_SomeD [OF ws(2)]] show ?thesis by simp
  qed
  then show ?thesis by (auto simp: contributors_ok_def)
qed

definition skill_topics :: "skill_contribution list \<Rightarrow> topic set" where
  "skill_topics ks = (\<Union>k\<in>set ks. set (sk_topics k))"

lemma topic_str_image: "topic_str t \<in> topic_str ` A \<longleftrightarrow> t \<in> A"
  by (metis image_iff topic.expand)

lemma skill_topics_iff: "t \<in> skill_topics ks \<longleftrightarrow> (\<exists>a. mentioned ks a (topic_str t))"
  by (auto simp: skill_topics_def mentioned_def topic_str_image)

text \<open>One ownership per topic that was mentioned, in ascending order.\<close>

lemma skill_ownership_topics:
  "set (map own_topic (si_ownerships (skill_build ks))) = skill_topics ks"
  "sorted_wrt (<) (map own_topic (si_ownerships (skill_build ks)))"
proof -
  have topics: "map own_topic (si_ownerships (skill_build ks)) =
      map Topic (map fst (invert_tally (tally_all ks) []))"
    by (simp add: skill_build_def ownerships_of_def Let_def comp_def case_prod_unfold)
  have "t \<in> set (map own_topic (si_ownerships (skill_build ks))) \<longleftrightarrow> t \<in> skill_topics ks" for t
  proof -
    have "t \<in> set (map own_topic (si_ownerships (skill_build ks))) \<longleftrightarrow>
        (\<exists>cs. (topic_str t, cs) \<in> set (invert_tally (tally_all ks) []))"
      unfolding topics by (cases t) force
    then show ?thesis by (simp add: ownerships_lookup(2) skill_topics_iff)
  qed
  then show "set (map own_topic (si_ownerships (skill_build ks))) = skill_topics ks" by blast
  show "sorted_wrt (<) (map own_topic (si_ownerships (skill_build ks)))"
    using ownerships_lookup(1) [of ks]
    by (simp add: topics bt_ordered_def sorted_wrt_map less_topic_def)
qed

lemma skill_ownership_candidates:
  assumes "o1 \<in> set (si_ownerships (skill_build ks))"
  shows "own_candidates o1 = rank_candidates (contributors_of (tally_all ks) (topic_str (own_topic o1)))"
  using assms by (auto simp: skill_build_def ownerships_of_def Let_def ownerships_lookup(2))

text \<open>Every candidate list of an index is a ranking of numbers: what its readers rely on.\<close>

definition ownership_ok :: "topic_ownership \<Rightarrow> bool" where
  "ownership_ok o1 \<longleftrightarrow> (\<forall>e\<in>set (own_candidates o1). score_ok e) \<and> ranked (own_candidates o1) \<and>
     distinct (map ec_author (own_candidates o1))"

lemma skill_ownership_ok:
  assumes "\<forall>k\<in>set ks. contribution_ok k" and "o1 \<in> set (si_ownerships (skill_build ks))"
  shows "ownership_ok o1"
    and "ec_author ` set (own_candidates o1) =
      {a. mentioned ks (author_id_str a) (topic_str (own_topic o1))}"
proof -
  let ?cs = "contributors_of (tally_all ks) (topic_str (own_topic o1))"
  have o: "bt_ordered (tally_all ks)" using tally_ordered_all by (simp add: tally_ordered_def)
  note r = rank_candidates_correct [OF contributors_ok_tally [OF assms(1)], of "topic_str (own_topic o1)"]
  show "ownership_ok o1"
    using r contributors_of_authors(1) [OF bt_ordered_distinct [OF o]]
    by (simp add: ownership_ok_def skill_ownership_candidates [OF assms(2)])
  have "(AuthorId \<circ> fst) ` set ?cs = AuthorId ` {a. mentioned ks a (topic_str (own_topic o1))}"
    by (simp only: image_comp [symmetric] contributors_of_fst)
  also have "\<dots> = {a. mentioned ks (author_id_str a) (topic_str (own_topic o1))}"
    by (force simp: image_iff intro: author_id.collapse [symmetric])
  finally show "ec_author ` set (own_candidates o1) =
      {a. mentioned ks (author_id_str a) (topic_str (own_topic o1))}"
    by (simp add: r(3) skill_ownership_candidates [OF assms(2)])
qed

text \<open>The profiles hold, per author, exactly the weights of the specification.\<close>

lemma skill_profile_weights:
  "(\<exists>p\<in>set (si_profiles (skill_build ks)). dp_author p = AuthorId a \<and>
     \<lparr>tw_topic = Topic t, tw_weight = w\<rparr> \<in> set (dp_topics p)) \<longleftrightarrow> weight_spec ks a t = Some w"
proof -
  have o: "tally_ordered (tally_all ks)" by (rule tally_ordered_all)
  then have bt: "bt_ordered (tally_all ks)" by (simp add: tally_ordered_def)
  have mem: "(a, n, ws) \<in> set (tally_all ks) \<longleftrightarrow> map_of (tally_all ks) a = Some (n, ws)" for n ws
    by (rule bt_map_of_iff [OF bt, symmetric])
  have profiles: "si_profiles (skill_build ks) = profiles_of (tally_all ks)"
    by (simp add: skill_build_def Let_def)
  have "(\<exists>p\<in>set (profiles_of (tally_all ks)). dp_author p = AuthorId a \<and>
      \<lparr>tw_topic = Topic t, tw_weight = w\<rparr> \<in> set (dp_topics p)) \<longleftrightarrow>
      (\<exists>n ws. (a, n, ws) \<in> set (tally_all ks) \<and> (t, w) \<in> set ws)"
    unfolding profiles_of_def by (fastforce split: prod.splits)
  also have "\<dots> \<longleftrightarrow> (\<exists>n ws. (a, n, ws) \<in> set (tally_all ks) \<and> map_of ws t = Some w)"
  proof -
    have "(t, w) \<in> set ws \<longleftrightarrow> map_of ws t = Some w" if "(a, n, ws) \<in> set (tally_all ks)" for n ws
      using that o unfolding tally_ordered_def by (metis bt_map_of_iff snd_conv)
    then show ?thesis by blast
  qed
  also have "\<dots> \<longleftrightarrow> weight_in (tally_all ks) a t = Some w"
    by (auto simp: mem weight_in_def split: option.split)
  finally show ?thesis by (simp add: profiles tally_weights)
qed

section \<open>What a score is\<close>

text \<open>
  The score of an author is the weight of the author on the topic, divided by the largest weight
  anyone has on it and rounded to binary64.
\<close>

definition peak_weight :: "skill_contribution list \<Rightarrow> string \<Rightarrow> rat" where
  "peak_weight ks t =
     Max (set (0 # List.map_filter (\<lambda>k. map_option f64_rat (weight_spec ks (author_id_str (sk_author k)) t)) ks))"

definition last_name :: "skill_contribution list \<Rightarrow> string \<Rightarrow> string" where
  "last_name ks a = sk_display_name (last (filter (\<lambda>k. author_id_str (sk_author k) = a) ks))"

lemma peak_of_peak_weight:
  assumes "\<forall>k\<in>set ks. contribution_ok k"
  shows "f64_rat (peak_of (contributors_of (tally_all ks) t)) = peak_weight ks t"
proof -
  let ?cs = "contributors_of (tally_all ks) t"
  let ?ws = "set (0 # List.map_filter (\<lambda>k. map_option f64_rat (weight_spec ks (author_id_str (sk_author k)) t)) ks)"
  note ok = contributors_ok_tally [OF assms, of t]
  note peak = peak_of_bounds [OF ok]
  have nonneg: "0 \<le> f64_rat (peak_of ?cs)"
    using peak(1) by (auto simp: weight_ok_def elim: f64_withinE)
  have ws: "x \<in> ?ws \<longleftrightarrow> x = 0 \<or> (\<exists>a w. weight_spec ks a t = Some w \<and> x = f64_rat w)" for x
  proof -
    have "\<exists>k\<in>set ks. author_id_str (sk_author k) = a" if "weight_spec ks a t = Some w" for a w
    proof (rule ccontr)
      assume "\<not> ?thesis"
      then have "\<not> mentioned ks a t" by (auto simp: mentioned_def)
      with that show False using weight_spec_None [of ks a t] by simp
    qed
    then show ?thesis unfolding list.set insert_iff set_map_filter by fastforce
  qed
  have mem: "(\<exists>n. (a, n, w) \<in> set ?cs) \<longleftrightarrow> weight_spec ks a t = Some w" for a w
    using tally_has_author [of ks a t] weight_spec_None [of ks a t]
    by (auto simp: contributors_of_iff)
  have "f64_rat (peak_of ?cs) \<in> ?ws"
  proof (cases "0 < f64_rat (peak_of ?cs)")
    case True
    then show ?thesis using peak(3) mem unfolding ws by metis
  next
    case False
    with nonneg show ?thesis unfolding ws by simp
  qed
  moreover have "x \<le> f64_rat (peak_of ?cs)" if "x \<in> ?ws" for x
    using that nonneg peak(2) mem unfolding ws by metis
  ultimately show ?thesis unfolding peak_weight_def by (intro Max_eqI [symmetric]) simp_all
qed

lemma normalise_rat:
  assumes "weight_ok peak" and "weight_ok w" and "f64_rat w \<le> f64_rat peak"
  shows "f64_rat (normalise peak w) = (if 0 < f64_rat peak then round_mag (f64_rat w / f64_rat peak) else 0)"
  using f64_div_rat [of "2 ^ 53" w "2 ^ 53" peak] assms
  by (simp add: normalise_def f64_lt_zero) (simp add: weight_ok_def f64_zero_def signed_def)

lemma normalise_one_iff:
  assumes "weight_ok peak" and "weight_ok w" and "f64_rat w \<le> f64_rat peak" and "0 < f64_rat peak"
  shows "normalise peak w = f64_one \<longleftrightarrow> f64_rat w = f64_rat peak"
proof
  assume one: "normalise peak w = f64_one"
  show "f64_rat w = f64_rat peak"
  proof (rule ccontr)
    assume "f64_rat w \<noteq> f64_rat peak"
    then have "round_mag (f64_rat w / f64_rat peak) < 1"
      using assms by (intro round_mag_ratio_less) (auto simp: weight_ok_def elim: f64_withinE)
    then show False using normalise_rat [OF assms(1-3)] assms(4) one by (simp add: f64_one_def signed_def)
  qed
qed (use normalise_peak assms in blast)

text \<open>What a candidate of an index says about its author.\<close>

lemma skill_candidate:
  assumes "\<forall>k\<in>set ks. contribution_ok k" and "o1 \<in> set (si_ownerships (skill_build ks))"
    and "e \<in> set (own_candidates o1)"
  defines "t \<equiv> topic_str (own_topic o1)"
  obtains w where "weight_spec ks (author_id_str (ec_author e)) t = Some w"
    and "ec_display_name e = last_name ks (author_id_str (ec_author e))"
    and "f64_rat (skill_score_get (ec_score e)) =
      (if 0 < peak_weight ks t then round_mag (f64_rat w / peak_weight ks t) else 0)"
    and "0 < peak_weight ks t \<Longrightarrow>
      skill_score_get (ec_score e) = f64_one \<longleftrightarrow> f64_rat w = peak_weight ks t"
proof -
  let ?cs = "contributors_of (tally_all ks) t"
  note ok = contributors_ok_tally [OF assms(1), of t]
  have "own_candidates o1 = rank_candidates ?cs"
    using skill_ownership_candidates [OF assms(2)] by (simp add: t_def)
  then have "e \<in> candidate_of (peak_of ?cs) ` set ?cs"
    using assms(3) by (simp add: rank_candidates_eq)
  then obtain a n w where e: "e = candidate_of (peak_of ?cs) (a, n, w)" "(a, n, w) \<in> set ?cs" by force
  have w: "weight_spec ks a t = Some w" and n: "map_option fst (map_of (tally_all ks) a) = Some n"
    using e(2) by (simp_all add: contributors_of_iff)
  have author: "author_id_str (ec_author e) = a" and name: "ec_display_name e = n"
    by (simp_all add: e(1) candidate_of_def)
  have "n = last_name ks a"
    using tally_name [of "[]" ks a] n by (simp add: tally_all_def last_name_def Let_def split: if_splits)
  moreover have "weight_ok w" using ok e(2) by (auto simp: contributors_ok_def)
  ultimately show thesis
    using that [of w] w author name candidate_score(1) [OF ok e(2)] peak_of_bounds(1,2) [OF ok] e
      normalise_rat [of "peak_of ?cs" w] normalise_one_iff [of "peak_of ?cs" w] peak_of_peak_weight [OF assms(1), of t]
    by simp
qed

lemma skill_leader:
  assumes "\<forall>k\<in>set ks. contribution_ok k" and "o1 \<in> set (si_ownerships (skill_build ks))"
    and "0 < peak_weight ks (topic_str (own_topic o1))"
  shows "skill_score_get (ec_score (hd (own_candidates o1))) = f64_one"
  using rank_candidates_correct(5) [OF contributors_ok_tally [OF assms(1)]] peak_of_peak_weight [OF assms(1)] assms(3)
  by (simp add: skill_ownership_candidates [OF assms(2)])

end
