(* ===== verification/HintDev.thy ===== *)
theory HintDev
  imports Main Prelude F64 Model Skill
begin

text \<open>
  The routing hinter (\<open>hint.rs\<close>) and the developer snapshotter (\<open>developer.rs\<close>) of the
  provider crate: both read the skill index through the ownerships they are given.
\<close>

section \<open>The routing hinter\<close>

type_synonym reviewer_totals = "(string, string \<times> f64) btree_map"

fun total_candidates :: "expert_candidate list \<Rightarrow> reviewer_totals \<Rightarrow> reviewer_totals" where
  "total_candidates [] m = m"
| "total_candidates (c # cs) m =
     total_candidates cs
       (bt_update (author_id_str (ec_author c))
          (\<lambda>old. (ec_display_name c,
             f64_add (case old of Some (_, s) \<Rightarrow> s | None \<Rightarrow> f64_zero)
               (skill_score_get (ec_score c)))) m)"

fun total_ownerships :: "topic list \<Rightarrow> topic_ownership list \<Rightarrow> reviewer_totals \<Rightarrow> reviewer_totals" where
  "total_ownerships topics [] m = m"
| "total_ownerships topics (w # ws) m =
     (if own_topic w \<in> set topics then total_ownerships topics ws (total_candidates (own_candidates w) m)
      else total_ownerships topics ws m)"

definition skill_hint :: "projection \<Rightarrow> topic_ownership list \<Rightarrow> routing_hint" where
  "skill_hint p ownerships =
     (let totals = total_ownerships (proj_topics p) ownerships [];
          reviewers = rank_candidates totals in
      \<lparr>hint_message_id = proj_message_id p, hint_reviewers = reviewers,
       hint_human_hint = (case reviewers of r # _ \<Rightarrow> Some r | [] \<Rightarrow> None)\<rparr>)"

text \<open>Only ownerships of the projection's own topics count.\<close>

lemma total_ownerships_filter:
  "total_ownerships topics ws m =
    total_ownerships topics (filter (\<lambda>w. own_topic w \<in> set topics) ws) m"
  by (induction ws arbitrary: m) auto

lemma hint_ignores_unrelated:
  "skill_hint p ws = skill_hint p (filter (\<lambda>w. own_topic w \<in> set (proj_topics p)) ws)"
  unfolding skill_hint_def by (subst total_ownerships_filter) (rule refl)

definition totals_ok :: "reviewer_totals \<Rightarrow> bool" where
  "totals_ok m \<longleftrightarrow> bt_ordered m \<and> (\<forall>(a, n, s)\<in>set m. weight_ok s)"

lemma totals_ok_candidates:
  "totals_ok m \<Longrightarrow> \<forall>c\<in>set cs. score_ok c \<Longrightarrow>
    totals_ok (total_candidates cs m) \<and>
    fst ` set (total_candidates cs m) = fst ` set m \<union> (author_id_str \<circ> ec_author) ` set cs"
proof (induction cs arbitrary: m)
  case (Cons c cs)
  let ?f = "\<lambda>old. (ec_display_name c,
    f64_add (case old of Some (_, s) \<Rightarrow> s | None \<Rightarrow> f64_zero) (skill_score_get (ec_score c)))"
  let ?m = "bt_update (author_id_str (ec_author c)) ?f m"
  have unit: "f64_unit (skill_score_get (ec_score c))" using Cons.prems by (simp add: score_ok_def)
  have "weight_ok (snd (snd e))" if "e \<in> set ?m" for e
    using bt_update_values [OF that] Cons.prems(1)
    by (auto simp: totals_ok_def weight_ok_add [OF _ unit])
  then have "totals_ok ?m"
    using Cons.prems(1) by (auto simp: totals_ok_def bt_simps)
  from Cons.IH [OF this] show ?case
    using Cons.prems by (simp add: keys_bt_update)
qed simp

lemma totals_ok_ownerships:
  "totals_ok m \<Longrightarrow> \<forall>w\<in>set ws. \<forall>c\<in>set (own_candidates w). score_ok c \<Longrightarrow>
    totals_ok (total_ownerships topics ws m) \<and>
    fst ` set (total_ownerships topics ws m) = fst ` set m \<union>
      {author_id_str (ec_author c) | w c. w \<in> set ws \<and> own_topic w \<in> set topics \<and> c \<in> set (own_candidates w)}"
proof (induction ws arbitrary: m)
  case (Cons w ws)
  have c: "\<forall>c\<in>set (own_candidates w). score_ok c" using Cons.prems by simp
  have ws: "\<forall>w\<in>set ws. \<forall>c\<in>set (own_candidates w). score_ok c" using Cons.prems by simp
  note t = totals_ok_candidates [OF Cons.prems(1) c]
  show ?case
  proof (cases "own_topic w \<in> set topics")
    case True
    with Cons.IH [OF conjunct1 [OF t] ws] t show ?thesis by auto
  next
    case False
    with Cons.IH [OF Cons.prems(1) ws] show ?thesis by auto
  qed
qed simp

text \<open>Who reviews a projection: the candidates on its topics, ranked, each once.\<close>

definition reviewers_for :: "projection \<Rightarrow> topic_ownership list \<Rightarrow> author_id set" where
  "reviewers_for p ws =
     {ec_author c | w c. w \<in> set ws \<and> own_topic w \<in> set (proj_topics p) \<and> c \<in> set (own_candidates w)}"

theorem skill_hint_correct:
  assumes "\<forall>w\<in>set ws. \<forall>c\<in>set (own_candidates w). score_ok c"
  shows "hint_message_id (skill_hint p ws) = proj_message_id p"
    and "\<forall>e\<in>set (hint_reviewers (skill_hint p ws)). score_ok e"
    and "ranked (hint_reviewers (skill_hint p ws))"
    and "distinct (map ec_author (hint_reviewers (skill_hint p ws)))"
    and "ec_author ` set (hint_reviewers (skill_hint p ws)) = reviewers_for p ws"
    and "hint_human_hint (skill_hint p ws) =
      (if reviewers_for p ws = {} then None else Some (hd (hint_reviewers (skill_hint p ws))))"
proof -
  let ?m = "total_ownerships (proj_topics p) ws []"
  have "totals_ok []" by (simp add: totals_ok_def)
  note t = totals_ok_ownerships [OF this assms, of "proj_topics p"]
  have ok: "contributors_ok ?m" using t by (auto simp: totals_ok_def contributors_ok_def)
  have d: "distinct (map fst ?m)" using t by (simp add: totals_ok_def bt_ordered_distinct)
  have r: "hint_reviewers (skill_hint p ws) = rank_candidates ?m"
    by (simp add: skill_hint_def Let_def)
  note rank = rank_candidates_correct [OF ok]
  show "hint_message_id (skill_hint p ws) = proj_message_id p" by (simp add: skill_hint_def Let_def)
  show "\<forall>e\<in>set (hint_reviewers (skill_hint p ws)). score_ok e"
    and "ranked (hint_reviewers (skill_hint p ws))"
    and "distinct (map ec_author (hint_reviewers (skill_hint p ws)))"
    using rank(1,2) rank(4) [OF d] by (simp_all add: r)
  have "(AuthorId \<circ> fst) ` set ?m = AuthorId ` {author_id_str (ec_author c) | w c.
      w \<in> set ws \<and> own_topic w \<in> set (proj_topics p) \<and> c \<in> set (own_candidates w)}"
    using t by (simp only: image_comp [symmetric]) simp
  also have "\<dots> = reviewers_for p ws"
    unfolding reviewers_for_def by (force simp: image_iff)
  finally show set: "ec_author ` set (hint_reviewers (skill_hint p ws)) = reviewers_for p ws"
    by (simp add: r rank(3))
  show "hint_human_hint (skill_hint p ws) =
      (if reviewers_for p ws = {} then None else Some (hd (hint_reviewers (skill_hint p ws))))"
    unfolding set [symmetric] r
    by (simp add: skill_hint_def Let_def split: list.split)
qed

section \<open>The developer snapshotter\<close>

definition compare_topic_weights :: "topic_weight \<Rightarrow> topic_weight \<Rightarrow> ordering" where
  "compare_topic_weights a b =
     ordering_then
       (case f64_partial_cmp (tw_weight b) (tw_weight a) of Some o1 \<Rightarrow> o1 | None \<Rightarrow> Equal)
       (cmp_of (topic_str (tw_topic a)) (topic_str (tw_topic b)))"

definition owned_topics :: "topic_ownership list \<Rightarrow> participant \<Rightarrow> topic_weight list" where
  "owned_topics ownerships q =
     List.map_filter (\<lambda>w.
       map_option (\<lambda>c. \<lparr>tw_topic = own_topic w, tw_weight = skill_score_get (ec_score c)\<rparr>)
         (find (\<lambda>c. ec_author c = pt_author q) (own_candidates w))) ownerships"

definition snapshot_of :: "topic_ownership list \<Rightarrow> participant \<Rightarrow> developer_snapshot" where
  "snapshot_of ownerships q =
     \<lparr>ds_author = pt_author q, ds_display_name = pt_display_name q,
      ds_topics = sort_by compare_topic_weights (owned_topics ownerships q)\<rparr>"

definition compare_developers :: "developer_snapshot \<Rightarrow> developer_snapshot \<Rightarrow> ordering" where
  "compare_developers a b = cmp_of (author_id_str (ds_author a)) (author_id_str (ds_author b))"

definition snapshot_build ::
  "conversation_id \<Rightarrow> participant list \<Rightarrow> topic_ownership list \<Rightarrow> session_developers" where
  "snapshot_build conversation participants ownerships =
     \<lparr>sd_conversation = conversation,
      sd_developers = sort_by compare_developers (map (snapshot_of ownerships) participants)\<rparr>"

interpretation developer_order: comparator compare_developers "\<lambda>_. True"
  by unfold_locales (auto simp: compare_developers_def)

definition topic_weight_ok :: "topic_weight \<Rightarrow> bool" where
  "topic_weight_ok w = f64_unit (tw_weight w)"

lemma compare_topic_weights_Greater:
  assumes "topic_weight_ok a" and "topic_weight_ok b"
  shows "compare_topic_weights a b = Greater \<longleftrightarrow>
    f64_rat (tw_weight a) < f64_rat (tw_weight b) \<or>
    (f64_rat (tw_weight a) = f64_rat (tw_weight b) \<and> topic_str (tw_topic b) < topic_str (tw_topic a))"
  using assms f64_partial_cmp_within [of 1 _ 1]
  by (auto simp: compare_topic_weights_def topic_weight_ok_def ordering_then_eq_Greater)

interpretation topic_weight_order: comparator compare_topic_weights topic_weight_ok
  by unfold_locales (auto simp: compare_topic_weights_Greater)

text \<open>Every participant is kept, with exactly the topics they are a candidate on.\<close>

lemma snapshot_participants:
  "ds_author ` set (sd_developers (snapshot_build c qs ws)) = pt_author ` set qs"
  "length (sd_developers (snapshot_build c qs ws)) = length qs"
  "sd_conversation (snapshot_build c qs ws) = c"
  by (simp_all add: snapshot_build_def snapshot_of_def image_image)

lemma snapshot_developer:
  "d \<in> set (sd_developers (snapshot_build c qs ws)) \<longleftrightarrow> (\<exists>q\<in>set qs. d = snapshot_of ws q)"
  by (auto simp: snapshot_build_def)

lemma snapshot_sorted:
  "sorted (map (author_id_str \<circ> ds_author) (sd_developers (snapshot_build c qs ws)))"
proof -
  have "sorted_wrt (\<lambda>a b. compare_developers a b \<noteq> Greater)
      (sd_developers (snapshot_build c qs ws))"
    unfolding snapshot_build_def by simp (rule developer_order.sort_by_sorted, simp)
  then show ?thesis
    by (simp add: sorted_map compare_developers_def not_less)
qed

lemma owned_topics_find:
  "tw \<in> set (owned_topics ws q) \<longleftrightarrow>
    (\<exists>w\<in>set ws. \<exists>c. find (\<lambda>c. ec_author c = pt_author q) (own_candidates w) = Some c \<and>
       tw = \<lparr>tw_topic = own_topic w, tw_weight = skill_score_get (ec_score c)\<rparr>)"
  by (induction ws) (auto simp: owned_topics_def List.map_filter_simps split: option.split)

lemma find_Some_mem: "find P xs = Some x \<Longrightarrow> x \<in> set xs \<and> P x"
  by (induction xs) (auto split: if_splits)

lemma find_candidate:
  "distinct (map ec_author cs) \<Longrightarrow>
    find (\<lambda>c. ec_author c = a) cs = Some e \<longleftrightarrow> e \<in> set cs \<and> ec_author e = a"
  by (induction cs) auto

lemma owned_topics_iff:
  assumes "\<forall>w\<in>set ws. distinct (map ec_author (own_candidates w))"
  shows "tw \<in> set (owned_topics ws q) \<longleftrightarrow>
    (\<exists>w\<in>set ws. \<exists>c\<in>set (own_candidates w). ec_author c = pt_author q \<and>
       tw = \<lparr>tw_topic = own_topic w, tw_weight = skill_score_get (ec_score c)\<rparr>)"
  unfolding owned_topics_find
  by (intro bex_cong refl) (use assms find_candidate in blast)

lemma snapshot_topics_ok:
  assumes "\<forall>w\<in>set ws. \<forall>c\<in>set (own_candidates w). score_ok c"
  shows "\<forall>tw\<in>set (owned_topics ws q). topic_weight_ok tw"
proof
  fix tw
  assume "tw \<in> set (owned_topics ws q)"
  then obtain w c where "w \<in> set ws" and f: "find (\<lambda>c. ec_author c = pt_author q) (own_candidates w) = Some c"
    and "tw = \<lparr>tw_topic = own_topic w, tw_weight = skill_score_get (ec_score c)\<rparr>"
    unfolding owned_topics_find by blast
  then show "topic_weight_ok tw"
    using find_Some_mem [OF f] assms by (simp add: topic_weight_ok_def score_ok_def)
qed

lemma set_ds_topics: "set (ds_topics (snapshot_of ws q)) = set (owned_topics ws q)"
  by (simp add: snapshot_of_def)

text \<open>Best first, ties by topic name.\<close>

lemma snapshot_topics_ranked:
  assumes "\<forall>w\<in>set ws. \<forall>c\<in>set (own_candidates w). score_ok c"
  shows "sorted_wrt (\<lambda>a b. f64_rat (tw_weight b) < f64_rat (tw_weight a) \<or>
      (f64_rat (tw_weight a) = f64_rat (tw_weight b) \<and> topic_str (tw_topic a) \<le> topic_str (tw_topic b)))
    (ds_topics (snapshot_of ws q))"
proof -
  note ok = snapshot_topics_ok [OF assms, of q]
  have "sorted_wrt (\<lambda>a b. compare_topic_weights a b \<noteq> Greater) (ds_topics (snapshot_of ws q))"
    unfolding snapshot_of_def by simp (rule topic_weight_order.sort_by_sorted [OF ok])
  then show ?thesis
    by (rule sorted_wrt_mono_rel [rotated])
      (use ok in \<open>force simp: compare_topic_weights_Greater set_ds_topics\<close>)
qed

end
