(* ===== verification/Derivation.thy ===== *)
theory Derivation
  imports Main Prelude Runtime Model MessageLog "HOL-Library.Word"
begin

text \<open>
  Cache identities and derived output (core crate: \<open>cache.rs\<close>, \<open>derivation.rs\<close>): the key of a
  message, the version of a derivation, the derivation of one conversation and the port that
  caches it. \<open>DefaultHasher\<close> does not document its algorithm, so the hash of a byte stream is
  the argument \<open>hasher\<close>; what is fed to it is modelled byte by byte (a \<open>str\<close> writes its bytes
  and then \<open>0xFF\<close>, which no UTF-8 string contains).
\<close>

section \<open>Hashing\<close>

type_synonym hash_function = "string \<Rightarrow> 64 word"

definition str_bytes :: "string \<Rightarrow> string" where
  "str_bytes s = s @ [CHR 0xFF]"

definition utf8 :: "string \<Rightarrow> bool" where
  "utf8 s = (CHR 0xFF \<notin> set s)"

definition hex_digit :: "nat \<Rightarrow> char" where
  "hex_digit d = (if d < 10 then char_of (48 + d) else char_of (87 + d))"

text \<open>\<open>{:016x}\<close>: sixteen lower-case digits, most significant first.\<close>

definition hex16 :: "64 word \<Rightarrow> string" where
  "hex16 w = map (\<lambda>i. hex_digit (unat w div 16 ^ (15 - i) mod 16)) [0..<16]"

definition message_bytes :: "message_envelope \<Rightarrow> string" where
  "message_bytes m = str_bytes (message_id_str (env_id m)) @ str_bytes (env_body m)"

definition message_cache_key :: "hash_function \<Rightarrow> message_envelope \<Rightarrow> string" where
  "message_cache_key hasher m = hex16 (hasher (message_bytes m))"

lemma hex_digit_inj: "d < 16 \<Longrightarrow> e < 16 \<Longrightarrow> hex_digit d = hex_digit e \<Longrightarrow> d = e"
proof -
  assume "d < 16" "e < 16" "hex_digit d = hex_digit e"
  moreover have "(of_char (hex_digit n) :: nat) = (if n < 10 then 48 + n else 87 + n)" if "n < 16" for n
    using that by (simp add: hex_digit_def)
  ultimately have "(if d < 10 then 48 + d else 87 + d) = (if e < 10 then 48 + e else 87 + e)" by metis
  then show "d = e" using \<open>d < 16\<close> \<open>e < 16\<close> by (auto split: if_splits)
qed

lemma digits_eq:
  "m < 16 ^ k \<Longrightarrow> n < 16 ^ k \<Longrightarrow> (\<And>i. i < k \<Longrightarrow> m div 16 ^ i mod 16 = n div 16 ^ i mod 16) \<Longrightarrow>
    m = (n :: nat)"
proof (induction k arbitrary: m n)
  case (Suc k)
  have "m div 16 = n div 16"
  proof (rule Suc.IH)
    show "m div 16 < 16 ^ k" "n div 16 < 16 ^ k"
      using Suc.prems(1,2) by (simp_all add: less_mult_imp_div_less mult.commute)
    show "m div 16 div 16 ^ i mod 16 = n div 16 div 16 ^ i mod 16" if "i < k" for i
      using Suc.prems(3) [of "Suc i"] that by (simp add: div_mult2_eq)
  qed
  moreover have "m mod 16 = n mod 16" using Suc.prems(3) [of 0] by simp
  ultimately show ?case by (metis div_mult_mod_eq)
qed simp

lemma hex16_inj: "hex16 v = hex16 w \<longleftrightarrow> v = w"
proof
  assume eq: "hex16 v = hex16 w"
  have digits: "unat v div 16 ^ i mod 16 = unat w div 16 ^ i mod 16" if "i < 16" for i
  proof -
    have j: "15 - i < 16" "15 - (15 - i) = i" using that by simp_all
    have "hex16 u ! (15 - i) = hex_digit (unat u div 16 ^ i mod 16)" for u
      using j by (simp add: hex16_def)
    with eq have "hex_digit (unat v div 16 ^ i mod 16) = hex_digit (unat w div 16 ^ i mod 16)" by metis
    then show ?thesis by (intro hex_digit_inj) simp_all
  qed
  have bound: "unat u < 16 ^ 16" for u :: "64 word"
  proof -
    have "unat u < 2 ^ LENGTH(64)" by (rule unsigned_less)
    then show ?thesis by simp
  qed
  have "unat v = unat w" by (rule digits_eq [OF bound bound digits])
  then show "v = w" by (rule unsigned_word_eqI)
qed simp

lemma split_at_ff:
  "utf8 s \<Longrightarrow> utf8 t \<Longrightarrow> str_bytes s @ xs = str_bytes t @ ys \<Longrightarrow> s = t \<and> xs = ys"
proof (induction s arbitrary: t)
  case Nil
  then show ?case by (cases t) (auto simp: str_bytes_def utf8_def)
next
  case (Cons c s)
  then show ?case by (cases t) (auto simp: str_bytes_def utf8_def)
qed

definition message_utf8 :: "message_envelope \<Rightarrow> bool" where
  "message_utf8 m = (utf8 (message_id_str (env_id m)) \<and> utf8 (env_body m))"

lemma message_bytes_split:
  assumes "message_utf8 m" and "message_utf8 n" and "message_bytes m @ xs = message_bytes n @ ys"
  shows "env_id m = env_id n \<and> env_body m = env_body n \<and> xs = ys"
proof -
  have "str_bytes (message_id_str (env_id m)) @ (str_bytes (env_body m) @ xs) =
      str_bytes (message_id_str (env_id n)) @ (str_bytes (env_body n) @ ys)"
    using assms(3) by (simp add: message_bytes_def)
  then show ?thesis
    using split_at_ff assms(1,2) unfolding message_utf8_def by (metis message_id.expand)
qed

lemma message_bytes_nonempty: "message_bytes m \<noteq> []"
  by (simp add: message_bytes_def str_bytes_def)

text \<open>The byte stream of a list of messages determines every id and every body in it.\<close>

lemma message_stream_inj:
  "\<forall>m\<in>set ms. message_utf8 m \<Longrightarrow> \<forall>m\<in>set ns. message_utf8 m \<Longrightarrow>
    concat (map message_bytes ms) = concat (map message_bytes ns) \<Longrightarrow>
    map (\<lambda>m. (env_id m, env_body m)) ms = map (\<lambda>m. (env_id m, env_body m)) ns"
proof (induction ms arbitrary: ns)
  case Nil
  then show ?case by (cases ns) (auto simp: message_bytes_nonempty)
next
  case (Cons m ms)
  then obtain n ns' where ns: "ns = n # ns'"
    by (cases ns) (auto simp: message_bytes_nonempty)
  have "env_id m = env_id n \<and> env_body m = env_body n \<and>
      concat (map message_bytes ms) = concat (map message_bytes ns')"
    using Cons.prems ns by (intro message_bytes_split) simp_all
  with Cons.IH [of ns'] Cons.prems ns show ?case by simp
qed

lemma message_cache_key_eq:
  assumes "message_utf8 m" and "message_utf8 n"
    and "inj_on hasher {message_bytes m, message_bytes n}"
  shows "message_cache_key hasher m = message_cache_key hasher n \<longleftrightarrow>
    env_id m = env_id n \<and> env_body m = env_body n"
proof -
  have "message_cache_key hasher m = message_cache_key hasher n \<longleftrightarrow> message_bytes m = message_bytes n"
    using inj_on_eq_iff [OF assms(3), of "message_bytes m" "message_bytes n"]
    by (simp add: message_cache_key_def hex16_inj)
  also have "\<dots> \<longleftrightarrow> env_id m = env_id n \<and> env_body m = env_body n"
  proof
    assume "message_bytes m = message_bytes n"
    then have "message_bytes m @ [] = message_bytes n @ []" by (simp only:)
    from message_bytes_split [OF assms(1,2) this]
    show "env_id m = env_id n \<and> env_body m = env_body n" by (elim conjE, intro conjI)
  qed (simp add: message_bytes_def)
  finally show ?thesis .
qed

section \<open>Derivations\<close>

definition derivation_schema_version :: string where
  "derivation_schema_version = ''1''"

definition derivation_version :: "string \<Rightarrow> step_version \<Rightarrow> step_version" where
  "derivation_version strategy projector =
     StepVersion (derivation_schema_version @ '':'' @ strategy @ '':'' @ version_str projector)"

record conversation_derivation =
  cd_conversation :: conversation_id
  cd_projections :: "projection list"
  cd_scope :: "scope option"
  cd_warmup :: warmup_document
  cd_developers :: "session_developers option"
  cd_hints :: "routing_hint list"

definition derivation_eq :: "conversation_derivation \<Rightarrow> conversation_derivation \<Rightarrow> bool" where
  "derivation_eq a b =
     (cd_conversation a = cd_conversation b \<and>
      list_all2 projection_eq (cd_projections a) (cd_projections b) \<and>
      option_eq scope_eq (cd_scope a) (cd_scope b) \<and>
      cd_warmup a = cd_warmup b \<and>
      option_eq session_developers_eq (cd_developers a) (cd_developers b) \<and>
      list_all2 routing_hint_eq (cd_hints a) (cd_hints b))"

lemma split_at_colon:
  "CHR '':'' \<notin> set s \<Longrightarrow> CHR '':'' \<notin> set t \<Longrightarrow> s @ CHR '':'' # xs = t @ CHR '':'' # ys \<Longrightarrow>
    s = t \<and> xs = ys"
proof (induction s arbitrary: t)
  case Nil
  then show ?case by (cases t) auto
next
  case (Cons c s)
  then show ?case by (cases t) auto
qed

text \<open>A version determines strategy and projector as long as strategy ids carry no colon.\<close>

lemma derivation_version_inj:
  assumes "CHR '':'' \<notin> set s" and "CHR '':'' \<notin> set t"
  shows "derivation_version s p = derivation_version t q \<longleftrightarrow> s = t \<and> p = q"
  using split_at_colon [OF assms]
  by (auto simp: derivation_version_def derivation_schema_version_def intro: step_version.expand)

section \<open>The port of the derived-output cache\<close>

text \<open>
  \<open>reclaim_superseded\<close> may drop entries of the conversation it is called for, but never the one
  it is told to keep, and never another conversation's.
\<close>

text \<open>
  A durable cache keeps text, so what is read need not be what was written: \<open>reads d e\<close> says that \<open>e\<close>
  comes back when \<open>d\<close> was put in.
\<close>

locale reading_cache =
  fixes get :: "'c \<Rightarrow> step_version \<Rightarrow> conversation_id \<Rightarrow> string \<Rightarrow> conversation_derivation option"
    and put :: "'c \<Rightarrow> step_version \<Rightarrow> conversation_id \<Rightarrow> string \<Rightarrow> conversation_derivation \<Rightarrow> 'c"
    and reclaim :: "'c \<Rightarrow> conversation_id \<Rightarrow> step_version \<Rightarrow> string \<Rightarrow> 'c"
    and ok :: "'c \<Rightarrow> bool"
    and reads :: "conversation_derivation \<Rightarrow> conversation_derivation \<Rightarrow> bool"
  assumes ok_put: "ok c \<Longrightarrow> reads d e \<Longrightarrow> ok (put c v i x d)"
    and ok_reclaim: "ok c \<Longrightarrow> ok (reclaim c i v x)"
    and get_put: "ok c \<Longrightarrow> reads d e \<Longrightarrow>
      get (put c v i x d) v' i' x' = (if (v', i', x') = (v, i, x) then Some e else get c v' i' x')"
    and reclaim_keeps: "ok c \<Longrightarrow> i' \<noteq> i \<or> (v', x') = (v, x) \<Longrightarrow>
      get (reclaim c i v x) v' i' x' = get c v' i' x'"
    and reclaim_shrinks: "ok c \<Longrightarrow> get (reclaim c i v x) v' i' x' = Some d \<Longrightarrow> get c v' i' x' = Some d"
begin

text \<open>One delivery: the entry is there, and other conversations are as before.\<close>

lemma deliver:
  assumes "ok c" and "reads d e"
  shows "ok (reclaim (put c v i x d) i v x)"
    and "get (reclaim (put c v i x d) i v x) v i x = Some e"
    and "i' \<noteq> i \<Longrightarrow> get (reclaim (put c v i x d) i v x) v' i' x' = get c v' i' x'"
  using assms by (simp_all add: ok_put ok_reclaim get_put reclaim_keeps)

end

text \<open>The contract the commands rely on: what is \<open>storable\<close> comes back unchanged.\<close>

locale derived_cache =
  fixes get :: "'c \<Rightarrow> step_version \<Rightarrow> conversation_id \<Rightarrow> string \<Rightarrow> conversation_derivation option"
    and put :: "'c \<Rightarrow> step_version \<Rightarrow> conversation_id \<Rightarrow> string \<Rightarrow> conversation_derivation \<Rightarrow> 'c"
    and reclaim :: "'c \<Rightarrow> conversation_id \<Rightarrow> step_version \<Rightarrow> string \<Rightarrow> 'c"
    and ok :: "'c \<Rightarrow> bool"
    and storable :: "conversation_derivation \<Rightarrow> bool"
  assumes ok_put: "ok c \<Longrightarrow> storable d \<Longrightarrow> ok (put c v i x d)"
    and ok_reclaim: "ok c \<Longrightarrow> ok (reclaim c i v x)"
    and get_put: "ok c \<Longrightarrow> storable d \<Longrightarrow>
      get (put c v i x d) v' i' x' = (if (v', i', x') = (v, i, x) then Some d else get c v' i' x')"
    and reclaim_keeps: "ok c \<Longrightarrow> i' \<noteq> i \<or> (v', x') = (v, x) \<Longrightarrow>
      get (reclaim c i v x) v' i' x' = get c v' i' x'"
    and reclaim_shrinks: "ok c \<Longrightarrow> get (reclaim c i v x) v' i' x' = Some d \<Longrightarrow> get c v' i' x' = Some d"

sublocale derived_cache \<subseteq> reading: reading_cache get put reclaim ok "\<lambda>d e. storable d \<and> e = d"
  by unfold_locales (auto simp: ok_put ok_reclaim get_put reclaim_keeps dest: reclaim_shrinks)

section \<open>The in-memory cache\<close>

type_synonym mem_derived_cache = "(string \<times> string \<times> string) \<rightharpoonup> conversation_derivation"

definition derived_new :: mem_derived_cache where
  "derived_new = Map.empty"

definition derived_key :: "step_version \<Rightarrow> conversation_id \<Rightarrow> string \<Rightarrow> string \<times> string \<times> string" where
  "derived_key version conversation content =
     (version_str version, conversation_id_str conversation, content)"

definition derived_get ::
  "mem_derived_cache \<Rightarrow> step_version \<Rightarrow> conversation_id \<Rightarrow> string \<Rightarrow> conversation_derivation option" where
  "derived_get c version conversation content = c (derived_key version conversation content)"

definition derived_put ::
  "mem_derived_cache \<Rightarrow> step_version \<Rightarrow> conversation_id \<Rightarrow> string \<Rightarrow> conversation_derivation \<Rightarrow>
   mem_derived_cache" where
  "derived_put c version conversation content d = c(derived_key version conversation content \<mapsto> d)"

definition derived_reclaim ::
  "mem_derived_cache \<Rightarrow> conversation_id \<Rightarrow> step_version \<Rightarrow> string \<Rightarrow> mem_derived_cache" where
  "derived_reclaim c conversation keep_version keep_content = c"

lemma derived_key_inj:
  "derived_key v i x = derived_key v' i' x' \<longleftrightarrow> v = v' \<and> i = i' \<and> x = x'"
  by (auto simp: derived_key_def intro: step_version.expand conversation_id.expand)

interpretation mem_derived: derived_cache derived_get derived_put derived_reclaim "\<lambda>_. True" "\<lambda>_. True"
  by unfold_locales (auto simp: derived_get_def derived_put_def derived_reclaim_def derived_key_inj)

end
