(* ===== verification/Jobs.thy ===== *)
theory Jobs
  imports Main Prelude Runtime Model MessageLog Stores Routing Mock ScopeWarmup Skill HintDev
begin

text \<open>
  The worker crate's jobs (\<open>lib.rs\<close>) and the stage runner (\<open>composition.rs\<close>). A handler takes the
  state it may change and a payload, and says how it ended. Worklane is not part of the
  repository: a stage is given the sequence in which the broker delivers the payloads, of
  which only what Worklane documents is ever assumed: every payload is delivered at least
  once, and nothing else is delivered.
\<close>

datatype handler_result = HOk | HErr string | HPanic

type_synonym ('st, 'p) handler = "'st \<Rightarrow> 'p \<Rightarrow> handler_result \<times> 'st"

section \<open>The ports a strategy is wired from\<close>

record 's strategy_context =
  ctx_projector :: "('s, message_envelope, projection) step"
  ctx_scoper :: "conversation_id \<Rightarrow> projection list \<Rightarrow> scope"
  ctx_builder :: "conversation_id \<Rightarrow> scope option \<Rightarrow> projection list \<Rightarrow> warmup_document"
  ctx_skill_builder :: "skill_contribution list \<Rightarrow> skill_index"
  ctx_hinter :: "projection \<Rightarrow> topic_ownership list \<Rightarrow> routing_hint"
  ctx_snapshotter ::
    "conversation_id \<Rightarrow> participant list \<Rightarrow> topic_ownership list \<Rightarrow> session_developers"

section \<open>The jobs\<close>

definition process_message_run ::
  "('s, message_envelope, projection) step \<Rightarrow> (projection_store \<times> 's, message_envelope) handler" where
  "process_message_run projector st message =
     (case st_run projector (snd st) message of
        (None, s') \<Rightarrow> (HPanic, (fst st, s'))
      | (Some p, s') \<Rightarrow> (HOk, (projection_store_upsert (fst st) p, s')))"

definition stored_projections :: "projection_store \<Rightarrow> message_id list \<Rightarrow> projection list" where
  "stored_projections projections ids = List.map_filter (projection_store_get projections) ids"

definition build_scope_run ::
  "(conversation_id \<Rightarrow> projection list \<Rightarrow> scope) \<Rightarrow> projection_store \<Rightarrow>
   (scope_store, scope_request) handler" where
  "build_scope_run scoper projections scopes request =
     (HOk, scope_store_upsert scopes
        (scoper (sreq_conversation request) (stored_projections projections (sreq_messages request))))"

definition build_warmup_run ::
  "(conversation_id \<Rightarrow> scope option \<Rightarrow> projection list \<Rightarrow> warmup_document) \<Rightarrow> projection_store \<Rightarrow>
   scope_store \<Rightarrow> (warmup_store, warmup_request) handler" where
  "build_warmup_run builder projections scopes warmups request =
     (HOk, warmup_store_upsert warmups
        (builder (wreq_conversation request)
           (scope_store_get scopes (wreq_conversation request))
           (stored_projections projections (wreq_messages request))))"

definition contribution_of :: "projection_store \<Rightarrow> skill_entry \<Rightarrow> skill_contribution option" where
  "contribution_of projections entry =
     map_option (\<lambda>p.
       \<lparr>sk_author = se_author entry, sk_display_name = se_display_name entry,
        sk_topics = proj_topics p, sk_confidence = proj_confidence p\<rparr>)
       (projection_store_get projections (se_message entry))"

definition build_skill_run ::
  "(skill_contribution list \<Rightarrow> skill_index) \<Rightarrow> projection_store \<Rightarrow> (skill_store, skill_request) handler" where
  "build_skill_run builder projections skills request =
     (let contributions = List.map_filter (contribution_of projections) (skreq_entries request);
          index = builder contributions in
      (HOk, fold (\<lambda>w s. skill_store_upsert s w) (si_ownerships index) skills))"

text \<open>The routing job stops at the first consumer that fails.\<close>

fun route_loop ::
  "rule_router \<Rightarrow> projection_store \<Rightarrow> 'w consumer_registry \<Rightarrow>
   routing_store \<times> routing_trace_store \<times> 'w \<Rightarrow> message_id list \<Rightarrow>
   handler_result \<times> (routing_store \<times> routing_trace_store \<times> 'w)" where
  "route_loop router projections registry st [] = (HOk, st)"
| "route_loop router projections registry (routes, traces, w) (i # is) =
     (case projection_store_get projections i of
        None \<Rightarrow> route_loop router projections registry (routes, traces, w) is
      | Some p \<Rightarrow>
          (let (decision, trace) = router_route router p;
               traces' = routing_trace_store_upsert traces trace;
               routes' = routing_store_upsert routes decision in
           case registry_dispatch registry w decision p of
             (Inl e, w') \<Rightarrow> (HErr (consumer_error_display e), (routes', traces', w'))
           | (Inr _, w') \<Rightarrow> route_loop router projections registry (routes', traces', w') is))"

definition route_run ::
  "rule_router \<Rightarrow> projection_store \<Rightarrow> 'w consumer_registry \<Rightarrow>
   (routing_store \<times> routing_trace_store \<times> 'w, routing_request) handler" where
  "route_run router projections registry st request =
     route_loop router projections registry st (rreq_messages request)"

definition hint_for ::
  "(projection \<Rightarrow> topic_ownership list \<Rightarrow> routing_hint) \<Rightarrow> projection_store \<Rightarrow> skill_store \<Rightarrow>
   message_id \<Rightarrow> routing_hint option" where
  "hint_for hinter projections skills i =
     map_option (\<lambda>p. hinter p (List.map_filter (skill_store_get skills) (proj_topics p)))
       (projection_store_get projections i)"

definition build_routing_hint_run ::
  "(projection \<Rightarrow> topic_ownership list \<Rightarrow> routing_hint) \<Rightarrow> projection_store \<Rightarrow> skill_store \<Rightarrow>
   (routing_hint_store, routing_hint_request) handler" where
  "build_routing_hint_run hinter projections skills hints request =
     (HOk, fold (\<lambda>i s. case hint_for hinter projections skills i of
          None \<Rightarrow> s | Some h \<Rightarrow> routing_hint_store_upsert s h) (hreq_messages request) hints)"

text \<open>The session's topics, each the first time it is seen, and their ownerships.\<close>

fun collect_topics ::
  "skill_store \<Rightarrow> topic list \<Rightarrow> string set \<times> topic_ownership list \<Rightarrow> string set \<times> topic_ownership list" where
  "collect_topics skills [] acc = acc"
| "collect_topics skills (t # ts) (seen, ownerships) =
     (if topic_str t \<in> seen then collect_topics skills ts (seen, ownerships)
      else case skill_store_get skills t of
          None \<Rightarrow> collect_topics skills ts (insert (topic_str t) seen, ownerships)
        | Some w \<Rightarrow> collect_topics skills ts (insert (topic_str t) seen, ownerships @ [w]))"

fun collect_messages ::
  "projection_store \<Rightarrow> skill_store \<Rightarrow> message_id list \<Rightarrow> string set \<times> topic_ownership list \<Rightarrow>
   string set \<times> topic_ownership list" where
  "collect_messages projections skills [] acc = acc"
| "collect_messages projections skills (i # is) acc =
     (case projection_store_get projections i of
        None \<Rightarrow> collect_messages projections skills is acc
      | Some p \<Rightarrow> collect_messages projections skills is (collect_topics skills (proj_topics p) acc))"

definition build_developer_snapshot_run ::
  "(conversation_id \<Rightarrow> participant list \<Rightarrow> topic_ownership list \<Rightarrow> session_developers) \<Rightarrow>
   projection_store \<Rightarrow> skill_store \<Rightarrow> (developer_store, developer_snapshot_request) handler" where
  "build_developer_snapshot_run snapshotter projections skills developers request =
     (let (_, ownerships) = collect_messages projections skills (dreq_messages request) ({}, []) in
      (HOk, developer_store_upsert developers
         (snapshotter (dreq_conversation request) (dreq_participants request) ownerships)))"

section \<open>Stages\<close>

text \<open>
  \<open>deliveries n\<close> is the order in which the broker hands \<open>n\<close> enqueued payloads to the worker. A
  job that fails or panics is retried and in the end dead-lettered, and the stage goes on; a
  retry is one more delivery.
\<close>

type_synonym deliveries = "nat \<Rightarrow> nat list"

definition at_least_once :: "deliveries \<Rightarrow> bool" where
  "at_least_once d \<longleftrightarrow> (\<forall>n. set (d n) = {..<n})"

definition in_order :: deliveries where
  "in_order n = [0..<n]"

lemma at_least_once_in_order: "at_least_once in_order"
  by (auto simp: at_least_once_def in_order_def)

definition run_stage :: "deliveries \<Rightarrow> ('st, 'p) handler \<Rightarrow> 'p list \<Rightarrow> 'st \<Rightarrow> 'st" where
  "run_stage d handler payloads st =
     fold (\<lambda>i st. snd (handler st (payloads ! i))) (d (length payloads)) st"

definition per_message :: "message_envelope list \<Rightarrow> (message_envelope \<Rightarrow> 'p) \<Rightarrow> 'p list" where
  "per_message messages build = map build messages"

definition per_conversation ::
  "(conversation_id \<times> message_id list) list \<Rightarrow> (conversation_id \<Rightarrow> message_id list \<Rightarrow> 'p) \<Rightarrow> 'p list" where
  "per_conversation conversations build = map (\<lambda>(c, is). build c is) conversations"

definition global :: "'p \<Rightarrow> 'p list" where
  "global payload = [payload]"

definition delivered :: "deliveries \<Rightarrow> 'p list \<Rightarrow> 'p list" where
  "delivered d payloads = map (\<lambda>i. payloads ! i) (d (length payloads))"

lemma run_stage_delivered:
  "run_stage d handler payloads st = fold (\<lambda>p st. snd (handler st p)) (delivered d payloads) st"
  by (simp add: run_stage_def delivered_def fold_map comp_def)

lemma set_delivered: "at_least_once d \<Longrightarrow> set (delivered d payloads) = set payloads"
  by (auto simp: delivered_def at_least_once_def in_set_conv_nth)

text \<open>
  A stage whose handler upserts a fixed list of values per payload leaves the same store
  whatever the broker does.
\<close>

lemma fold_values: "fold (\<lambda>p s. fold f (g p) s) ps s = fold f (concat (map g ps)) s"
  by (induction ps arbitrary: s) simp_all

context keyed_store begin

lemma run_stage_upserts:
  assumes "at_least_once d"
    and "\<And>s p. snd (handler s p) = fold (\<lambda>v s. upsert s v) (vals p) s"
    and "consistent_writes key id (\<Union>p\<in>set payloads. set (vals p))"
  shows "run_stage d handler payloads s = fold (\<lambda>v s. upsert s v) (concat (map vals payloads)) s"
proof -
  have "run_stage d handler payloads s =
      fold (\<lambda>v s. upsert s v) (concat (map vals (delivered d payloads))) s"
    by (simp add: run_stage_delivered assms(2) fold_values)
  also have "\<dots> = fold (\<lambda>v s. upsert s v) (concat (map vals payloads)) s"
    using fold_upsert_order_free [of id "concat (map vals payloads)"
        "concat (map vals (delivered d payloads))" s] assms(3)
    by (simp add: set_delivered [OF assms(1)])
  finally show ?thesis .
qed

text \<open>The store of a stage, looked up: some value of some payload, or what was there.\<close>

lemma get_upserts:
  assumes "consistent_writes key id (set vs)"
  shows "v \<in> set vs \<Longrightarrow> get (fold (\<lambda>v s. upsert s v) vs s) (key v) = Some v"
    and "k \<notin> key ` set vs \<Longrightarrow> get (fold (\<lambda>v s. upsert s v) vs s) k = get s k"
proof -
  have eq: "fold (\<lambda>v s. upsert s v) vs s = upsert_all key id vs s"
    using fold_upsert [of id vs s] by (simp add: comp_def)
  show "get (fold (\<lambda>v s. upsert s v) vs s) (key v) = Some v" if "v \<in> set vs"
    using upsert_all_lookup [OF assms that] by (simp add: eq get_apply)
  show "get (fold (\<lambda>v s. upsert s v) vs s) k = get s k" if "k \<notin> key ` set vs"
    using upsert_all_other [OF that] by (simp add: eq get_apply)
qed

end

section \<open>Topics of a session\<close>

definition session_topics :: "projection_store \<Rightarrow> message_id list \<Rightarrow> topic list" where
  "session_topics projections ids = concat (map proj_topics (stored_projections projections ids))"

fun first_seen :: "string set \<Rightarrow> topic list \<Rightarrow> topic list" where
  "first_seen seen [] = []"
| "first_seen seen (t # ts) =
     (if topic_str t \<in> seen then first_seen seen ts else t # first_seen (insert (topic_str t) seen) ts)"

lemma first_seen_append:
  "first_seen seen (xs @ ys) = first_seen seen xs @ first_seen (seen \<union> topic_str ` set xs) ys"
  by (induction xs arbitrary: seen) (auto simp: insert_absorb)

lemma set_first_seen: "set (first_seen seen ts) = {t \<in> set ts. topic_str t \<notin> seen}"
  by (induction ts arbitrary: seen) (auto dest: topic.expand)

lemma distinct_first_seen: "distinct (first_seen seen ts)"
  by (induction ts arbitrary: seen) (auto simp: set_first_seen)

lemma collect_topics_eq:
  "collect_topics skills ts (seen, ws) =
    (seen \<union> topic_str ` set ts, ws @ List.map_filter (skill_store_get skills) (first_seen seen ts))"
  by (induction ts arbitrary: seen ws) (auto simp: List.map_filter_simps insert_absorb split: option.split)

lemma map_filter_append [simp]: "List.map_filter f (xs @ ys) = List.map_filter f xs @ List.map_filter f ys"
  by (simp add: List.map_filter_def)

lemma collect_messages_eq:
  "collect_messages projections skills ids (seen, ws) =
    (seen \<union> topic_str ` set (session_topics projections ids),
     ws @ List.map_filter (skill_store_get skills) (first_seen seen (session_topics projections ids)))"
proof (induction ids arbitrary: seen ws)
  case (Cons i ids)
  then show ?case
    by (auto simp: collect_topics_eq session_topics_def stored_projections_def
        List.map_filter_simps first_seen_append split: option.split)
qed (simp add: session_topics_def stored_projections_def List.map_filter_simps)

lemma build_developer_snapshot_eq:
  "build_developer_snapshot_run snapshotter projections skills developers request =
    (HOk, developer_store_upsert developers
      (snapshotter (dreq_conversation request) (dreq_participants request)
        (List.map_filter (skill_store_get skills)
          (first_seen {} (session_topics projections (dreq_messages request))))))"
  by (simp add: build_developer_snapshot_run_def collect_messages_eq)

section \<open>The routing job\<close>

text \<open>A message with no stored projection is skipped, whatever its place in the request.\<close>

lemma route_loop_skips:
  "route_loop router projections registry st is =
    route_loop router projections registry st (filter (\<lambda>i. projection_store_get projections i \<noteq> None) is)"
  by (induction router projections registry st "is" rule: route_loop.induct)
    (auto simp: Let_def split: option.splits prod.splits sum.splits)

definition routed :: "rule_router \<Rightarrow> projection_store \<Rightarrow> message_id \<Rightarrow> routing_decision option" where
  "routed router projections i =
     map_option (\<lambda>p. fst (router_route router p)) (projection_store_get projections i)"

text \<open>A projection store is sound when every entry sits under its own id.\<close>

definition projections_sound :: "projection_store \<Rightarrow> bool" where
  "projections_sound ps \<longleftrightarrow> (\<forall>i p. ps i = Some p \<longrightarrow> proj_message_id p = i)"

lemma route_loop_ok:
  assumes "projections_sound projections"
    and "route_loop router projections registry (routes, traces, w) is = (HOk, (routes', traces', w'))"
  shows "routing_store_get routes' i =
    (if i \<in> set is \<and> projection_store_get projections i \<noteq> None then routed router projections i
     else routing_store_get routes i)"
  using assms(2)
proof (induction "is" arbitrary: routes traces w)
  case (Cons j "is")
  show ?case
  proof (cases "projection_store_get projections j")
    case None
    with Cons show ?thesis by auto
  next
    case (Some p)
    then have j: "proj_message_id p = j"
      using assms(1) by (simp add: projections_sound_def projection_store_get_def)
    obtain decision trace where dt: "router_route router p = (decision, trace)" by fastforce
    then have id: "dec_message_id decision = j" using route_ids(1) [of router p] j by simp
    from Cons.prems Some dt obtain w1 where
      "route_loop router projections registry
        (routing_store_upsert routes decision, routing_trace_store_upsert traces trace, w1) is =
        (HOk, (routes', traces', w'))"
      by (auto simp: Let_def split: prod.splits sum.splits)
    from Cons.IH [OF this] show ?thesis
      using Some dt id by (auto simp: routed_def routing_st.get_upsert)
  qed
qed simp

end
