(* ===== verification/Replay.thy ===== *)
theory Replay
  imports Main Prelude Runtime Model MessageLog Stores Skill HintDev Mock ScopeWarmup Derivation Jobs
begin

text \<open>
  The reference strategy (\<open>crates/mirrorlane-worker/src/replay.rs\<close>): six stages that derive every
  store from the message log. \<open>replay_run\<close> is the code, with the deliveries of each stage as an
  argument; \<open>phases_spec\<close> is what it computes, with no broker in it. The two agree for every
  at-least-once delivery, which is the determinism of replay.
\<close>

section \<open>Grouping the log\<close>

text \<open>\<open>f\<close> is what is kept of a message: its id in \<open>group_by_conversation\<close>, the message itself in
  \<open>populate_cache\<close>.\<close>

fun group_loop ::
  "(message_envelope \<Rightarrow> 'a) \<Rightarrow> message_envelope list \<Rightarrow>
   conversation_id list \<times> (conversation_id \<rightharpoonup> 'a list) \<Rightarrow>
   conversation_id list \<times> (conversation_id \<rightharpoonup> 'a list)" where
  "group_loop f [] acc = acc"
| "group_loop f (m # ms) (order, grouped) =
     (let c = conversation_of m;
          order' = (if grouped c = None then order @ [c] else order) in
      group_loop f ms (order', grouped(c \<mapsto> or_empty (grouped c) @ [f m])))"

fun take_groups :: "conversation_id list \<Rightarrow> (conversation_id \<rightharpoonup> 'a list) \<Rightarrow> (conversation_id \<times> 'a list) list" where
  "take_groups [] grouped = []"
| "take_groups (c # cs) grouped = (c, or_empty (grouped c)) # take_groups cs (grouped(c := None))"

definition group_by_conversation :: "message_envelope list \<Rightarrow> (conversation_id \<times> message_id list) list" where
  "group_by_conversation messages =
     (let (order, grouped) = group_loop env_id messages ([], Map.empty) in take_groups order grouped)"

fun participants_loop ::
  "message_envelope list \<Rightarrow> (conversation_id \<rightharpoonup> (string, string) btree_map) \<Rightarrow>
   (conversation_id \<rightharpoonup> (string, string) btree_map)" where
  "participants_loop [] by_conversation = by_conversation"
| "participants_loop (m # ms) by_conversation =
     (let c = conversation_of m in
      participants_loop ms
        (by_conversation(c \<mapsto>
          bt_update (author_id_str (au_id (env_author m))) (\<lambda>_. au_display_name (env_author m))
            (or_empty (by_conversation c)))))"

definition participants_by_conversation ::
  "message_envelope list \<Rightarrow> (conversation_id \<rightharpoonup> participant list)" where
  "participants_by_conversation messages =
     (\<lambda>c. map_option (map (\<lambda>(a, n). \<lparr>pt_author = AuthorId a, pt_display_name = n\<rparr>))
        (participants_loop messages Map.empty c))"

section \<open>The strategy\<close>

record replay_stores =
  rs_projections :: projection_store
  rs_scopes :: scope_store
  rs_warmups :: warmup_store
  rs_skills :: skill_store
  rs_hints :: routing_hint_store
  rs_developers :: developer_store

definition skill_entries :: "message_envelope list \<Rightarrow> skill_entry list" where
  "skill_entries messages =
     map (\<lambda>m. \<lparr>se_author = au_id (env_author m), se_display_name = au_display_name (env_author m),
                se_message = env_id m\<rparr>) messages"

text \<open>Phases two to six, over the projections that phase one left.\<close>

definition replay_phases ::
  "'s strategy_context \<Rightarrow> (nat \<Rightarrow> deliveries) \<Rightarrow> message_envelope list \<Rightarrow> projection_store \<Rightarrow> replay_stores" where
  "replay_phases ctx d messages projections =
     (let conversations = group_by_conversation messages;
          scopes = run_stage (d 2) (build_scope_run (ctx_scoper ctx) projections)
            (per_conversation conversations (\<lambda>c ids. \<lparr>sreq_conversation = c, sreq_messages = ids\<rparr>))
            store_new;
          warmups = run_stage (d 3) (build_warmup_run (ctx_builder ctx) projections scopes)
            (per_conversation conversations (\<lambda>c ids. \<lparr>wreq_conversation = c, wreq_messages = ids\<rparr>))
            store_new;
          skills = run_stage (d 4) (build_skill_run (ctx_skill_builder ctx) projections)
            (global \<lparr>skreq_entries = skill_entries messages\<rparr>) store_new;
          hints = run_stage (d 5) (build_routing_hint_run (ctx_hinter ctx) projections skills)
            (global \<lparr>hreq_messages = map env_id messages\<rparr>) store_new;
          participants = participants_by_conversation messages;
          developers = run_stage (d 6) (build_developer_snapshot_run (ctx_snapshotter ctx) projections skills)
            (per_conversation conversations (\<lambda>c ids.
               \<lparr>dreq_conversation = c, dreq_participants = or_empty (participants c), dreq_messages = ids\<rparr>))
            store_new in
      \<lparr>rs_projections = projections, rs_scopes = scopes, rs_warmups = warmups, rs_skills = skills,
       rs_hints = hints, rs_developers = developers\<rparr>)"

definition replay_run ::
  "'s strategy_context \<Rightarrow> (nat \<Rightarrow> deliveries) \<Rightarrow> message_envelope list \<Rightarrow> 's \<Rightarrow> replay_stores \<times> 's" where
  "replay_run ctx d messages s =
     (let (projections, s') = run_stage (d 1) (process_message_run (ctx_projector ctx))
            (per_message messages (\<lambda>m. m)) (store_new, s) in
      (replay_phases ctx d messages projections, s'))"

section \<open>The specification\<close>

definition conversation_ids_of :: "message_envelope list \<Rightarrow> conversation_id \<Rightarrow> message_id list" where
  "conversation_ids_of messages c = map env_id (default_messages_for messages c)"

definition table :: "('k \<Rightarrow> 'v) \<Rightarrow> 'k list \<Rightarrow> ('k \<rightharpoonup> 'v)" where
  "table f ks = map_of (map (\<lambda>k. (k, f k)) ks)"

definition phases_spec ::
  "'s strategy_context \<Rightarrow> message_envelope list \<Rightarrow> projection_store \<Rightarrow> replay_stores" where
  "phases_spec ctx messages projections =
     (let cs = default_conversation_ids messages;
          ps = (\<lambda>c. stored_projections projections (conversation_ids_of messages c));
          scopes = table (\<lambda>c. ctx_scoper ctx c (ps c)) cs;
          warmups = table (\<lambda>c. ctx_builder ctx c (scopes c) (ps c)) cs;
          index = ctx_skill_builder ctx
            (List.map_filter (contribution_of projections) (skill_entries messages));
          skills = map_of (map (\<lambda>w. (own_topic w, w)) (si_ownerships index));
          hints = hint_for (ctx_hinter ctx) projections skills;
          developers = table (\<lambda>c. ctx_snapshotter ctx c
            (or_empty (participants_by_conversation messages c))
            (List.map_filter skills
              (first_seen {} (session_topics projections (conversation_ids_of messages c))))) cs in
      \<lparr>rs_projections = projections, rs_scopes = scopes, rs_warmups = warmups, rs_skills = skills,
       rs_hints = hints, rs_developers = developers\<rparr>)"

definition projections_of :: "(message_envelope \<Rightarrow> projection) \<Rightarrow> message_envelope list \<Rightarrow> projection_store" where
  "projections_of f messages = (\<lambda>i. map_option f (log_find i messages))"

section \<open>Grouping is right\<close>

lemma table_apply: "table f ks k = (if k \<in> set ks then Some (f k) else None)"
  by (induction ks) (auto simp: table_def)

lemma group_loop_eq:
  "\<forall>c. c \<in> set order \<longleftrightarrow> grouped c \<noteq> None \<Longrightarrow>
    group_loop f ms (order, grouped) =
      (conversation_ids_loop order ms,
       \<lambda>c. if default_messages_for ms c = [] then grouped c
           else Some (or_empty (grouped c) @ map f (default_messages_for ms c)))"
proof (induction ms arbitrary: order grouped)
  case Nil
  then show ?case by (simp add: default_messages_for_def)
next
  case (Cons m ms)
  let ?c = "conversation_of m"
  let ?order = "if grouped ?c = None then order @ [?c] else order"
  let ?grouped = "grouped(?c \<mapsto> or_empty (grouped ?c) @ [f m])"
  have inv: "\<forall>c. c \<in> set ?order \<longleftrightarrow> ?grouped c \<noteq> None" using Cons.prems by auto
  have step: "group_loop f (m # ms) (order, grouped) = group_loop f ms (?order, ?grouped)"
    by (simp add: Let_def)
  have mem: "?c \<in> set order \<longleftrightarrow> grouped ?c \<noteq> None" using Cons.prems by blast
  show ?case
    unfolding step Cons.IH [OF inv]
    by (intro prod_eqI ext) (auto simp: default_messages_for_def or_empty_def mem)
qed

lemma take_groups_eq:
  "distinct cs \<Longrightarrow> take_groups cs grouped = map (\<lambda>c. (c, or_empty (grouped c))) cs"
proof (induction cs arbitrary: grouped)
  case (Cons c cs)
  then show ?case by (auto intro: map_cong)
qed simp

lemma default_messages_empty:
  "default_messages_for ms c = [] \<longleftrightarrow> c \<notin> set (default_conversation_ids ms)"
  by (auto simp: default_messages_for_def filter_empty_conv)

lemma group_by_conversation_eq:
  "group_by_conversation ms = map (\<lambda>c. (c, conversation_ids_of ms c)) (default_conversation_ids ms)"
proof -
  have g: "group_loop env_id ms ([], Map.empty) =
      (default_conversation_ids ms, \<lambda>c. if default_messages_for ms c = [] then None
         else Some (map env_id (default_messages_for ms c)))"
    by (subst group_loop_eq) (auto simp: default_conversation_ids_def or_empty_def fun_eq_iff)
  show ?thesis
    unfolding group_by_conversation_def g
    by (simp add: take_groups_eq del: set_default_conversation_ids)
      (auto simp: default_messages_empty or_empty_def conversation_ids_of_def)
qed

text \<open>The participants of a conversation: its authors, each once, in ascending order.\<close>

lemma participants_loop_inv:
  "\<forall>c m. b c = Some m \<longrightarrow> bt_ordered m \<Longrightarrow>
    \<forall>c m. participants_loop ms b c = Some m \<longrightarrow> bt_ordered m"
proof (induction ms arbitrary: b)
  case (Cons x xs)
  let ?m = "bt_update (author_id_str (au_id (env_author x))) (\<lambda>_. au_display_name (env_author x))
    (or_empty (b (conversation_of x)))"
  have "bt_ordered (or_empty (b (conversation_of x)))"
    using Cons.prems by (cases "b (conversation_of x)") (simp_all add: or_empty_def)
  then have "bt_ordered ?m" by (rule bt_ordered_update)
  then have "\<forall>c m. (b(conversation_of x \<mapsto> ?m)) c = Some m \<longrightarrow> bt_ordered m"
    using Cons.prems by simp
  from Cons.IH [OF this] show ?case by (simp only: participants_loop.simps Let_def)
qed simp

lemma participants_loop_keys:
  "fst ` set (or_empty (participants_loop ms b c)) =
    fst ` set (or_empty (b c)) \<union> (\<lambda>m. author_id_str (au_id (env_author m))) ` set (default_messages_for ms c)"
  by (induction ms arbitrary: b)
    (auto simp: Let_def default_messages_for_def or_empty_def keys_bt_update split: option.split)

lemma participants_of:
  "pt_author ` set (or_empty (participants_by_conversation ms c)) =
    (au_id \<circ> env_author) ` set (default_messages_for ms c)"
  "distinct (map pt_author (or_empty (participants_by_conversation ms c)))"
proof -
  have "or_empty (map_option (map g) x) = map g (or_empty x)" for g :: "string \<times> string \<Rightarrow> participant" and x
    by (cases x) (simp_all add: or_empty_def)
  then have q: "or_empty (participants_by_conversation ms c) =
      map (\<lambda>(a, n). \<lparr>pt_author = AuthorId a, pt_display_name = n\<rparr>) (or_empty (participants_loop ms Map.empty c))"
    by (simp add: participants_by_conversation_def)
  have "pt_author ` set (or_empty (participants_by_conversation ms c)) =
      AuthorId ` fst ` set (or_empty (participants_loop ms Map.empty c))"
    by (force simp: q image_iff)
  also have "\<dots> = (au_id \<circ> env_author) ` set (default_messages_for ms c)"
    by (simp only: participants_loop_keys) (simp add: or_empty_def image_image)
  finally show "pt_author ` set (or_empty (participants_by_conversation ms c)) =
    (au_id \<circ> env_author) ` set (default_messages_for ms c)" .
  have "bt_ordered (or_empty (participants_loop ms Map.empty c))"
    using participants_loop_inv [of Map.empty ms]
    by (cases "participants_loop ms Map.empty c") (simp_all add: or_empty_def)
  then have "distinct (map AuthorId (map fst (or_empty (participants_loop ms Map.empty c))))"
    unfolding distinct_map [of AuthorId] by (simp add: bt_ordered_distinct inj_on_def)
  then show "distinct (map pt_author (or_empty (participants_by_conversation ms c)))"
    by (simp add: q comp_def case_prod_unfold)
qed

section \<open>Stages that fill a table\<close>

lemma consistent_distinct: "distinct (map key vs) \<Longrightarrow> consistent_writes key id (set vs)"
  by (rule consistent_writes_inj) (simp add: distinct_map)

lemma fold_map_filter:
  "fold (\<lambda>i s. case g i of None \<Rightarrow> s | Some h \<Rightarrow> f s h) is s = fold (\<lambda>h s. f s h) (List.map_filter g is) s"
  by (induction "is" arbitrary: s) (auto simp: List.map_filter_simps split: option.split)

context keyed_store begin

lemma run_stage_table:
  assumes "at_least_once d" and "distinct (map pk payloads)"
    and "\<And>s p. p \<in> set payloads \<Longrightarrow> snd (handler s p) = upsert s (val p)"
    and "\<And>p. p \<in> set payloads \<Longrightarrow> key (val p) = pk p"
  shows "run_stage d handler payloads Map.empty = map_of (map (\<lambda>p. (pk p, val p)) payloads)"
proof -
  have inj: "inj_on (key \<circ> val) (set payloads)"
    using assms(2,4) by (simp add: distinct_map inj_on_def)
  have "run_stage d handler payloads Map.empty =
      fold (\<lambda>p s. upsert s (val p)) (delivered d payloads) Map.empty"
    unfolding run_stage_delivered
    by (rule fold_cong) (simp_all add: set_delivered [OF assms(1)] assms(3))
  also have "\<dots> = fold (\<lambda>p s. upsert s (val p)) payloads Map.empty"
    by (rule fold_upsert_order_free [OF consistent_writes_inj [OF inj]])
      (rule set_delivered [OF assms(1)])
  also have "\<dots> = map_of (map (\<lambda>p. (pk p, val p)) payloads)"
  proof
    fix k
    have cw: "consistent_writes (key \<circ> val) val (set payloads)" by (rule consistent_writes_inj [OF inj])
    show "fold (\<lambda>p s. upsert s (val p)) payloads Map.empty k = map_of (map (\<lambda>p. (pk p, val p)) payloads) k"
    proof (cases "k \<in> pk ` set payloads")
      case True
      then obtain p where p: "p \<in> set payloads" "k = pk p" by blast
      have "map_of (map (\<lambda>p. (pk p, val p)) payloads) k = Some (val p)"
        using p assms(2) by (intro map_of_is_SomeI) (force simp: comp_def)+
      then show ?thesis
        using get_fold_upsert [OF cw p(1), of Map.empty] assms(4) p by (simp add: get_apply)
    next
      case False
      then have "k \<notin> dom (fold (\<lambda>p s. upsert s (val p)) payloads Map.empty)"
        using assms(4) by (auto simp: dom_fold_upsert)
      moreover have "map_of (map (\<lambda>p. (pk p, val p)) payloads) k = None"
        using False by (auto simp: map_of_eq_None_iff)
      ultimately show ?thesis by (simp add: domIff)
    qed
  qed
  finally show ?thesis .
qed

end

section \<open>Replay computes its specification\<close>

text \<open>
  What replay needs of the ports: an output is filed under the conversation or message it was
  built for, and a skill index has one ownership per topic.
\<close>

locale derivation_ports =
  fixes ctx :: "'s strategy_context"
  assumes scoper_key: "sc_conversation (ctx_scoper ctx c ps) = c"
    and builder_key: "wu_conversation (ctx_builder ctx c so ps) = c"
    and skill_keys: "distinct (map own_topic (si_ownerships (ctx_skill_builder ctx ks)))"
    and hinter_key: "hint_message_id (ctx_hinter ctx p ws) = proj_message_id p"
    and snapshotter_key: "sd_conversation (ctx_snapshotter ctx c qs ws) = c"
begin

lemma scopes_stage:
  assumes "at_least_once d"
  shows "run_stage d (build_scope_run (ctx_scoper ctx) P)
      (map (\<lambda>c. \<lparr>sreq_conversation = c, sreq_messages = ids c\<rparr>) (default_conversation_ids ms)) Map.empty =
    table (\<lambda>c. ctx_scoper ctx c (stored_projections P (ids c))) (default_conversation_ids ms)"
  by (subst scope_st.run_stage_table [OF assms, where pk = sreq_conversation and
        val = "\<lambda>r. ctx_scoper ctx (sreq_conversation r) (stored_projections P (sreq_messages r))"])
    (simp_all add: build_scope_run_def scoper_key table_def comp_def)

lemma warmups_stage:
  assumes "at_least_once d"
  shows "run_stage d (build_warmup_run (ctx_builder ctx) P S)
      (map (\<lambda>c. \<lparr>wreq_conversation = c, wreq_messages = ids c\<rparr>) (default_conversation_ids ms)) Map.empty =
    table (\<lambda>c. ctx_builder ctx c (S c) (stored_projections P (ids c))) (default_conversation_ids ms)"
  by (subst warmup_st.run_stage_table [OF assms, where pk = wreq_conversation and
        val = "\<lambda>r. ctx_builder ctx (wreq_conversation r) (S (wreq_conversation r))
          (stored_projections P (wreq_messages r))"])
    (simp_all add: build_warmup_run_def builder_key table_def comp_def scope_store_get_def)

lemma skills_stage:
  assumes "at_least_once d"
  shows "run_stage d (build_skill_run (ctx_skill_builder ctx) P) [\<lparr>skreq_entries = es\<rparr>] Map.empty =
    map_of (map (\<lambda>w. (own_topic w, w))
      (si_ownerships (ctx_skill_builder ctx (List.map_filter (contribution_of P) es))))"
    (is "_ = map_of (map _ ?ws)")
proof -
  have cw: "consistent_writes own_topic id (set ?ws)" by (rule consistent_distinct [OF skill_keys])
  have "run_stage d (build_skill_run (ctx_skill_builder ctx) P) [\<lparr>skreq_entries = es\<rparr>] Map.empty =
      fold (\<lambda>v s. skill_store_upsert s v) ?ws Map.empty"
    by (subst skill_st.run_stage_upserts [OF assms, where vals = "\<lambda>r. si_ownerships
          (ctx_skill_builder ctx (List.map_filter (contribution_of P) (skreq_entries r)))"])
      (simp_all add: build_skill_run_def Let_def cw)
  also have "\<dots> = map_of (map (\<lambda>w. (own_topic w, w)) ?ws)"
  proof
    fix t
    show "fold (\<lambda>v s. skill_store_upsert s v) ?ws Map.empty t = map_of (map (\<lambda>w. (own_topic w, w)) ?ws) t"
    proof (cases "t \<in> own_topic ` set ?ws")
      case True
      then obtain w where w: "w \<in> set ?ws" "t = own_topic w" by blast
      have "map_of (map (\<lambda>w. (own_topic w, w)) ?ws) t = Some w"
        using w skill_keys by (intro map_of_is_SomeI) (force simp: comp_def)+
      then show ?thesis
        using skill_st.get_upserts(1) [OF cw w(1), of Map.empty] w by (simp add: skill_store_get_def)
    next
      case False
      then have "map_of (map (\<lambda>w. (own_topic w, w)) ?ws) t = None"
        by (simp add: map_of_eq_None_iff image_image)
      then show ?thesis
        using skill_st.get_upserts(2) [OF cw False, of Map.empty]
        by (simp add: skill_store_get_def)
    qed
  qed
  finally show ?thesis .
qed

lemma hint_key: "projections_sound P \<Longrightarrow> hint_for (ctx_hinter ctx) P S i = Some h \<Longrightarrow> hint_message_id h = i"
  by (auto simp: hint_for_def hinter_key projections_sound_def projection_store_get_def)

lemma hints_stage:
  assumes "at_least_once d" and "projections_sound P" and "dom P \<subseteq> set is"
  shows "run_stage d (build_routing_hint_run (ctx_hinter ctx) P S) [\<lparr>hreq_messages = is\<rparr>] Map.empty =
    hint_for (ctx_hinter ctx) P S"
proof -
  let ?h = "hint_for (ctx_hinter ctx) P S"
  let ?hs = "List.map_filter ?h is"
  have mem: "h \<in> set ?hs \<longleftrightarrow> (\<exists>i\<in>set is. ?h i = Some h)" for h
    by (force simp: List.map_filter_def)
  have self: "?h (hint_message_id h) = Some h" if "h \<in> set ?hs" for h
    using that hint_key [OF assms(2)] by (auto simp: mem)
  have cw: "consistent_writes hint_message_id id (set ?hs)"
    unfolding consistent_writes_def id_def using self by (metis option.inject)
  have "run_stage d (build_routing_hint_run (ctx_hinter ctx) P S) [\<lparr>hreq_messages = is\<rparr>] Map.empty =
      fold (\<lambda>v s. routing_hint_store_upsert s v) ?hs Map.empty"
    by (subst routing_hint_st.run_stage_upserts [OF assms(1), where vals = "\<lambda>r. List.map_filter ?h (hreq_messages r)"])
      (simp_all add: build_routing_hint_run_def fold_map_filter cw)
  also have "\<dots> = ?h"
  proof
    fix i
    show "fold (\<lambda>v s. routing_hint_store_upsert s v) ?hs Map.empty i = ?h i"
    proof (cases "?h i")
      case None
      then have "i \<notin> hint_message_id ` set ?hs" using self by (metis imageE option.distinct(1))
      from routing_hint_st.get_upserts(2) [OF cw this, of Map.empty] None
      show ?thesis by (simp add: routing_hint_store_get_def)
    next
      case (Some h)
      then have "i \<in> dom P" by (auto simp: hint_for_def projection_store_get_def)
      with Some assms(3) have "h \<in> set ?hs" by (auto simp: mem)
      from routing_hint_st.get_upserts(1) [OF cw this, of Map.empty] hint_key [OF assms(2) Some] Some
      show ?thesis by (simp add: routing_hint_store_get_def)
    qed
  qed
  finally show ?thesis .
qed

lemma developers_stage:
  assumes "at_least_once d"
  shows "run_stage d (build_developer_snapshot_run (ctx_snapshotter ctx) P S)
      (map (\<lambda>c. \<lparr>dreq_conversation = c, dreq_participants = qs c, dreq_messages = ids c\<rparr>)
        (default_conversation_ids ms)) Map.empty =
    table (\<lambda>c. ctx_snapshotter ctx c (qs c)
      (List.map_filter S (first_seen {} (session_topics P (ids c))))) (default_conversation_ids ms)"
proof -
  have S: "skill_store_get S = S" by (simp add: fun_eq_iff skill_store_get_def)
  show ?thesis
    by (subst developer_st.run_stage_table [OF assms, where pk = dreq_conversation and
          val = "\<lambda>r. ctx_snapshotter ctx (dreq_conversation r) (dreq_participants r)
            (List.map_filter S (first_seen {} (session_topics P (dreq_messages r))))"])
      (simp_all add: build_developer_snapshot_eq snapshotter_key table_def comp_def S)
qed

theorem phases_eq:
  assumes "\<forall>k. at_least_once (d k)" and "projections_sound P" and "dom P \<subseteq> env_id ` set ms"
  shows "replay_phases ctx d ms P = phases_spec ctx ms P"
proof -
  have d: "at_least_once (d k)" for k using assms(1) by blast
  have ids: "dom P \<subseteq> set (map env_id ms)" using assms(3) by simp
  have groups_s: "per_conversation (group_by_conversation ms)
      (\<lambda>c ids. \<lparr>sreq_conversation = c, sreq_messages = ids\<rparr>) =
      map (\<lambda>c. \<lparr>sreq_conversation = c, sreq_messages = conversation_ids_of ms c\<rparr>) (default_conversation_ids ms)"
    and groups_w: "per_conversation (group_by_conversation ms)
      (\<lambda>c ids. \<lparr>wreq_conversation = c, wreq_messages = ids\<rparr>) =
      map (\<lambda>c. \<lparr>wreq_conversation = c, wreq_messages = conversation_ids_of ms c\<rparr>) (default_conversation_ids ms)"
    and groups_d: "per_conversation (group_by_conversation ms)
      (\<lambda>c ids. \<lparr>dreq_conversation = c, dreq_participants = or_empty (participants_by_conversation ms c),
         dreq_messages = ids\<rparr>) =
      map (\<lambda>c. \<lparr>dreq_conversation = c, dreq_participants = or_empty (participants_by_conversation ms c),
         dreq_messages = conversation_ids_of ms c\<rparr>) (default_conversation_ids ms)"
    by (simp_all add: per_conversation_def group_by_conversation_eq comp_def)
  show ?thesis
    unfolding replay_phases_def phases_spec_def Let_def store_new_def global_def groups_s groups_w groups_d
      scopes_stage [OF d] warmups_stage [OF d] skills_stage [OF d] hints_stage [OF d assms(2) ids]
      developers_stage [OF d] ..
qed

end

section \<open>Phase one\<close>

text \<open>A projector that answers every message of the log, without a change of its state.\<close>

definition answers ::
  "('s, message_envelope, projection) step \<Rightarrow> 's \<Rightarrow> (message_envelope \<Rightarrow> projection) \<Rightarrow>
   message_envelope list \<Rightarrow> bool" where
  "answers projector s f ms \<longleftrightarrow>
     (\<forall>m\<in>set ms. st_run projector s m = (Some (f m), s) \<and> proj_message_id (f m) = env_id m)"

lemma projections_of_map:
  assumes "log_wf ms"
  shows "projections_of f ms = map_of (map (\<lambda>m. (env_id m, f m)) ms)"
proof
  fix i
  show "projections_of f ms i = map_of (map (\<lambda>m. (env_id m, f m)) ms) i"
    by (induction ms) (auto simp: projections_of_def log_find_def)
qed

lemma projections_of_sound:
  assumes "\<forall>m\<in>set ms. proj_message_id (f m) = env_id m"
  shows "projections_sound (projections_of f ms)" and "dom (projections_of f ms) \<subseteq> env_id ` set ms"
proof -
  have find: "m \<in> set ms \<and> env_id m = i" if "log_find i ms = Some m" for i m
    using find_Some_mem [OF that [unfolded log_find_def]] by simp
  then show "projections_sound (projections_of f ms)" "dom (projections_of f ms) \<subseteq> env_id ` set ms"
    using assms by (auto simp: projections_sound_def projections_of_def dest!: find)
qed

lemma projection_stage:
  assumes "at_least_once d" and "log_wf ms" and "answers projector s f ms"
  shows "run_stage d (process_message_run projector) ms (Map.empty, s) = (projections_of f ms, s)"
proof -
  have fold: "fold (\<lambda>m st. snd (process_message_run projector st m)) ns (P, s) =
      (fold (\<lambda>m P. projection_store_upsert P (f m)) ns P, s)" if "set ns \<subseteq> set ms" for ns P
    using that
  proof (induction ns arbitrary: P)
    case (Cons n ns)
    then have "st_run projector s n = (Some (f n), s)" using assms(3) by (simp add: answers_def)
    then show ?case using Cons by (simp add: process_message_run_def)
  qed simp
  let ?h = "\<lambda>P m. (HOk, projection_store_upsert P (f m))"
  have "run_stage d (process_message_run projector) ms (Map.empty, s) =
      (run_stage d ?h ms Map.empty, s)"
    unfolding run_stage_delivered by (subst fold) (simp_all add: set_delivered [OF assms(1)])
  also have "run_stage d ?h ms Map.empty = map_of (map (\<lambda>m. (env_id m, f m)) ms)"
    by (rule projection_st.run_stage_table [OF assms(1)])
      (use assms(2,3) in \<open>simp_all add: log_wf_def answers_def\<close>)
  finally show ?thesis by (simp add: projections_of_map [OF assms(2)])
qed

context derivation_ports begin

theorem replay_eq:
  assumes "\<forall>k. at_least_once (d k)" and "log_wf ms" and "answers (ctx_projector ctx) s f ms"
  shows "replay_run ctx d ms s = (phases_spec ctx ms (projections_of f ms), s)"
proof -
  have f: "\<forall>m\<in>set ms. proj_message_id (f m) = env_id m" using assms(3) by (simp add: answers_def)
  have d: "at_least_once (d 1)" using assms(1) by blast
  show ?thesis
    using projection_stage [OF d assms(2,3)] phases_eq [OF assms(1) projections_of_sound [OF f]]
    by (simp add: replay_run_def per_message_def store_new_def)
qed

text \<open>The result accounts for every message and every conversation of the log, and no others.\<close>

lemma spec_accounts:
  assumes "log_wf ms" and "\<forall>m\<in>set ms. proj_message_id (f m) = env_id m"
  defines "r \<equiv> phases_spec ctx ms (projections_of f ms)"
  shows "dom (rs_projections r) = env_id ` set ms" and "dom (rs_hints r) = env_id ` set ms"
    and "dom (rs_scopes r) = conversation_of ` set ms"
    and "dom (rs_warmups r) = conversation_of ` set ms"
    and "dom (rs_developers r) = conversation_of ` set ms"
proof -
  have P: "dom (projections_of f ms) = env_id ` set ms"
    by (simp add: projections_of_map [OF assms(1)] dom_map_of_conv_image_fst image_image)
  then show "dom (rs_projections r) = env_id ` set ms"
    by (simp add: r_def phases_spec_def Let_def)
  have "dom (hint_for h P S) = dom P" for h P S
    by (auto simp: hint_for_def projection_store_get_def)
  then show "dom (rs_hints r) = env_id ` set ms"
    by (simp add: r_def phases_spec_def Let_def P)
  show "dom (rs_scopes r) = conversation_of ` set ms"
    "dom (rs_warmups r) = conversation_of ` set ms"
    "dom (rs_developers r) = conversation_of ` set ms"
    by (auto simp: r_def phases_spec_def Let_def table_apply split: if_splits)
qed

end

section \<open>The reference ports\<close>

definition reference_context ::
  "(string \<Rightarrow> string) \<Rightarrow> ('s, message_envelope, projection) step \<Rightarrow> 's strategy_context" where
  "reference_context lc projector =
     \<lparr>ctx_projector = projector, ctx_scoper = scope_project lc, ctx_builder = warmup_build,
      ctx_skill_builder = skill_build, ctx_hinter = skill_hint, ctx_snapshotter = snapshot_build\<rparr>"

lemma skill_build_distinct: "distinct (map own_topic (si_ownerships (skill_build ks)))"
  using skill_ownership_topics(2) [of ks] by (simp only: strict_sorted_iff)

interpretation reference: derivation_ports "reference_context lc projector" for lc projector
  by unfold_locales
    (simp_all add: reference_context_def skill_build_distinct snapshot_participants skill_hint_def Let_def)

lemma mock_answers: "answers (mock_step lc) s (mock_run lc) ms"
  by (simp add: answers_def mock_step_def)

section \<open>Replay over a projection cache\<close>

text \<open>
  A projector that answers, but not always the same. Wrapped in the cache it is asked once per
  message, and every later replay over that cache is the first one again.
\<close>

definition well_labelled :: "('s, message_envelope, projection) step \<Rightarrow> message_envelope list \<Rightarrow> bool" where
  "well_labelled inner ms \<longleftrightarrow>
     (\<forall>m\<in>set ms. \<forall>s. \<exists>p s'. st_run inner s m = (Some p, s') \<and> proj_message_id p = env_id m)"

locale projection_cache = semantic_cache get put ok storable
  for get :: "'c \<Rightarrow> string \<Rightarrow> step_version \<Rightarrow> string \<Rightarrow> projection option"
    and put :: "'c \<Rightarrow> string \<Rightarrow> step_version \<Rightarrow> string \<Rightarrow> projection \<Rightarrow> 'c"
    and ok :: "'c \<Rightarrow> bool"
    and storable :: "projection \<Rightarrow> bool"
begin

definition frozen where
  "frozen kind version key c f ms \<longleftrightarrow>
     (\<forall>m\<in>set ms. get c kind version (key m) = Some (f m) \<and> proj_message_id (f m) = env_id m)"

lemma frozen_answers:
  assumes "frozen (st_kind inner) version key c f ms"
    and "st_run projector = cached_run get put key inner version"
  shows "answers projector (c, s) f ms"
  using assms by (auto simp: frozen_def answers_def cached_hit)

definition filed where
  "filed kind version key c ms \<longleftrightarrow>
     (\<forall>m\<in>set ms. \<forall>p. get c kind version (key m) = Some p \<longrightarrow> proj_message_id p = env_id m)"

lemma cached_call:
  assumes "ok c" and "filed (st_kind inner) version key c ms" and "m \<in> set ms"
    and "well_labelled inner ms" and "inj_on key (set ms)" and "storable_answers storable inner"
  obtains p c' s' where "cached_run get put key inner version (c, s) m = (Some p, (c', s'))"
    and "ok c'" and "filed (st_kind inner) version key c' ms" and "proj_message_id p = env_id m"
    and "get c' (st_kind inner) version (key m) = Some p"
proof (cases "get c (st_kind inner) version (key m)")
  case (Some p)
  then show thesis
    using that [of p c s] assms by (simp add: cached_hit filed_def)
next
  case None
  obtain p s' where p: "st_run inner s m = (Some p, s')" "proj_message_id p = env_id m"
    using assms(3,4) unfolding well_labelled_def by blast
  have sto: "storable p" by (rule storable_answersD [OF assms(6) p(1)])
  let ?c = "put c (st_kind inner) version (key m) p"
  have "filed (st_kind inner) version key ?c ms"
    unfolding filed_def
  proof (intro ballI allI impI)
    fix n q
    assume n: "n \<in> set ms" and q: "get ?c (st_kind inner) version (key n) = Some q"
    show "proj_message_id q = env_id n"
    proof (cases "key n = key m")
      case True
      then have "n = m" using assms(3,5) n by (simp add: inj_on_eq_iff)
      with q p show ?thesis by (simp add: get_put [OF assms(1) sto])
    next
      case False
      with q have "get c (st_kind inner) version (key n) = Some q" by (simp add: get_put [OF assms(1) sto])
      with assms(2) n show ?thesis by (simp add: filed_def)
    qed
  qed
  then show thesis
    using that [of p ?c s'] None p sto assms(1)
    by (simp add: cached_run_def ok_put get_put)
qed

text \<open>What holds after the deliveries \<open>ns\<close> of phase one.\<close>

definition phase_inv where
  "phase_inv kind version key ms ns st \<longleftrightarrow>
     ok (fst (snd st)) \<and> filed kind version key (fst (snd st)) ms \<and>
     dom (fst st) = env_id ` set ns \<and>
     (\<forall>m\<in>set ns. \<exists>p. get (fst (snd st)) kind version (key m) = Some p \<and> fst st (env_id m) = Some p)"

lemma phase_inv_step:
  assumes "phase_inv (st_kind inner) version key ms ns st" and "n \<in> set ms" and "set ns \<subseteq> set ms"
    and "well_labelled inner ms" and "inj_on key (set ms)" and "log_wf ms"
    and "st_run projector = cached_run get put key inner version"
    and "storable_answers storable inner"
  shows "phase_inv (st_kind inner) version key ms (ns @ [n]) (snd (process_message_run projector st n))"
proof -
  obtain P c s where st: "st = (P, (c, s))" by (metis prod.collapse)
  note inv = assms(1) [unfolded phase_inv_def st fst_conv snd_conv]
  obtain p c' s' where call: "cached_run get put key inner version (c, s) n = (Some p, (c', s'))"
    and c': "ok c'" "filed (st_kind inner) version key c' ms" "proj_message_id p = env_id n"
      "get c' (st_kind inner) version (key n) = Some p"
    using cached_call [OF _ _ assms(2,4,5,8), of c version s] inv by blast
  have next_st: "snd (process_message_run projector st n) = (P(env_id n \<mapsto> p), (c', s'))"
    using call c'(3) by (simp add: st process_message_run_def assms(7) projection_store_upsert_def)
  have ids: "inj_on env_id (set ms)" using assms(6) by (simp add: log_wf_def distinct_map)
  have "\<exists>q. get c' (st_kind inner) version (key m) = Some q \<and> (P(env_id n \<mapsto> p)) (env_id m) = Some q"
    if m: "m \<in> set (ns @ [n])" for m
  proof (cases "env_id m = env_id n")
    case True
    have "m \<in> set ms" using m assms(2,3) by auto
    with True ids assms(2) have "m = n" by (simp add: inj_on_eq_iff)
    then show ?thesis using c'(4) by simp
  next
    case False
    with m have "m \<in> set ns" by auto
    with inv obtain q where "get c (st_kind inner) version (key m) = Some q" "P (env_id m) = Some q"
      by blast
    then show ?thesis using cached_keeps [OF conjunct1 [OF inv] assms(8) call] False by auto
  qed
  then show ?thesis
    using c' inv by (auto simp: phase_inv_def next_st)
qed

lemma phase_one:
  assumes "at_least_once d" and "log_wf ms" and "ok c0"
    and "filed (st_kind inner) version key c0 ms"
    and "well_labelled inner ms" and "inj_on key (set ms)"
    and "st_run projector = cached_run get put key inner version"
    and "storable_answers storable inner"
  obtains f c1 s1 where
    "run_stage d (process_message_run projector) ms (Map.empty, (c0, s0)) =
      (projections_of f ms, (c1, s1))"
    and "frozen (st_kind inner) version key c1 f ms" and "ok c1"
proof -
  have fold: "phase_inv (st_kind inner) version key ms (ns @ xs)
      (fold (\<lambda>m st. snd (process_message_run projector st m)) xs st)"
    if "phase_inv (st_kind inner) version key ms ns st" and "set ns \<subseteq> set ms" and "set xs \<subseteq> set ms"
    for ns xs st
    using that
  proof (induction xs arbitrary: ns st)
    case (Cons x xs)
    from phase_inv_step [OF Cons.prems(1) _ Cons.prems(2) assms(5,6,2,7,8), of x] Cons.prems
    have "phase_inv (st_kind inner) version key ms (ns @ [x]) (snd (process_message_run projector st x))"
      by simp
    from Cons.IH [OF this] Cons.prems show ?case by simp
  qed simp
  obtain P c1 s1 where st: "run_stage d (process_message_run projector) ms (Map.empty, (c0, s0)) =
      (P, (c1, s1))" by (metis prod.collapse)
  have "phase_inv (st_kind inner) version key ms [] (Map.empty, (c0, s0))"
    using assms(3,4) by (simp add: phase_inv_def)
  from fold [OF this, of "delivered d ms"]
  have inv: "phase_inv (st_kind inner) version key ms (delivered d ms) (P, (c1, s1))"
    using st by (simp add: run_stage_delivered set_delivered [OF assms(1)])
  define f where "f = (\<lambda>m. the (get c1 (st_kind inner) version (key m)))"
  have each: "get c1 (st_kind inner) version (key m) = Some (f m) \<and> P (env_id m) = Some (f m)"
    if "m \<in> set ms" for m
    using inv that by (force simp: phase_inv_def set_delivered [OF assms(1)] f_def)
  have "P = projections_of f ms"
  proof
    fix i
    show "P i = projections_of f ms i"
    proof (cases "i \<in> env_id ` set ms")
      case True
      then obtain m where m: "m \<in> set ms" "i = env_id m" by blast
      then have "log_find i ms = Some m" by (simp add: log_find_iff [OF assms(2)])
      then show ?thesis using each [OF m(1)] m by (simp add: projections_of_def)
    next
      case False
      then have "log_find i ms = None" by (auto simp: log_find_def find_None_iff)
      moreover have "i \<notin> dom P"
        using False inv by (simp add: phase_inv_def set_delivered [OF assms(1)])
      ultimately show ?thesis by (simp add: projections_of_def domIff)
    qed
  qed
  moreover have "frozen (st_kind inner) version key c1 f ms"
    using each inv by (simp add: frozen_def phase_inv_def filed_def)
  ultimately show thesis using that [of f c1 s1] st inv by (simp add: phase_inv_def)
qed

end

text \<open>The replay theorem, for the reference ports over any cache that keeps the port's laws.\<close>

context projection_cache begin

lemma replay_cached_twice:
  fixes inner :: "('s, message_envelope, projection) step"
    and inner' :: "('t, message_envelope, projection) step"
  assumes "\<forall>k. at_least_once (d k)" and "\<forall>k. at_least_once (d' k)" and "log_wf ms" and "ok c0"
    and "filed (st_kind inner) version key c0 ms"
    and "well_labelled inner ms" and "inj_on key (set ms)" and "st_kind inner' = st_kind inner"
    and "storable_answers storable inner"
    and "st_run projector = cached_run get put key inner version"
    and "st_run projector' = cached_run get put key inner' version"
    and "replay_run (reference_context lc projector) d ms (c0, s0) = (r, (c1, s1))"
  shows "replay_run (reference_context lc projector') d' ms (c1, t) = (r, (c1, t))"
proof -
  have d: "at_least_once (d 1)" using assms(1) by blast
  obtain f c2 s2 where one: "run_stage (d 1) (process_message_run projector) ms (Map.empty, (c0, s0)) =
      (projections_of f ms, (c2, s2))"
    and frozen: "frozen (st_kind inner) version key c2 f ms" and "ok c2"
    by (rule phase_one [OF d assms(3-7,10,9)])
  have label: "\<forall>m\<in>set ms. proj_message_id (f m) = env_id m" using frozen by (simp add: frozen_def)
  have "ctx_projector (reference_context lc projector) = projector" by (simp add: reference_context_def)
  then have "replay_run (reference_context lc projector) d ms (c0, s0) =
      (replay_phases (reference_context lc projector) d ms (projections_of f ms), (c2, s2))"
    using one by (simp add: replay_run_def per_message_def store_new_def)
  also have "replay_phases (reference_context lc projector) d ms (projections_of f ms) =
      phases_spec (reference_context lc projector) ms (projections_of f ms)"
    by (rule reference.phases_eq [OF assms(1) projections_of_sound [OF label]])
  finally have r: "r = phases_spec (reference_context lc projector) ms (projections_of f ms)" "c2 = c1"
    using assms(12) by simp_all
  have "frozen (st_kind inner') version key c1 f ms" using frozen by (simp add: assms(8) r(2))
  from frozen_answers [OF this assms(11)] have "answers projector' (c1, t) f ms" .
  then have "answers (ctx_projector (reference_context lc projector')) (c1, t) f ms"
    by (simp add: reference_context_def)
  from reference.replay_eq [OF assms(2,3) this]
  have "replay_run (reference_context lc projector') d' ms (c1, t) =
      (phases_spec (reference_context lc projector') ms (projections_of f ms), (c1, t))" .
  moreover have "phases_spec (reference_context lc projector') = phases_spec (reference_context lc projector)"
    by (intro ext) (simp add: phases_spec_def reference_context_def)
  ultimately show ?thesis by (simp add: r(1))
qed

end

interpretation mem_projections: projection_cache cache_get cache_put "\<lambda>_. True" "\<lambda>_. True"
  by unfold_locales

end
