(* ===== verification/Derived.thy ===== *)
theory Derived
  imports Main Prelude Model MessageLog Stores Derivation Jobs Replay
begin

text \<open>
  From the stores of a run to cached output per conversation
  (\<open>crates/mirrorlane-worker/src/derived.rs\<close>): the scans of the log, the content hash, the
  derivation of a conversation in its two forms, and the single pass that fills the cache.
\<close>

section \<open>Scans of the log\<close>

fun conversations_loop :: "conversation_id list \<Rightarrow> message_envelope list \<Rightarrow> conversation_id list" where
  "conversations_loop seen [] = seen"
| "conversations_loop seen (m # ms) =
     conversations_loop (if conversation_of m \<in> set seen then seen else seen @ [conversation_of m]) ms"

definition conversations :: "message_envelope list \<Rightarrow> conversation_id list" where
  "conversations all = conversations_loop [] all"

definition messages_in :: "message_envelope list \<Rightarrow> conversation_id \<Rightarrow> message_id list" where
  "messages_in all c = map env_id (filter (\<lambda>m. conversation_of m = c) all)"

fun content_stream :: "message_envelope list \<Rightarrow> conversation_id \<Rightarrow> string" where
  "content_stream [] c = []"
| "content_stream (m # ms) c =
     (if conversation_of m = c
      then str_bytes (message_id_str (env_id m)) @ str_bytes (env_body m) @ content_stream ms c
      else content_stream ms c)"

definition content_hash :: "hash_function \<Rightarrow> message_envelope list \<Rightarrow> conversation_id \<Rightarrow> string" where
  "content_hash hasher all c = hex16 (hasher (content_stream all c))"

definition content_hash_of :: "hash_function \<Rightarrow> message_envelope list \<Rightarrow> string" where
  "content_hash_of hasher messages = hex16 (hasher (concat (map message_bytes messages)))"

section \<open>Derivations\<close>

definition derivation_from_messages ::
  "replay_stores \<Rightarrow> conversation_id \<Rightarrow> message_envelope list \<Rightarrow> conversation_derivation option" where
  "derivation_from_messages stores c messages =
     (case warmup_store_get (rs_warmups stores) c of
        None \<Rightarrow> None
      | Some w \<Rightarrow> Some
          \<lparr>cd_conversation = c,
           cd_projections =
             List.map_filter (\<lambda>m. projection_store_get (rs_projections stores) (env_id m)) messages,
           cd_scope = scope_store_get (rs_scopes stores) c,
           cd_warmup = w,
           cd_developers = developer_store_get (rs_developers stores) c,
           cd_hints = List.map_filter (\<lambda>m. routing_hint_store_get (rs_hints stores) (env_id m)) messages\<rparr>)"

definition derivation_for ::
  "message_envelope list \<Rightarrow> replay_stores \<Rightarrow> conversation_id \<Rightarrow> conversation_derivation option" where
  "derivation_for all stores c =
     (case warmup_store_get (rs_warmups stores) c of
        None \<Rightarrow> None
      | Some w \<Rightarrow>
          (let ids = messages_in all c in Some
          \<lparr>cd_conversation = c,
           cd_projections = List.map_filter (projection_store_get (rs_projections stores)) ids,
           cd_scope = scope_store_get (rs_scopes stores) c,
           cd_warmup = w,
           cd_developers = developer_store_get (rs_developers stores) c,
           cd_hints = List.map_filter (routing_hint_store_get (rs_hints stores)) ids\<rparr>))"

section \<open>Filling the cache\<close>

fun populate_loop ::
  "('c \<Rightarrow> step_version \<Rightarrow> conversation_id \<Rightarrow> string \<Rightarrow> conversation_derivation \<Rightarrow> 'c) \<Rightarrow>
   ('c \<Rightarrow> conversation_id \<Rightarrow> step_version \<Rightarrow> string \<Rightarrow> 'c) \<Rightarrow> hash_function \<Rightarrow> replay_stores \<Rightarrow>
   step_version \<Rightarrow> (conversation_id \<rightharpoonup> message_envelope list) \<Rightarrow> conversation_id list \<Rightarrow> 'c \<Rightarrow>
   conversation_derivation list \<times> 'c" where
  "populate_loop put reclaim hasher stores version groups [] cache = ([], cache)"
| "populate_loop put reclaim hasher stores version groups (c # cs) cache =
     (let messages = or_empty (groups c) in
      case derivation_from_messages stores c messages of
        None \<Rightarrow> populate_loop put reclaim hasher stores version groups cs cache
      | Some d \<Rightarrow>
          (let content = content_hash_of hasher messages;
               cache1 = put cache version c content d;
               cache2 = reclaim cache1 c version content;
               (ds, cache3) = populate_loop put reclaim hasher stores version groups cs cache2 in
           (d # ds, cache3)))"

definition populate_cache ::
  "('c \<Rightarrow> step_version \<Rightarrow> conversation_id \<Rightarrow> string \<Rightarrow> conversation_derivation \<Rightarrow> 'c) \<Rightarrow>
   ('c \<Rightarrow> conversation_id \<Rightarrow> step_version \<Rightarrow> string \<Rightarrow> 'c) \<Rightarrow> hash_function \<Rightarrow>
   message_envelope list \<Rightarrow> replay_stores \<Rightarrow> 'c \<Rightarrow> step_version \<Rightarrow> conversation_derivation list \<times> 'c" where
  "populate_cache put reclaim hasher all stores cache version =
     (let (order, groups) = group_loop (\<lambda>m. m) all ([], Map.empty) in
      populate_loop put reclaim hasher stores version groups order cache)"

section \<open>The two forms agree\<close>

lemma conversations_eq: "conversations all = default_conversation_ids all"
proof -
  have "conversations_loop seen ms = conversation_ids_loop seen ms" for seen ms
    by (induction ms arbitrary: seen) auto
  then show ?thesis by (simp add: conversations_def default_conversation_ids_def)
qed

lemma messages_in_eq: "messages_in all c = conversation_ids_of all c"
  by (simp add: messages_in_def conversation_ids_of_def default_messages_for_def)

lemma content_stream_eq:
  "content_stream all c = concat (map message_bytes (default_messages_for all c))"
  by (induction all) (simp_all add: default_messages_for_def message_bytes_def)

lemma content_hash_eq: "content_hash hasher all c = content_hash_of hasher (default_messages_for all c)"
  by (simp add: content_hash_def content_hash_of_def content_stream_eq)

lemma derivation_for_eq: "derivation_for all stores c = derivation_from_messages stores c (default_messages_for all c)"
proof -
  have m: "List.map_filter g (map env_id ms) = List.map_filter (\<lambda>m. g (env_id m)) ms"
    for g :: "message_id \<Rightarrow> 'b option" and ms
    by (simp add: List.map_filter_def filter_map comp_def)
  show ?thesis
    by (simp add: derivation_for_def derivation_from_messages_def messages_in_def
        default_messages_for_def List.map_filter_def filter_map comp_def Let_def split: option.split)
qed

text \<open>Two logs hash a conversation alike only if they hold the same ids and bodies in it.\<close>

lemma content_hash_inj:
  assumes "\<forall>m\<in>set all. message_utf8 m" and "\<forall>m\<in>set all'. message_utf8 m"
    and "inj_on hasher {content_stream all c, content_stream all' c}"
  shows "content_hash hasher all c = content_hash hasher all' c \<longleftrightarrow>
    map (\<lambda>m. (env_id m, env_body m)) (default_messages_for all c) =
    map (\<lambda>m. (env_id m, env_body m)) (default_messages_for all' c)"
proof
  assume "content_hash hasher all c = content_hash hasher all' c"
  then have "content_stream all c = content_stream all' c"
    using inj_on_eq_iff [OF assms(3), of "content_stream all c" "content_stream all' c"]
    by (simp add: content_hash_def hex16_inj)
  then show "map (\<lambda>m. (env_id m, env_body m)) (default_messages_for all c) =
      map (\<lambda>m. (env_id m, env_body m)) (default_messages_for all' c)"
    by (intro message_stream_inj)
      (use assms(1,2) in \<open>simp_all add: default_messages_for_def content_stream_eq\<close>)
next
  assume eq: "map (\<lambda>m. (env_id m, env_body m)) (default_messages_for all c) =
      map (\<lambda>m. (env_id m, env_body m)) (default_messages_for all' c)"
  have "map message_bytes ms = map (\<lambda>(i, b). str_bytes (message_id_str i) @ str_bytes b)
      (map (\<lambda>m. (env_id m, env_body m)) ms)" for ms
    by (simp add: message_bytes_def)
  then have "map message_bytes (default_messages_for all c) = map message_bytes (default_messages_for all' c)"
    by (simp only: eq)
  then show "content_hash hasher all c = content_hash hasher all' c"
    by (simp only: content_hash_eq content_hash_of_def)
qed

section \<open>What the pass leaves\<close>

lemma group_messages_eq:
  "group_loop (\<lambda>m. m) all ([], Map.empty) =
    (default_conversation_ids all, \<lambda>c. if default_messages_for all c = [] then None
       else Some (default_messages_for all c))"
  by (subst group_loop_eq) (auto simp: default_conversation_ids_def or_empty_def fun_eq_iff)

lemma populate_cache_eq:
  "populate_cache put reclaim hasher all stores cache version =
    populate_loop put reclaim hasher stores version (\<lambda>c. Some (default_messages_for all c))
      (default_conversation_ids all) cache"
proof -
  have cong: "\<forall>c. or_empty (g c) = or_empty (h c) \<Longrightarrow>
      populate_loop put reclaim hasher stores version g cs cache =
      populate_loop put reclaim hasher stores version h cs cache" for g h cs cache
    by (induction cs arbitrary: cache) (simp_all add: Let_def split: option.split)
  show ?thesis
    unfolding populate_cache_def group_messages_eq by simp (rule cong, simp add: or_empty_def)
qed

lemma populate_returns:
  "fst (populate_cache put reclaim hasher all stores cache version) =
    List.map_filter (derivation_for all stores) (conversations all)"
proof -
  have "fst (populate_loop put reclaim hasher stores version (\<lambda>c. Some (default_messages_for all c)) cs cache) =
      List.map_filter (derivation_for all stores) cs" for cs cache
    by (induction cs arbitrary: cache)
      (auto simp: List.map_filter_simps or_empty_def derivation_for_eq Let_def case_prod_unfold split: option.split)
  then show ?thesis by (simp only: populate_cache_eq conversations_eq)
qed

context reading_cache begin

text \<open>\<open>returned d\<close> is what a derivation \<open>d\<close> of the run is read back as.\<close>

definition reads_run ::
  "(conversation_derivation \<Rightarrow> conversation_derivation) \<Rightarrow> replay_stores \<Rightarrow>
   (conversation_id \<rightharpoonup> message_envelope list) \<Rightarrow> bool" where
  "reads_run returned stores groups \<longleftrightarrow>
     (\<forall>c d. derivation_from_messages stores c (or_empty (groups c)) = Some d \<longrightarrow> reads d (returned d))"

lemma reads_runI:
  "\<forall>c d. derivation_for all stores c = Some d \<longrightarrow> reads d (returned d) \<Longrightarrow>
    reads_run returned stores (\<lambda>c. Some (default_messages_for all c))"
  by (simp add: reads_run_def derivation_for_eq or_empty_def)

lemma populate_loop_ok:
  "ok cache \<Longrightarrow> reads_run returned stores groups \<Longrightarrow> ok (snd (populate_loop put reclaim hasher stores version groups cs cache))"
  by (induction cs arbitrary: cache)
    (auto simp: Let_def reads_run_def case_prod_unfold split: option.split intro: deliver(1))

lemma populate_loop_other:
  "ok cache \<Longrightarrow> reads_run returned stores groups \<Longrightarrow> c \<notin> set cs \<Longrightarrow>
    get (snd (populate_loop put reclaim hasher stores version groups cs cache)) v c x = get cache v c x"
proof (induction cs arbitrary: cache)
  case (Cons c' cs)
  show ?case
  proof (cases "derivation_from_messages stores c' (or_empty (groups c'))")
    case None
    then show ?thesis using Cons by (simp add: Let_def)
  next
    case (Some d)
    have sto: "reads d (returned d)" using Cons.prems(2) Some by (simp add: reads_run_def)
    let ?x = "content_hash_of hasher (or_empty (groups c'))"
    let ?c = "reclaim (put cache version c' ?x d) c' version ?x"
    have "get (snd (populate_loop put reclaim hasher stores version groups cs ?c)) v c x = get ?c v c x"
      using Cons.prems deliver(1) [OF Cons.prems(1) sto] by (intro Cons.IH) simp_all
    also have "\<dots> = get cache v c x" using Cons.prems(3) by (intro deliver(3) [OF Cons.prems(1) sto]) simp
    finally show ?thesis by (simp add: Let_def Some case_prod_unfold)
  qed
qed simp

lemma populate_loop_get:
  "ok cache \<Longrightarrow> reads_run returned stores groups \<Longrightarrow> distinct cs \<Longrightarrow> c \<in> set cs \<Longrightarrow>
    derivation_from_messages stores c (or_empty (groups c)) = Some d \<Longrightarrow>
    get (snd (populate_loop put reclaim hasher stores version groups cs cache)) version c
      (content_hash_of hasher (or_empty (groups c))) = Some (returned d)"
proof (induction cs arbitrary: cache)
  case (Cons c' cs)
  let ?x = "content_hash_of hasher (or_empty (groups c'))"
  show ?case
  proof (cases "derivation_from_messages stores c' (or_empty (groups c'))")
    case None
    with Cons.prems have "c \<in> set cs" by auto
    with Cons None show ?thesis by (simp add: Let_def)
  next
    case (Some d')
    let ?c = "reclaim (put cache version c' ?x d') c' version ?x"
    have sto: "reads d' (returned d')" using Cons.prems(2) Some by (simp add: reads_run_def)
    have ok: "ok ?c" using Cons.prems(1) sto by (rule deliver(1))
    have eq: "snd (populate_loop put reclaim hasher stores version groups (c' # cs) cache) =
        snd (populate_loop put reclaim hasher stores version groups cs ?c)"
      by (simp add: Let_def Some case_prod_unfold)
    show ?thesis
    proof (cases "c = c'")
      case True
      then have "c \<notin> set cs" and "d' = d" using Cons.prems Some by auto
      then show ?thesis
        unfolding eq using populate_loop_other [OF ok Cons.prems(2), of c cs] deliver(2) [OF Cons.prems(1) sto] True
        by simp
    next
      case False
      then show ?thesis unfolding eq using Cons.prems by (intro Cons.IH ok) auto
    qed
  qed
qed simp

text \<open>Every derivation of the run comes back under the hash of its conversation.\<close>

lemma populate_reads:
  assumes "ok cache" and "\<forall>c d. derivation_for all stores c = Some d \<longrightarrow> reads d (returned d)"
    and "derivation_for all stores c = Some d" and "c \<in> set (conversations all)"
  shows "get (snd (populate_cache put reclaim hasher all stores cache version)) version c
    (content_hash hasher all c) = Some (returned d)"
proof -
  have "get (snd (populate_loop put reclaim hasher stores version (\<lambda>c. Some (default_messages_for all c))
      (default_conversation_ids all) cache)) version c
      (content_hash_of hasher (or_empty (Some (default_messages_for all c)))) = Some (returned d)"
    by (rule populate_loop_get [OF _ reads_runI])
      (use assms in \<open>simp_all add: or_empty_def derivation_for_eq conversations_eq
        del: set_default_conversation_ids\<close>)
  then show ?thesis by (simp add: populate_cache_eq content_hash_eq or_empty_def)
qed

lemma populate_reads_other:
  assumes "ok cache" and "\<forall>c d. derivation_for all stores c = Some d \<longrightarrow> reads d (returned d)"
    and "c \<notin> set (conversations all)"
  shows "get (snd (populate_cache put reclaim hasher all stores cache version)) v c x = get cache v c x"
  using populate_loop_other [OF assms(1) reads_runI [OF assms(2)]] assms(3)
  by (simp add: populate_cache_eq conversations_eq)

lemma populate_reads_ok:
  "ok cache \<Longrightarrow> \<forall>c d. derivation_for all stores c = Some d \<longrightarrow> reads d (returned d) \<Longrightarrow>
    ok (snd (populate_cache put reclaim hasher all stores cache version))"
  unfolding populate_cache_eq by (rule populate_loop_ok) (assumption, rule reads_runI)

end

context derived_cache begin

text \<open>Over a cache that reads back what it was given.\<close>

lemma populate_get:
  assumes "ok cache" and "\<forall>c d. derivation_for all stores c = Some d \<longrightarrow> storable d"
    and "derivation_for all stores c = Some d" and "c \<in> set (conversations all)"
  shows "get (snd (populate_cache put reclaim hasher all stores cache version)) version c
    (content_hash hasher all c) = Some d"
  using assms by (intro reading.populate_reads [where returned = "\<lambda>d. d"]) simp_all

lemma populate_other:
  assumes "ok cache" and "\<forall>c d. derivation_for all stores c = Some d \<longrightarrow> storable d"
    and "c \<notin> set (conversations all)"
  shows "get (snd (populate_cache put reclaim hasher all stores cache version)) v c x = get cache v c x"
  using assms by (intro reading.populate_reads_other [where returned = "\<lambda>d. d"]) simp_all

lemma populate_ok: "ok cache \<Longrightarrow> \<forall>c d. derivation_for all stores c = Some d \<longrightarrow> storable d \<Longrightarrow>
    ok (snd (populate_cache put reclaim hasher all stores cache version))"
  by (rule reading.populate_reads_ok [where returned = "\<lambda>d. d"]) simp_all

end

section \<open>Every conversation of a replay has a derivation\<close>

lemma spec_derivation:
  assumes "c \<in> set (conversations ms)"
  shows "\<exists>d. derivation_for ms (phases_spec ctx ms P) c = Some d \<and> cd_conversation d = c \<and>
    cd_projections d = stored_projections P (conversation_ids_of ms c)"
  using assms
  by (auto simp: derivation_for_def phases_spec_def Let_def warmup_store_get_def table_apply
      conversations_eq stored_projections_def messages_in_eq)

end
