(* ===== verification/Submission.thy ===== *)
theory Submission
  imports Main Prelude Runtime Model Routing Stores Derivation Jobs Replay Derived
begin

text \<open>
  Selecting and submitting strategies, and the edges to Worklane (worker crate:
  \<open>registry.rs\<close>, \<open>submission.rs\<close>, \<open>routed_work.rs\<close>, \<open>dead_letters.rs\<close>, \<open>observer.rs\<close>). The broker
  is third-party code: each of its operations the crate calls is an argument.
\<close>

section \<open>The registry\<close>

type_synonym 's replay_strategy =
  "(nat \<Rightarrow> deliveries) \<Rightarrow> message_envelope list \<Rightarrow> 's \<Rightarrow> replay_stores \<times> 's"

definition empty_stores :: replay_stores where
  "empty_stores =
     \<lparr>rs_projections = store_new, rs_scopes = store_new, rs_warmups = store_new,
      rs_skills = store_new, rs_hints = store_new, rs_developers = store_new\<rparr>"

definition empty_strategy :: "'s replay_strategy" where
  "empty_strategy d messages s = (empty_stores, s)"

datatype unknown_strategy = UnknownStrategy string

text \<open>\<open>{:?}\<close> of a string is the standard library's; \<open>dbg\<close> stands for it.\<close>

definition unknown_strategy_display :: "(string \<Rightarrow> string) \<Rightarrow> unknown_strategy \<Rightarrow> string" where
  "unknown_strategy_display dbg e = (case e of UnknownStrategy i \<Rightarrow> ''unknown strategy '' @ dbg i)"

type_synonym 's strategy_registry = "(string, 's strategy_context \<Rightarrow> 's replay_strategy) btree_map"

definition default_strategy :: string where
  "default_strategy = ''projection''"

definition strategy_register ::
  "'s strategy_registry \<Rightarrow> string \<Rightarrow> ('s strategy_context \<Rightarrow> 's replay_strategy) \<Rightarrow> 's strategy_registry" where
  "strategy_register r i factory = bt_update i (\<lambda>_. factory) r"

definition strategy_builtins :: "'s strategy_registry" where
  "strategy_builtins =
     strategy_register (strategy_register [] default_strategy replay_run) ''empty'' (\<lambda>_. empty_strategy)"

definition strategy_build ::
  "'s strategy_registry \<Rightarrow> string \<Rightarrow> 's strategy_context \<Rightarrow> unknown_strategy + 's replay_strategy" where
  "strategy_build r i ctx =
     (case map_of r i of Some factory \<Rightarrow> Inr (factory ctx) | None \<Rightarrow> Inl (UnknownStrategy i))"

lemma strategy_build_register:
  "bt_ordered r \<Longrightarrow> strategy_build (strategy_register r i factory) j ctx =
    (if j = i then Inr (factory ctx) else strategy_build r j ctx)"
  by (simp add: strategy_build_def strategy_register_def map_of_bt_update)

lemma strategy_register_ordered: "bt_ordered r \<Longrightarrow> bt_ordered (strategy_register r i factory)"
  by (simp add: strategy_register_def bt_ordered_update)

lemma strategy_build_builtins:
  "strategy_build strategy_builtins i ctx =
    (if i = ''projection'' then Inr (replay_run ctx)
     else if i = ''empty'' then Inr empty_strategy
     else Inl (UnknownStrategy i))"
proof -
  have o: "bt_ordered (strategy_register [] default_strategy replay_run)"
    by (rule strategy_register_ordered) simp
  show ?thesis
    unfolding strategy_builtins_def strategy_build_register [OF o] strategy_build_register [OF bt_ordered_Nil]
    by (simp add: default_strategy_def) (simp add: strategy_build_def)
qed

section \<open>The submitted run\<close>

definition strategy_run_lane :: string where
  "strategy_run_lane = ''mirrorlane.strategy_run''"

record strategy_run_request =
  srun_strategy :: string

text \<open>
  The handler of a submitted run. The result is the way it ended, the state of the ports and
  the cache; the broker sees the error of an unknown id as a failed job. The strategy reads the log
  when it starts (\<open>before\<close>) and \<open>populate_cache\<close> reads it again (\<open>after\<close>).
\<close>

definition strategy_run ::
  "(string \<Rightarrow> string) \<Rightarrow>
   ('c \<Rightarrow> step_version \<Rightarrow> conversation_id \<Rightarrow> string \<Rightarrow> conversation_derivation \<Rightarrow> 'c) \<Rightarrow>
   ('c \<Rightarrow> conversation_id \<Rightarrow> step_version \<Rightarrow> string \<Rightarrow> 'c) \<Rightarrow> hash_function \<Rightarrow>
   message_envelope list \<Rightarrow> message_envelope list \<Rightarrow> 's strategy_context \<Rightarrow> 's strategy_registry \<Rightarrow>
   (nat \<Rightarrow> deliveries) \<Rightarrow> ('c \<times> 's, strategy_run_request) handler" where
  "strategy_run dbg put reclaim hasher before after ctx registry d st request =
     (case strategy_build registry (srun_strategy request) ctx of
        Inl e \<Rightarrow> (HErr (unknown_strategy_display dbg e), st)
      | Inr strategy \<Rightarrow>
          (let (stores, s') = strategy d before (snd st);
               version = derivation_version (srun_strategy request) (st_version (ctx_projector ctx));
               (_, cache') = populate_cache put reclaim hasher after stores (fst st) version in
           (HOk, (cache', s'))))"

lemma strategy_run_unknown:
  assumes "strategy_build registry (srun_strategy request) ctx = Inl e"
  shows "strategy_run dbg put reclaim hasher before after ctx registry d st request =
    (HErr (unknown_strategy_display dbg e), st)"
  using assms by (simp add: strategy_run_def)

lemma strategy_run_never_panics:
  "fst (strategy_run dbg put reclaim hasher before after ctx registry d st request) \<noteq> HPanic"
  by (simp add: strategy_run_def Let_def case_prod_unfold split: sum.split)

section \<open>Routed work\<close>

definition routed_work_lane :: string where
  "routed_work_lane = ''mirrorlane.routed_work''"

record routed_work_payload =
  rwp_message_id :: message_id
  rwp_projection :: projection

definition routed_work_run :: "('st, routed_work_payload) handler" where
  "routed_work_run st payload = (HOk, st)"

definition unique_key :: "message_id \<Rightarrow> string" where
  "unique_key i = routed_work_lane @ '':'' @ message_id_str i"

text \<open>\<open>enqueue_unique lane key payload\<close> is the broker's deduplicating enqueue.\<close>

definition worklane_consume ::
  "(string \<Rightarrow> string \<Rightarrow> routed_work_payload \<Rightarrow> 'b \<Rightarrow> (string + unit) \<times> 'b) \<Rightarrow> 'b consumer" where
  "worklane_consume enqueue_unique b decision p =
     (let payload = \<lparr>rwp_message_id = dec_message_id decision, rwp_projection = p\<rparr> in
      case enqueue_unique routed_work_lane (unique_key (dec_message_id decision)) payload b of
        (Inl e, b') \<Rightarrow> (Inl (consumer_error_new e), b')
      | (Inr _, b') \<Rightarrow> (Inr (), b'))"

lemma unique_key_inj: "unique_key i = unique_key j \<longleftrightarrow> i = j"
  by (auto simp: unique_key_def intro: message_id.expand)

text \<open>
  With a broker that takes a second enqueue under a live key as done, the consumer is
  idempotent: the contract of \<open>Routing\<close>.
\<close>

definition dedupes ::
  "(string \<Rightarrow> string \<Rightarrow> 'p \<Rightarrow> 'b \<Rightarrow> (string + unit) \<times> 'b) \<Rightarrow> bool" where
  "dedupes enqueue_unique \<longleftrightarrow>
     (\<forall>lane key p q b b'. enqueue_unique lane key p b = (Inr (), b') \<longrightarrow>
        enqueue_unique lane key q b' = (Inr (), b'))"

lemma worklane_idempotent:
  assumes "dedupes enqueue_unique"
  shows "idempotent_consumer (worklane_consume enqueue_unique) (\<lambda>_. True)"
proof
  fix w d p w'
  assume "worklane_consume enqueue_unique w d p = (Inr (), w')"
  then have "enqueue_unique routed_work_lane (unique_key (dec_message_id d))
      \<lparr>rwp_message_id = dec_message_id d, rwp_projection = p\<rparr> w = (Inr (), w')"
    by (auto simp: worklane_consume_def Let_def split: prod.splits sum.splits)
  with assms have "enqueue_unique routed_work_lane (unique_key (dec_message_id d))
      \<lparr>rwp_message_id = dec_message_id d, rwp_projection = p\<rparr> w' = (Inr (), w')"
    unfolding dedupes_def by blast
  then show "worklane_consume enqueue_unique w' d p = (Inr (), w')"
    by (simp add: worklane_consume_def Let_def)
qed simp

section \<open>Dead letters\<close>

record ('b, 'l, 'e) dead_letter_broker =
  dlb_read :: "string \<Rightarrow> nat \<Rightarrow> 'b \<Rightarrow> 'e + 'l list"
  dlb_count :: "string \<Rightarrow> 'b \<Rightarrow> 'e + nat"
  dlb_requeue :: "string \<Rightarrow> 'b \<Rightarrow> ('e + unit) \<times> 'b"
  dlb_purge :: "string \<Rightarrow> 'b \<Rightarrow> ('e + nat) \<times> 'b"

record ('b, 'l, 'e) dead_letters =
  dl_broker :: "('b, 'l, 'e) dead_letter_broker"
  dl_lane :: string

definition dead_letters_new :: "('b, 'l, 'e) dead_letter_broker \<Rightarrow> string \<Rightarrow> ('b, 'l, 'e) dead_letters" where
  "dead_letters_new broker lane = \<lparr>dl_broker = broker, dl_lane = lane\<rparr>"

definition dead_letters_read :: "('b, 'l, 'e) dead_letters \<Rightarrow> nat \<Rightarrow> 'b \<Rightarrow> 'e + 'l list" where
  "dead_letters_read dl limit b = dlb_read (dl_broker dl) (dl_lane dl) limit b"

definition dead_letters_count :: "('b, 'l, 'e) dead_letters \<Rightarrow> 'b \<Rightarrow> 'e + nat" where
  "dead_letters_count dl b = dlb_count (dl_broker dl) (dl_lane dl) b"

definition dead_letters_requeue :: "('b, 'l, 'e) dead_letters \<Rightarrow> string \<Rightarrow> 'b \<Rightarrow> ('e + unit) \<times> 'b" where
  "dead_letters_requeue dl job b = dlb_requeue (dl_broker dl) job b"

definition dead_letters_purge :: "('b, 'l, 'e) dead_letters \<Rightarrow> 'b \<Rightarrow> ('e + nat) \<times> 'b" where
  "dead_letters_purge dl b = dlb_purge (dl_broker dl) (dl_lane dl) b"

definition strategy_run_dead_letters :: "('b, 'l, 'e) dead_letter_broker \<Rightarrow> ('b, 'l, 'e) dead_letters" where
  "strategy_run_dead_letters broker = dead_letters_new broker strategy_run_lane"

definition routed_work_dead_letters :: "('b, 'l, 'e) dead_letter_broker \<Rightarrow> ('b, 'l, 'e) dead_letters" where
  "routed_work_dead_letters broker = dead_letters_new broker routed_work_lane"

lemma lanes_differ: "strategy_run_lane \<noteq> routed_work_lane"
  by (simp add: strategy_run_lane_def routed_work_lane_def)

section \<open>The observer\<close>

datatype job_outcome = Acked | Retried | DeadLettered | OtherOutcome

text \<open>A duration in nanoseconds, as \<open>std::time::Duration\<close> counts it.\<close>

record job_record =
  jr_lane :: string
  jr_kind :: string
  jr_outcome :: job_outcome
  jr_duration :: nat

fun outcome_label_of :: "job_outcome \<Rightarrow> string" where
  "outcome_label_of Acked = ''acked''"
| "outcome_label_of Retried = ''retried''"
| "outcome_label_of DeadLettered = ''dead_lettered''"
| "outcome_label_of OtherOutcome = ''unknown''"

definition outcome_label :: "job_record \<Rightarrow> string" where
  "outcome_label r = outcome_label_of (jr_outcome r)"

definition duration_ms :: "job_record \<Rightarrow> nat" where
  "duration_ms r = jr_duration r div 1000000"

type_synonym job_observer = "job_record list"

definition observer_new :: job_observer where
  "observer_new = []"

definition observer_records :: "job_observer \<Rightarrow> job_record list" where
  "observer_records o1 = o1"

definition on_job_finished :: "job_observer \<Rightarrow> string \<Rightarrow> string \<Rightarrow> job_outcome \<Rightarrow> nat \<Rightarrow> job_observer" where
  "on_job_finished o1 lane kind outcome duration =
     o1 @ [\<lparr>jr_lane = lane, jr_kind = kind, jr_outcome = outcome, jr_duration = duration\<rparr>]"

lemma observer_order:
  "observer_records (fold (\<lambda>(l, k, oc, dur) o1. on_job_finished o1 l k oc dur) es o1) =
    o1 @ map (\<lambda>(l, k, oc, dur). \<lparr>jr_lane = l, jr_kind = k, jr_outcome = oc, jr_duration = dur\<rparr>) es"
  by (induction es arbitrary: o1) (auto simp: observer_records_def on_job_finished_def)

end
