(* ===== verification/Sqlite.thy ===== *)
theory Sqlite
  imports Main Prelude Model
begin

text \<open>
  The database file behind the durable stores and its migrations
  (\<open>crates/mirrorlane-storage/src/sqlite_common.rs\<close> and the \<open>init\<close> functions of the four stores).
  The model is the content of one file: its \<open>user_version\<close> and its tables, a missing table being
  \<open>None\<close>. The SQL of the source is translated statement by statement; a statement that SQLite
  rejects is \<open>None\<close>. The connection PRAGMAs of \<open>configure\<close> (WAL, \<open>busy_timeout\<close>) do not change the
  content and are left out.
\<close>

section \<open>The content of a file\<close>

record message_row =
  mr_id :: string
  mr_seq :: int
  mr_payload :: string

record derived_row =
  dr_version :: string
  dr_conversation :: string
  dr_content :: string
  dr_payload :: string

record projection_row =
  pr_version :: string
  pr_key :: string
  pr_payload :: string

record trace_row =
  tr_rowid :: int
  tr_id :: string
  tr_payload :: string

record sqlite_db =
  db_user_version :: int
  db_messages :: "message_row list option"
  db_messages_v2 :: "message_row list option"
  db_derived :: "derived_row list option"
  db_projections :: "projection_row list option"
  db_traces :: "trace_row list option"

definition db_empty :: sqlite_db where
  "db_empty =
     \<lparr>db_user_version = 0, db_messages = None, db_messages_v2 = None, db_derived = None,
      db_projections = None, db_traces = None\<rparr>"

section \<open>Batches and migrations\<close>

type_synonym statement = "sqlite_db \<Rightarrow> sqlite_db option"

fun execute_batch :: "statement list \<Rightarrow> statement" where
  "execute_batch [] db = Some db"
| "execute_batch (st # sts) db = (case st db of None \<Rightarrow> None | Some db' \<Rightarrow> execute_batch sts db')"

definition set_user_version :: "int \<Rightarrow> statement" where
  "set_user_version v db = Some (db\<lparr>db_user_version := v\<rparr>)"

text \<open>
  The loop of \<open>migrate\<close>. Each batch is one transaction: when it fails the connection is dropped
  with the error and the file keeps the content it had before the batch. The flag is whether
  \<open>migrate\<close> returned \<open>Ok\<close>.
\<close>

fun migrate_loop :: "nat \<Rightarrow> int \<Rightarrow> statement list list \<Rightarrow> sqlite_db \<Rightarrow> bool \<times> sqlite_db" where
  "migrate_loop i current [] db = (True, db)"
| "migrate_loop i current (step # steps) db =
     (if int i < current then migrate_loop (Suc i) current steps db
      else case execute_batch (step @ [set_user_version (int i + 1)]) db of
             None \<Rightarrow> (False, db)
           | Some db' \<Rightarrow> migrate_loop (Suc i) current steps db')"

definition migrate :: "statement list list \<Rightarrow> sqlite_db \<Rightarrow> bool \<times> sqlite_db" where
  "migrate steps db = migrate_loop 0 (db_user_version db) steps db"

section \<open>The schemas\<close>

definition create_messages :: statement where
  "create_messages db = Some (case db_messages db of
     None \<Rightarrow> db\<lparr>db_messages := Some []\<rparr> | Some _ \<Rightarrow> db)"

definition create_messages_v2 :: statement where
  "create_messages_v2 db = (case db_messages_v2 db of
     None \<Rightarrow> Some (db\<lparr>db_messages_v2 := Some []\<rparr>) | Some _ \<Rightarrow> None)"

text \<open>\<open>ROW_NUMBER() OVER (ORDER BY seq)\<close> numbers the rows from one.\<close>

definition renumbered :: "message_row list \<Rightarrow> message_row list" where
  "renumbered rows =
     map (\<lambda>(n, r). r\<lparr>mr_seq := int n\<rparr>) (List.enumerate 1 (sort_key mr_seq rows))"

definition unique_rows :: "message_row list \<Rightarrow> bool" where
  "unique_rows rows = (distinct (map mr_id rows) \<and> distinct (map mr_seq rows))"

definition copy_messages :: statement where
  "copy_messages db = (case (db_messages db, db_messages_v2 db) of
     (Some rows, Some new) \<Rightarrow>
       (let rows' = new @ renumbered rows in
        if unique_rows rows' then Some (db\<lparr>db_messages_v2 := Some rows'\<rparr>) else None)
   | _ \<Rightarrow> None)"

definition drop_messages :: statement where
  "drop_messages db = (case db_messages db of
     None \<Rightarrow> None | Some _ \<Rightarrow> Some (db\<lparr>db_messages := None\<rparr>))"

definition rename_messages_v2 :: statement where
  "rename_messages_v2 db = (case (db_messages db, db_messages_v2 db) of
     (None, Some rows) \<Rightarrow> Some (db\<lparr>db_messages := Some rows, db_messages_v2 := None\<rparr>)
   | _ \<Rightarrow> None)"

definition message_steps :: "statement list list" where
  "message_steps =
     [[create_messages], [create_messages_v2, copy_messages, drop_messages, rename_messages_v2]]"

definition create_derived :: statement where
  "create_derived db = Some (case db_derived db of
     None \<Rightarrow> db\<lparr>db_derived := Some []\<rparr> | Some _ \<Rightarrow> db)"

definition create_projections :: statement where
  "create_projections db = Some (case db_projections db of
     None \<Rightarrow> db\<lparr>db_projections := Some []\<rparr> | Some _ \<Rightarrow> db)"

definition create_traces :: statement where
  "create_traces db = Some (case db_traces db of
     None \<Rightarrow> db\<lparr>db_traces := Some []\<rparr> | Some _ \<Rightarrow> db)"

section \<open>Opening a store\<close>

text \<open>\<open>open\<close> is \<open>init\<close> on the file at a path, \<open>open_in_memory\<close> is \<open>init\<close> on \<open>db_empty\<close>.\<close>

definition message_store_init :: "sqlite_db \<Rightarrow> bool \<times> sqlite_db" where
  "message_store_init db = migrate message_steps db"

definition derived_cache_init :: "sqlite_db \<Rightarrow> bool \<times> sqlite_db" where
  "derived_cache_init db = migrate [[create_derived]] db"

definition projection_cache_init :: "sqlite_db \<Rightarrow> bool \<times> sqlite_db" where
  "projection_cache_init db = migrate [[create_projections]] db"

definition trace_store_init :: "sqlite_db \<Rightarrow> bool \<times> sqlite_db" where
  "trace_store_init db = migrate [[create_traces]] db"

section \<open>Migrations in general\<close>

lemma execute_batch_append:
  "execute_batch (xs @ ys) db =
    (case execute_batch xs db of None \<Rightarrow> None | Some db' \<Rightarrow> execute_batch ys db')"
  by (induction xs arbitrary: db) (auto split: option.split)

lemma execute_batch_version:
  "execute_batch (step @ [set_user_version v]) db = Some db' \<Longrightarrow> db_user_version db' = v"
  by (auto simp: execute_batch_append set_user_version_def split: option.splits)

lemma migrate_loop_skip:
  "int (i + length steps) \<le> current \<Longrightarrow> migrate_loop i current steps db = (True, db)"
  by (induction steps arbitrary: i) auto

lemma migrate_loop_version:
  assumes "migrate_loop i current steps db = (True, db')" and "db_user_version db = max current (int i)"
  shows "db_user_version db' = max current (int (i + length steps))"
  using assms
proof (induction steps arbitrary: i db)
  case Nil
  then show ?case by auto
next
  case (Cons step steps)
  show ?case
  proof (cases "int i < current")
    case True
    with Cons.prems have "migrate_loop (Suc i) current steps db = (True, db')"
      and "db_user_version db = max current (int (Suc i))" by auto
    from Cons.IH [OF this] True show ?thesis by simp
  next
    case False
    then obtain db1 where db1: "execute_batch (step @ [set_user_version (int i + 1)]) db = Some db1"
      and rest: "migrate_loop (Suc i) current steps db1 = (True, db')"
      using Cons.prems(1) by (auto split: option.splits)
    have "db_user_version db1 = max current (int (Suc i))"
      using execute_batch_version [OF db1] False by simp
    from Cons.IH [OF rest this] show ?thesis by simp
  qed
qed

lemma migrate_version:
  "0 \<le> db_user_version db \<Longrightarrow> migrate steps db = (True, db') \<Longrightarrow>
    db_user_version db' = max (db_user_version db) (int (length steps))"
  unfolding migrate_def using migrate_loop_version [of 0 "db_user_version db" steps db db'] by auto

lemma migrate_done:
  "int (length steps) \<le> db_user_version db \<Longrightarrow> migrate steps db = (True, db)"
  unfolding migrate_def by (simp add: migrate_loop_skip)

text \<open>Opening twice is opening once.\<close>

lemma migrate_twice:
  "0 \<le> db_user_version db \<Longrightarrow> migrate steps db = (True, db') \<Longrightarrow> migrate steps db' = (True, db')"
  by (rule migrate_done) (simp add: migrate_version)

text \<open>
  A failed migration leaves a whole number of steps: the content is the one of a successful
  migration to some earlier version, never the middle of a step.
\<close>

lemma migrate_loop_failure:
  "migrate_loop i current steps db = (False, db') \<Longrightarrow>
    \<exists>k<length steps. migrate_loop i current (take k steps) db = (True, db') \<and>
      execute_batch (steps ! k @ [set_user_version (int (i + k) + 1)]) db' = None"
proof (induction steps arbitrary: i db)
  case (Cons step steps)
  show ?case
  proof (cases "int i < current")
    case True
    with Cons.prems have "migrate_loop (Suc i) current steps db = (False, db')" by simp
    then obtain k where "k < length steps" "migrate_loop (Suc i) current (take k steps) db = (True, db')"
      "execute_batch (steps ! k @ [set_user_version (int (Suc i + k) + 1)]) db' = None"
      using Cons.IH by blast
    with True show ?thesis by (intro exI [of _ "Suc k"]) simp
  next
    case run: False
    show ?thesis
    proof (cases "execute_batch (step @ [set_user_version (int i + 1)]) db")
      case None
      with run Cons.prems show ?thesis by (intro exI [of _ 0]) simp
    next
      case (Some db1)
      with run Cons.prems have "migrate_loop (Suc i) current steps db1 = (False, db')" by simp
      then obtain k where "k < length steps" "migrate_loop (Suc i) current (take k steps) db1 = (True, db')"
        "execute_batch (steps ! k @ [set_user_version (int (Suc i + k) + 1)]) db' = None"
        using Cons.IH by blast
      with run Some show ?thesis by (intro exI [of _ "Suc k"]) simp
    qed
  qed
qed simp

lemma migrate_failure:
  "migrate steps db = (False, db') \<Longrightarrow>
    \<exists>k<length steps. migrate (take k steps) db = (True, db') \<and>
      execute_batch (steps ! k @ [set_user_version (int k + 1)]) db' = None"
  using migrate_loop_failure [of 0] by (fastforce simp: migrate_def)

section \<open>The schemas in particular\<close>

lemma length_message_steps: "length message_steps = 2"
  by (simp add: message_steps_def)

lemma renumbered_ids: "map mr_id (renumbered rows) = map mr_id (sort_key mr_seq rows)"
  unfolding renumbered_def map_map
  by (rule nth_equalityI) (simp_all add: nth_enumerate_eq)

lemma renumbered_payloads: "map mr_payload (renumbered rows) = map mr_payload (sort_key mr_seq rows)"
  unfolding renumbered_def map_map
  by (rule nth_equalityI) (simp_all add: nth_enumerate_eq)

lemma renumbered_seqs: "map mr_seq (renumbered rows) = map int [1..<Suc (length rows)]"
  unfolding renumbered_def map_map
  by (rule nth_equalityI) (simp_all add: nth_enumerate_eq del: upt_Suc)

lemma renumbered_unique: "unique_rows (renumbered rows) \<longleftrightarrow> distinct (map mr_id rows)"
proof -
  have "distinct (map mr_id (sort_key mr_seq rows)) \<longleftrightarrow> distinct (map mr_id rows)"
    by (simp add: distinct_map)
  moreover have "distinct (map int [1..<Suc (length rows)])" by (simp add: distinct_map del: upt_Suc)
  ultimately show ?thesis by (simp only: unique_rows_def renumbered_ids renumbered_seqs simp_thms)
qed

lemma message_store_rebuild:
  assumes "distinct (map mr_id rows)" and "db_messages db = Some rows" and "db_messages_v2 db = None"
  shows "execute_batch [create_messages_v2, copy_messages, drop_messages, rename_messages_v2] db =
    Some (db\<lparr>db_messages := Some (renumbered rows)\<rparr>)"
  using assms renumbered_unique [of rows]
  by (simp add: create_messages_v2_def copy_messages_def drop_messages_def rename_messages_v2_def Let_def)

text \<open>Opening a message log: what the file holds afterwards, by the version it came with.\<close>

lemma message_store_init_unversioned:
  assumes "db_user_version db = 0" and "db_messages_v2 db = None"
    and "distinct (map mr_id (case db_messages db of None \<Rightarrow> [] | Some rows \<Rightarrow> rows))"
  shows "message_store_init db =
    (True, db\<lparr>db_messages := Some (renumbered (case db_messages db of None \<Rightarrow> [] | Some rows \<Rightarrow> rows)),
              db_user_version := 2\<rparr>)"
proof -
  let ?rows = "case db_messages db of None \<Rightarrow> [] | Some rows \<Rightarrow> rows"
  let ?db1 = "db\<lparr>db_messages := Some ?rows, db_user_version := 1\<rparr>"
  have one: "execute_batch ([create_messages] @ [set_user_version 1]) db = Some ?db1"
    using assms(1) by (auto simp: create_messages_def set_user_version_def split: option.split)
  have "execute_batch ([create_messages_v2, copy_messages, drop_messages, rename_messages_v2] @
      [set_user_version 2]) ?db1 = Some (?db1\<lparr>db_messages := Some (renumbered ?rows), db_user_version := 2\<rparr>)"
    unfolding execute_batch_append
    by (subst message_store_rebuild [of ?rows]) (use assms in \<open>simp_all add: set_user_version_def\<close>)
  with one show ?thesis
    by (simp add: message_store_init_def migrate_def message_steps_def assms(1))
qed

lemma message_store_init_fresh:
  "message_store_init db_empty = (True, db_empty\<lparr>db_messages := Some [], db_user_version := 2\<rparr>)"
  using message_store_init_unversioned [of db_empty] by (simp add: db_empty_def renumbered_def)

text \<open>
  The version is one number for the whole file, and each store counts its own steps from zero.
  A store opened on a file that another store has stamped skips its schema.
\<close>

lemma single_step_skipped:
  "1 \<le> db_user_version db \<Longrightarrow> migrate [step] db = (True, db)"
  by (rule migrate_done) simp

lemma single_step_unversioned:
  "db_user_version db = 0 \<Longrightarrow> step db = Some db' \<Longrightarrow>
    migrate [[step]] db = (True, db'\<lparr>db_user_version := 1\<rparr>)"
  by (simp add: migrate_def set_user_version_def)

lemma derived_cache_init_fresh:
  "derived_cache_init db_empty = (True, db_empty\<lparr>db_derived := Some [], db_user_version := 1\<rparr>)"
  using single_step_unversioned [of db_empty create_derived "db_empty\<lparr>db_derived := Some []\<rparr>"]
  by (simp add: derived_cache_init_def db_empty_def create_derived_def)

lemma projection_cache_init_fresh:
  "projection_cache_init db_empty = (True, db_empty\<lparr>db_projections := Some [], db_user_version := 1\<rparr>)"
  using single_step_unversioned [of db_empty create_projections "db_empty\<lparr>db_projections := Some []\<rparr>"]
  by (simp add: projection_cache_init_def db_empty_def create_projections_def)

lemma trace_store_init_fresh:
  "trace_store_init db_empty = (True, db_empty\<lparr>db_traces := Some [], db_user_version := 1\<rparr>)"
  using single_step_unversioned [of db_empty create_traces "db_empty\<lparr>db_traces := Some []\<rparr>"]
  by (simp add: trace_store_init_def db_empty_def create_traces_def)

text \<open>The other way round the message log cannot be opened at all: its second step fails.\<close>

lemma message_store_init_after_other:
  assumes "db_user_version db = 1" and "db_messages db = None"
  shows "message_store_init db = (False, db)"
  using assms
  by (auto simp: message_store_init_def migrate_def message_steps_def create_messages_v2_def
      copy_messages_def split: option.split)

section \<open>What a migration leaves alone\<close>

lemma execute_batch_frame:
  assumes "\<And>st db db'. st \<in> set sts \<Longrightarrow> st db = Some db' \<Longrightarrow> f db' = f db"
  shows "execute_batch sts db = Some db' \<Longrightarrow> f db' = f db"
  using assms by (induction sts arbitrary: db) (fastforce split: option.splits)+

lemma migrate_frame:
  assumes "\<And>step st db db'. step \<in> set steps \<Longrightarrow> st \<in> set step \<Longrightarrow> st db = Some db' \<Longrightarrow> f db' = f db"
    and "\<And>v db. f (db\<lparr>db_user_version := v\<rparr>) = f db"
  shows "migrate steps db = (b, db') \<Longrightarrow> f db' = f db"
proof -
  have "migrate_loop i current ss db = (b, db') \<Longrightarrow> set ss \<subseteq> set steps \<Longrightarrow> f db' = f db" for i current ss db
  proof (induction ss arbitrary: i db)
    case (Cons step ss)
    show ?case
    proof (cases "int i < current")
      case True
      with Cons show ?thesis by simp
    next
      case False
      show ?thesis
      proof (cases "execute_batch (step @ [set_user_version (int i + 1)]) db")
        case None
        with False Cons.prems(1) show ?thesis by simp
      next
        case (Some db1)
        have "f db1 = f db"
          by (rule execute_batch_frame [OF _ Some])
            (use Cons.prems(2) assms in \<open>auto simp: set_user_version_def\<close>)
        with False Some Cons show ?thesis by simp
      qed
    qed
  qed simp
  then show "migrate steps db = (b, db') \<Longrightarrow> f db' = f db" by (auto simp: migrate_def)
qed

lemma message_store_init_frame:
  assumes "message_store_init db = (b, db')"
  shows "db_derived db' = db_derived db" and "db_projections db' = db_projections db"
    and "db_traces db' = db_traces db"
proof -
  let ?f = "\<lambda>db. (db_derived db, db_projections db, db_traces db)"
  have step: "?f db' = ?f db" if "step \<in> set message_steps" "st \<in> set step" "st db = Some db'" for step st db db'
    using that
    by (auto simp: message_steps_def create_messages_def create_messages_v2_def copy_messages_def
        drop_messages_def rename_messages_v2_def Let_def split: option.splits if_splits)
  have "?f db' = ?f db"
  proof (rule migrate_frame [where f = ?f, OF _ _ assms [unfolded message_store_init_def]])
    fix "step" st db db'
    assume "step \<in> set message_steps" "st \<in> set step" "st db = Some db'"
    then show "?f db' = ?f db" by (rule step)
  qed simp
  then show "db_derived db' = db_derived db" and "db_projections db' = db_projections db"
    and "db_traces db' = db_traces db" by simp_all
qed

text \<open>Opening an already versioned log changes nothing.\<close>

lemma message_store_init_done: "2 \<le> db_user_version db \<Longrightarrow> message_store_init db = (True, db)"
  unfolding message_store_init_def by (rule migrate_done) (simp add: length_message_steps)

end
