(* ===== verification/SqliteLog.thy ===== *)
theory SqliteLog
  imports Main Prelude Model MessageLog Sqlite
begin

text \<open>
  The durable message log (\<open>crates/mirrorlane-storage/src/sqlite_message_store.rs\<close>). A payload is
  the JSON of \<open>serde_json\<close>, an external library: \<open>enc\<close> and \<open>dec\<close> are its two directions, and
  \<open>jget\<close> is SQLite's \<open>json_extract(payload, '$.conversation.id')\<close>, whose outer \<open>None\<close> is
  malformed JSON and inner \<open>None\<close> a value that is not text. An operation is \<open>None\<close> when it panics
  (a missing table, an undecodable payload).
\<close>

section \<open>Operations\<close>

type_synonym json_extract = "string \<Rightarrow> string option option"

text \<open>\<open>COALESCE(MAX(seq), 0) + 1\<close>\<close>

definition next_seq :: "message_row list \<Rightarrow> int" where
  "next_seq rows = (if rows = [] then 0 else Max (set (map mr_seq rows))) + 1"

definition sqlite_append ::
  "(message_envelope \<Rightarrow> string) \<Rightarrow> message_envelope \<Rightarrow> sqlite_db \<Rightarrow> sqlite_db option" where
  "sqlite_append enc m db =
     (let payload = enc m; i = message_id_str (env_id m) in
      case db_messages db of
        None \<Rightarrow> None
      | Some rows \<Rightarrow>
          Some (db\<lparr>db_messages := Some
            (if i \<in> set (map mr_id rows)
             then map (\<lambda>r. if mr_id r = i then r\<lparr>mr_payload := payload\<rparr> else r) rows
             else rows @ [\<lparr>mr_id = i, mr_seq = next_seq rows, mr_payload = payload\<rparr>])\<rparr>))"

definition sqlite_get ::
  "(string \<Rightarrow> message_envelope option) \<Rightarrow> sqlite_db \<Rightarrow> message_id \<Rightarrow> message_envelope option option" where
  "sqlite_get dec db i =
     (case db_messages db of
        None \<Rightarrow> None
      | Some rows \<Rightarrow>
          (case find (\<lambda>r. mr_id r = message_id_str i) rows of
             None \<Rightarrow> Some None
           | Some r \<Rightarrow> map_option Some (dec (mr_payload r))))"

definition sqlite_all ::
  "(string \<Rightarrow> message_envelope option) \<Rightarrow> sqlite_db \<Rightarrow> message_envelope list option" where
  "sqlite_all dec db =
     (case db_messages db of
        None \<Rightarrow> None
      | Some rows \<Rightarrow> those (map (\<lambda>r. dec (mr_payload r)) (sort_key mr_seq rows)))"

text \<open>\<open>GROUP BY cid ORDER BY MIN(seq)\<close>: one row per distinct value, a NULL among them.\<close>

definition min_seq :: "('c \<times> int) list \<Rightarrow> 'c \<Rightarrow> int" where
  "min_seq rows c = Min (set (map snd (filter (\<lambda>r. fst r = c) rows)))"

definition grouped_by_min_seq :: "('c \<times> int) list \<Rightarrow> 'c list" where
  "grouped_by_min_seq rows = sort_key (min_seq rows) (remdups (map fst rows))"

definition sqlite_conversation_ids :: "json_extract \<Rightarrow> sqlite_db \<Rightarrow> conversation_id list option" where
  "sqlite_conversation_ids jget db =
     (case db_messages db of
        None \<Rightarrow> None
      | Some rows \<Rightarrow>
          (case those (map (\<lambda>r. map_option (\<lambda>c. (c, mr_seq r)) (jget (mr_payload r))) rows) of
             None \<Rightarrow> None
           | Some pairs \<Rightarrow> map_option (map ConversationId) (those (grouped_by_min_seq pairs))))"

definition sqlite_messages_for ::
  "(string \<Rightarrow> message_envelope option) \<Rightarrow> json_extract \<Rightarrow> sqlite_db \<Rightarrow> conversation_id \<Rightarrow>
   message_envelope list option" where
  "sqlite_messages_for dec jget db c =
     (case db_messages db of
        None \<Rightarrow> None
      | Some rows \<Rightarrow>
          if \<exists>r\<in>set rows. jget (mr_payload r) = None then None
          else those (map (\<lambda>r. dec (mr_payload r))
            (sort_key mr_seq
              (filter (\<lambda>r. jget (mr_payload r) = Some (Some (conversation_id_str c))) rows))))"

section \<open>The invariant\<close>

definition message_storable ::
  "(message_envelope \<Rightarrow> string) \<Rightarrow> (string \<Rightarrow> message_envelope option) \<Rightarrow> json_extract \<Rightarrow>
   message_envelope \<Rightarrow> bool" where
  "message_storable enc dec jget m =
     (dec (enc m) = Some m \<and>
      jget (enc m) = Some (Some (conversation_id_str (conversation_of m))))"

text \<open>What a row holds: the message of its id, and the conversation SQL sees in it.\<close>

definition row_message ::
  "(string \<Rightarrow> message_envelope option) \<Rightarrow> json_extract \<Rightarrow> message_row \<Rightarrow> message_envelope \<Rightarrow> bool" where
  "row_message dec jget r m =
     (dec (mr_payload r) = Some m \<and> mr_id r = message_id_str (env_id m) \<and>
      jget (mr_payload r) = Some (Some (conversation_id_str (conversation_of m))))"

definition sqlite_log_ok :: "(string \<Rightarrow> message_envelope option) \<Rightarrow> json_extract \<Rightarrow> sqlite_db \<Rightarrow> bool" where
  "sqlite_log_ok dec jget db =
     (\<exists>rows ms. db_messages db = Some rows \<and> distinct (map mr_id rows) \<and>
        sorted_wrt (<) (map mr_seq rows) \<and> list_all2 (row_message dec jget) rows ms)"

lemma sqlite_log_okE:
  assumes "sqlite_log_ok dec jget db"
  obtains rows ms where "db_messages db = Some rows" and "distinct (map mr_id rows)"
    and "sorted_wrt (<) (map mr_seq rows)" and "list_all2 (row_message dec jget) rows ms"
  using assms unfolding sqlite_log_ok_def by blast

lemma sqlite_log_okI:
  "db_messages db = Some rows \<Longrightarrow> distinct (map mr_id rows) \<Longrightarrow> sorted_wrt (<) (map mr_seq rows) \<Longrightarrow>
    list_all2 (row_message dec jget) rows ms \<Longrightarrow> sqlite_log_ok dec jget db"
  unfolding sqlite_log_ok_def by blast

lemma rows_ids: "list_all2 (row_message dec jget) rows ms \<Longrightarrow> map mr_id rows = map (message_id_str \<circ> env_id) ms"
  by (induction rule: list_all2_induct) (auto simp: row_message_def)

lemma rows_decode: "list_all2 (row_message dec jget) rows ms \<Longrightarrow> those (map (\<lambda>r. dec (mr_payload r)) rows) = Some ms"
  by (induction rule: list_all2_induct) (auto simp: row_message_def)

lemma rows_log_wf:
  assumes "list_all2 (row_message dec jget) rows ms" and "distinct (map mr_id rows)"
  shows "log_wf ms"
proof -
  have "distinct (map message_id_str (map env_id ms))"
    using assms by (simp add: rows_ids)
  then show ?thesis unfolding log_wf_def by (simp only: distinct_map)
qed

lemma sort_key_ascending: "sorted_wrt (<) (map f xs) \<Longrightarrow> sort_key f xs = (xs :: 'a list)" for f :: "'a \<Rightarrow> int"
  by (rule sort_key_id_if_sorted) (simp add: strict_sorted_imp_sorted)

lemma sorted_filter_key: "sorted_wrt (<) (map f xs) \<Longrightarrow> sorted_wrt (<) (map f (filter P xs))" for f :: "'a \<Rightarrow> int"
  by (simp add: sorted_wrt_map sorted_wrt_filter)

lemma sqlite_all_rows:
  assumes "db_messages db = Some rows" and "sorted_wrt (<) (map mr_seq rows)"
    and "list_all2 (row_message dec jget) rows ms"
  shows "sqlite_all dec db = Some ms"
  using assms by (simp add: sqlite_all_def sort_key_ascending rows_decode)

section \<open>Appending\<close>

lemma next_seq_greater: "r \<in> set rows \<Longrightarrow> mr_seq r < next_seq rows"
proof -
  assume "r \<in> set rows"
  then have "mr_seq r \<le> Max (set (map mr_seq rows))" by (intro Max_ge) auto
  with \<open>r \<in> set rows\<close> show ?thesis by (auto simp: next_seq_def)
qed

lemma rows_append_new:
  assumes "message_storable enc dec jget m" and "list_all2 (row_message dec jget) rows ms"
  shows "list_all2 (row_message dec jget)
    (rows @ [\<lparr>mr_id = message_id_str (env_id m), mr_seq = n, mr_payload = enc m\<rparr>]) (ms @ [m])"
  using assms by (auto simp: list_all2_appendI message_storable_def row_message_def)

lemma rows_replace:
  assumes "message_storable enc dec jget m" and "list_all2 (row_message dec jget) rows ms"
    and "distinct (map mr_id rows)" and "env_id m \<in> env_id ` set ms"
  shows "list_all2 (row_message dec jget)
    (map (\<lambda>r. if mr_id r = message_id_str (env_id m) then r\<lparr>mr_payload := enc m\<rparr> else r) rows)
    (log_append m ms)"
  using assms(2-4)
proof (induction rule: list_all2_induct)
  case (Cons r rs x xs)
  have id: "mr_id r = message_id_str (env_id x)" using Cons.hyps by (simp add: row_message_def)
  show ?case
  proof (cases "env_id x = env_id m")
    case True
    have "\<forall>s\<in>set rs. mr_id s \<noteq> message_id_str (env_id m)"
      using Cons.prems(1) id True by (auto simp: image_iff)
    then have "map (\<lambda>r. if mr_id r = message_id_str (env_id m) then r\<lparr>mr_payload := enc m\<rparr> else r) rs = rs"
      by (intro map_idI) simp
    moreover have "row_message dec jget (r\<lparr>mr_payload := enc m\<rparr>) m"
      using assms(1) id True by (simp add: message_storable_def row_message_def)
    ultimately show ?thesis using Cons.hyps id True by simp
  next
    case False
    with Cons.prems have "env_id m \<in> env_id ` set xs" by auto
    moreover have "mr_id r \<noteq> message_id_str (env_id m)" using id False message_id.expand [of "env_id x" "env_id m"] by auto
    ultimately show ?thesis using Cons False by simp
  qed
qed simp

lemma sqlite_append_ok:
  assumes "sqlite_log_ok dec jget db" and "message_storable enc dec jget m"
  obtains db' ms where "sqlite_append enc m db = Some db'" and "sqlite_log_ok dec jget db'"
    and "sqlite_all dec db = Some ms" and "sqlite_all dec db' = Some (log_append m ms)"
proof -
  obtain rows ms where rows: "db_messages db = Some rows" "distinct (map mr_id rows)"
    "sorted_wrt (<) (map mr_seq rows)" "list_all2 (row_message dec jget) rows ms"
    using assms(1) by (rule sqlite_log_okE)
  have old: "sqlite_all dec db = Some ms" by (rule sqlite_all_rows [OF rows(1,3,4)])
  let ?i = "message_id_str (env_id m)"
  have mem: "?i \<in> set (map mr_id rows) \<longleftrightarrow> env_id m \<in> env_id ` set ms"
    unfolding rows_ids [OF rows(4)] by (auto intro: message_id.expand)
  show thesis
  proof (cases "?i \<in> set (map mr_id rows)")
    case True
    let ?f = "\<lambda>r. if mr_id r = ?i then r\<lparr>mr_payload := enc m\<rparr> else r"
    have keys: "map mr_id (map ?f rows) = map mr_id rows" "map mr_seq (map ?f rows) = map mr_seq rows"
      unfolding map_map by (auto intro: map_cong)
    have all2: "list_all2 (row_message dec jget) (map ?f rows) (log_append m ms)"
      by (rule rows_replace [OF assms(2) rows(4,2)]) (use True mem in blast)
    let ?db = "db\<lparr>db_messages := Some (map ?f rows)\<rparr>"
    have msgs: "db_messages ?db = Some (map ?f rows)" by simp
    have "sqlite_append enc m db = Some ?db" using rows(1) True by (simp add: sqlite_append_def Let_def)
    moreover have "sqlite_log_ok dec jget ?db"
      by (rule sqlite_log_okI [OF msgs _ _ all2]) (simp_all only: keys rows(2,3))
    moreover have "sqlite_all dec ?db = Some (log_append m ms)"
      by (rule sqlite_all_rows [OF msgs _ all2]) (simp only: keys rows(3))
    ultimately show ?thesis using old that by blast
  next
    case False
    let ?rows = "rows @ [\<lparr>mr_id = ?i, mr_seq = next_seq rows, mr_payload = enc m\<rparr>]"
    let ?db = "db\<lparr>db_messages := Some ?rows\<rparr>"
    have msgs: "db_messages ?db = Some ?rows" by simp
    have all2: "list_all2 (row_message dec jget) ?rows (log_append m ms)"
      using rows_append_new [OF assms(2) rows(4)] False mem by (simp add: log_append_new)
    have sorted: "sorted_wrt (<) (map mr_seq ?rows)"
      using rows(3) by (auto simp: sorted_wrt_append next_seq_greater)
    have "distinct (map mr_id ?rows)" using rows(2) False by simp
    then have "sqlite_log_ok dec jget ?db"
      by (rule sqlite_log_okI [OF msgs _ sorted all2])
    moreover have "sqlite_append enc m db = Some ?db" using rows(1) False by (simp add: sqlite_append_def Let_def)
    moreover have "sqlite_all dec ?db = Some (log_append m ms)"
      by (rule sqlite_all_rows [OF msgs sorted all2])
    ultimately show ?thesis using old that by blast
  qed
qed

section \<open>Reading\<close>

lemma sqlite_get_ok:
  assumes "sqlite_log_ok dec jget db" and "sqlite_all dec db = Some ms"
  shows "sqlite_get dec db i = Some (log_find i ms)"
proof -
  obtain rows ns where rows: "db_messages db = Some rows" "distinct (map mr_id rows)"
    "sorted_wrt (<) (map mr_seq rows)" "list_all2 (row_message dec jget) rows ns"
    using assms(1) by (rule sqlite_log_okE)
  have ms: "ns = ms" using sqlite_all_rows [OF rows(1,3,4)] assms(2) by simp
  have "(case find (\<lambda>r. mr_id r = message_id_str i) rs of
      None \<Rightarrow> Some None | Some r \<Rightarrow> map_option Some (dec (mr_payload r))) = Some (log_find i xs)"
    if "list_all2 (row_message dec jget) rs xs" for rs xs
    using that by (induction rule: list_all2_induct)
      (auto simp: log_find_def row_message_def message_id.expand)
  from this [OF rows(4)] show ?thesis by (simp add: sqlite_get_def rows(1) ms)
qed

lemma min_seq_snoc:
  assumes "\<forall>r\<in>set rows. snd r < snd x"
  shows "c \<in> set (map fst rows) \<Longrightarrow> min_seq (rows @ [x]) c = min_seq rows c"
    and "fst x \<notin> set (map fst rows) \<Longrightarrow> min_seq (rows @ [x]) (fst x) = snd x"
proof -
  show "min_seq (rows @ [x]) c = min_seq rows c" if "c \<in> set (map fst rows)"
  proof (cases "fst x = c")
    case True
    let ?A = "set (map snd (filter (\<lambda>r. fst r = c) rows))"
    have ne: "?A \<noteq> {}" using that by (auto simp: filter_empty_conv)
    have "min_seq (rows @ [x]) c = Min (insert (snd x) ?A)" using True by (simp add: min_seq_def)
    also have "\<dots> = min (snd x) (Min ?A)" using ne by (intro Min_insert) auto
    also have "\<dots> = Min ?A"
    proof -
      have "Min ?A \<in> ?A" using ne by (intro Min_in) auto
      then have "Min ?A < snd x" using assms by auto
      then show ?thesis by simp
    qed
    finally show ?thesis by (simp add: min_seq_def)
  qed (simp add: min_seq_def)
  show "min_seq (rows @ [x]) (fst x) = snd x" if "fst x \<notin> set (map fst rows)"
  proof -
    have "\<forall>r\<in>set rows. fst r \<noteq> fst x" using that by (metis image_eqI list.set_map)
    then have "filter (\<lambda>r. fst r = fst x) rows = []" by (simp add: filter_empty_conv)
    then show ?thesis by (simp add: min_seq_def)
  qed
qed

lemma min_seq_bound:
  assumes "c \<in> set (map fst rows)" and "\<forall>r\<in>set rows. snd r < n"
  shows "min_seq rows c < n"
proof -
  have "Min (set (map snd (filter (\<lambda>r. fst r = c) rows))) \<in> set (map snd (filter (\<lambda>r. fst r = c) rows))"
    using assms(1) by (intro Min_in) (auto simp: filter_empty_conv)
  then show ?thesis using assms(2) by (auto simp: min_seq_def)
qed

lemma min_seq_in:
  "c \<in> set (map fst rows) \<Longrightarrow> (c, min_seq rows c) \<in> set rows"
proof -
  assume "c \<in> set (map fst rows)"
  then have "Min (set (map snd (filter (\<lambda>r. fst r = c) rows))) \<in> set (map snd (filter (\<lambda>r. fst r = c) rows))"
    by (intro Min_in) (auto simp: filter_empty_conv)
  then show ?thesis by (auto simp: min_seq_def)
qed

text \<open>
  In rows of ascending \<open>seq\<close>, ordering the groups by their least \<open>seq\<close> is listing them by first
  appearance.
\<close>

definition first_seen_order :: "'a list \<Rightarrow> 'a list" where
  "first_seen_order xs = rev (remdups (rev xs))"

lemma first_seen_order_snoc:
  "first_seen_order (xs @ [x]) = (if x \<in> set xs then first_seen_order xs else first_seen_order xs @ [x])"
  by (simp add: first_seen_order_def)

lemma set_first_seen_order [simp]: "set (first_seen_order xs) = set xs"
  by (simp add: first_seen_order_def)

lemma first_seen_order_map: "inj f \<Longrightarrow> first_seen_order (map f xs) = map f (first_seen_order xs)"
proof -
  assume "inj f"
  then have "remdups (map f ys) = map f (remdups ys)" for ys
    by (induction ys) (auto dest: injD)
  then show ?thesis by (simp add: first_seen_order_def rev_map)
qed

lemma first_seen_min_seq:
  "sorted_wrt (<) (map snd rows) \<Longrightarrow>
    sorted_wrt (\<lambda>a b. min_seq rows a < min_seq rows b) (first_seen_order (map fst rows))"
proof (induction rows rule: rev_induct)
  case (snoc x rows)
  have less: "\<forall>r\<in>set rows. snd r < snd x" and asc: "sorted_wrt (<) (map snd rows)"
    using snoc.prems by (simp_all add: sorted_wrt_append)
  have same: "min_seq (rows @ [x]) c = min_seq rows c" if "c \<in> set (map fst rows)" for c
    by (rule min_seq_snoc(1) [OF less that])
  have old: "sorted_wrt (\<lambda>a b. min_seq (rows @ [x]) a < min_seq (rows @ [x]) b) (first_seen_order (map fst rows))"
    by (rule sorted_wrt_mono_rel [OF _ snoc.IH [OF asc]]) (simp only: set_first_seen_order same)
  show ?case
  proof (cases "fst x \<in> set (map fst rows)")
    case True
    with old show ?thesis by (simp add: first_seen_order_snoc)
  next
    case False
    have "min_seq (rows @ [x]) c < min_seq (rows @ [x]) (fst x)" if "c \<in> set (map fst rows)" for c
      using min_seq_bound [OF that less] same [OF that] min_seq_snoc(2) [OF less False] by simp
    with old False show ?thesis by (simp add: first_seen_order_snoc sorted_wrt_append)
  qed
qed (simp add: first_seen_order_def)

lemma grouped_by_min_seq_eq:
  assumes "sorted_wrt (<) (map snd rows)"
  shows "grouped_by_min_seq rows = first_seen_order (map fst rows)"
proof (rule sorted_wrt_key_unique [where f = "min_seq rows"])
  show "set (grouped_by_min_seq rows) = set (first_seen_order (map fst rows))"
    by (simp add: grouped_by_min_seq_def)
  show "sorted_wrt (\<lambda>x y. min_seq rows x < min_seq rows y) (first_seen_order (map fst rows))"
    by (rule first_seen_min_seq [OF assms])
  have "distinct (map snd rows)" using assms by (simp add: strict_sorted_iff)
  then have "inj_on snd (set rows)" by (simp add: distinct_map)
  then have "inj_on (min_seq rows) (set (map fst rows))"
    by (intro inj_onI) (metis min_seq_in inj_onD prod.inject snd_conv)
  then have "distinct (map (min_seq rows) (grouped_by_min_seq rows))"
    by (simp add: distinct_map grouped_by_min_seq_def)
  then have "sorted_wrt (<) (map (min_seq rows) (grouped_by_min_seq rows))"
    by (simp add: strict_sorted_iff grouped_by_min_seq_def)
  then show "sorted_wrt (\<lambda>x y. min_seq rows x < min_seq rows y) (grouped_by_min_seq rows)"
    by (simp add: sorted_wrt_map)
qed

lemma default_conversation_ids_first_seen:
  "default_conversation_ids ms = first_seen_order (map conversation_of ms)"
  by (simp add: default_conversation_ids_def conversation_ids_loop_eq first_seen_order_def)

lemma those_map_Some_eq: "those (map Some xs) = Some xs"
  by (induction xs) auto

lemma rows_extract:
  assumes "list_all2 (row_message dec jget) rows ms"
  shows "those (map (\<lambda>r. map_option (\<lambda>c. (c, mr_seq r)) (jget (mr_payload r))) rows) =
    Some (zip (map (\<lambda>m. Some (conversation_id_str (conversation_of m))) ms) (map mr_seq rows))"
  using assms by (induction rule: list_all2_induct) (auto simp: row_message_def)

lemma sqlite_conversation_ids_ok:
  assumes "sqlite_log_ok dec jget db" and "sqlite_all dec db = Some ms"
  shows "sqlite_conversation_ids jget db = Some (default_conversation_ids ms)"
proof -
  obtain rows ns where rows: "db_messages db = Some rows" "distinct (map mr_id rows)"
    "sorted_wrt (<) (map mr_seq rows)" "list_all2 (row_message dec jget) rows ns"
    using assms(1) by (rule sqlite_log_okE)
  have ms: "ns = ms" using sqlite_all_rows [OF rows(1,3,4)] assms(2) by simp
  let ?pairs = "zip (map (\<lambda>m. Some (conversation_id_str (conversation_of m))) ms) (map mr_seq rows)"
  have len: "length rows = length ms" using rows(4) ms by (simp add: list_all2_lengthD)
  have "grouped_by_min_seq ?pairs = first_seen_order (map (\<lambda>m. Some (conversation_id_str (conversation_of m))) ms)"
    by (subst grouped_by_min_seq_eq) (simp_all add: len rows(3))
  also have "\<dots> = map (Some \<circ> conversation_id_str) (default_conversation_ids ms)"
  proof -
    have "inj (Some \<circ> conversation_id_str)" by (auto simp: inj_def intro: conversation_id.expand)
    from first_seen_order_map [OF this, of "map conversation_of ms"] show ?thesis
      by (simp add: default_conversation_ids_first_seen comp_def)
  qed
  finally have "those (grouped_by_min_seq ?pairs) = Some (map conversation_id_str (default_conversation_ids ms))"
    by (simp only: those_map_Some_eq flip: map_map)
  then show ?thesis
    using rows_extract [OF rows(4)] ms by (simp add: sqlite_conversation_ids_def rows(1) comp_def)
qed

lemma rows_filter:
  assumes "list_all2 (row_message dec jget) rows ms"
  shows "list_all2 (row_message dec jget)
      (filter (\<lambda>r. jget (mr_payload r) = Some (Some (conversation_id_str c))) rows)
      (default_messages_for ms c)"
  using assms unfolding default_messages_for_def
  by (induction rule: list_all2_induct) (auto simp: row_message_def conversation_id.expand)

lemma sqlite_messages_for_ok:
  assumes "sqlite_log_ok dec jget db" and "sqlite_all dec db = Some ms"
  shows "sqlite_messages_for dec jget db c = Some (default_messages_for ms c)"
proof -
  obtain rows ns where rows: "db_messages db = Some rows" "distinct (map mr_id rows)"
    "sorted_wrt (<) (map mr_seq rows)" "list_all2 (row_message dec jget) rows ns"
    using assms(1) by (rule sqlite_log_okE)
  have ms: "ns = ms" using sqlite_all_rows [OF rows(1,3,4)] assms(2) by simp
  have "\<not> (\<exists>r\<in>set rows. jget (mr_payload r) = None)"
    using rows(4) by (auto simp: list_all2_conv_all_nth row_message_def in_set_conv_nth)
  then show ?thesis
    using rows_decode [OF rows_filter [OF rows(4)]] ms
    by (simp add: sqlite_messages_for_def rows(1) sort_key_ascending sorted_filter_key rows(3))
qed

section \<open>The port\<close>

text \<open>
  On a file that keeps the invariant no operation panics, so the port's laws can be stated of
  the values the operations return.
\<close>

lemma sqlite_all_total:
  assumes "sqlite_log_ok dec jget db"
  shows "sqlite_all dec db = Some (the (sqlite_all dec db))"
  using sqlite_log_okE [OF assms] sqlite_all_rows by (metis option.sel)

interpretation sqlite_log: message_store "\<lambda>m db. the (sqlite_append enc m db)"
    "\<lambda>db i. the (sqlite_get dec db i)" "\<lambda>db. the (sqlite_all dec db)"
    "\<lambda>db. the (sqlite_conversation_ids jget db)" "\<lambda>db c. the (sqlite_messages_for dec jget db c)"
    "sqlite_log_ok dec jget" "message_storable enc dec jget"
  for enc dec jget
proof unfold_locales
  fix db assume ok: "sqlite_log_ok dec jget db"
  note all = sqlite_all_total [OF ok]
  show "sqlite_log_ok dec jget (the (sqlite_append enc m db))" if "message_storable enc dec jget m" for m
    using sqlite_append_ok [OF ok that] by (metis option.sel)
  show "the (sqlite_all dec (the (sqlite_append enc m db))) = log_append m (the (sqlite_all dec db))"
    if "message_storable enc dec jget m" for m
    using sqlite_append_ok [OF ok that] by (metis option.sel)
  show "log_wf (the (sqlite_all dec db))"
    using sqlite_log_okE [OF ok] sqlite_all_rows rows_log_wf by (metis option.sel)
  show "the (sqlite_get dec db i) = log_find i (the (sqlite_all dec db))" for i
    by (simp add: sqlite_get_ok [OF ok all])
  show "the (sqlite_conversation_ids jget db) = default_conversation_ids (the (sqlite_all dec db))"
    by (simp add: sqlite_conversation_ids_ok [OF ok all])
  show "the (sqlite_messages_for dec jget db c) = default_messages_for (the (sqlite_all dec db)) c" for c
    by (simp add: sqlite_messages_for_ok [OF ok all])
qed

text \<open>A log that has just been created is empty and keeps the invariant.\<close>

lemma sqlite_log_ok_fresh:
  "sqlite_log_ok dec jget (snd (message_store_init db_empty))"
  "sqlite_all dec (snd (message_store_init db_empty)) = Some []"
  unfolding message_store_init_fresh
  by (rule sqlite_log_okI [where rows = "[]" and ms = "[]"]) (simp_all add: sqlite_all_def)

text \<open>Numbering the rows anew keeps what they hold.\<close>

lemma renumbered_rows:
  assumes "sorted_wrt (<) (map mr_seq rows)" and "list_all2 (row_message dec jget) rows ms"
  shows "map mr_id (renumbered rows) = map mr_id rows"
    and "list_all2 (row_message dec jget) (renumbered rows) ms"
    and "sorted_wrt (<) (map mr_seq (renumbered rows))"
proof -
  show ids: "map mr_id (renumbered rows) = map mr_id rows"
    by (simp add: renumbered_ids sort_key_ascending assms(1))
  have loads: "map mr_payload (renumbered rows) = map mr_payload rows"
    by (simp add: renumbered_payloads sort_key_ascending assms(1))
  have "length (renumbered rows) = length rows" using ids by (metis length_map)
  moreover have "mr_id (renumbered rows ! i) = mr_id (rows ! i) \<and>
      mr_payload (renumbered rows ! i) = mr_payload (rows ! i)" if "i < length rows" for i
    using ids loads that calculation by (metis nth_map)
  ultimately show "list_all2 (row_message dec jget) (renumbered rows) ms"
    using assms(2) by (simp add: list_all2_conv_all_nth row_message_def)
  show "sorted_wrt (<) (map mr_seq (renumbered rows))"
    by (simp add: renumbered_seqs sorted_wrt_map del: upt_Suc)
qed

text \<open>The rebuild of the second schema version keeps the log, message by message.\<close>

lemma message_store_init_keeps_log:
  assumes "db_user_version db = 0" and "db_messages_v2 db = None" and "sqlite_log_ok dec jget db"
  shows "fst (message_store_init db)"
    and "sqlite_log_ok dec jget (snd (message_store_init db))"
    and "sqlite_all dec (snd (message_store_init db)) = sqlite_all dec db"
proof -
  obtain rows ms where rows: "db_messages db = Some rows" "distinct (map mr_id rows)"
    "sorted_wrt (<) (map mr_seq rows)" "list_all2 (row_message dec jget) rows ms"
    using assms(3) by (rule sqlite_log_okE)
  let ?db = "db\<lparr>db_messages := Some (renumbered rows), db_user_version := 2\<rparr>"
  have init: "message_store_init db = (True, ?db)"
    using message_store_init_unversioned [OF assms(1,2)] rows(1,2) by simp
  note new = renumbered_rows [OF rows(3,4)]
  have msgs: "db_messages ?db = Some (renumbered rows)" by simp
  show "fst (message_store_init db)" by (simp add: init)
  show "sqlite_log_ok dec jget (snd (message_store_init db))"
    unfolding init snd_conv by (rule sqlite_log_okI [OF msgs _ new(3,2)]) (simp only: new(1) rows(2))
  show "sqlite_all dec (snd (message_store_init db)) = sqlite_all dec db"
    using sqlite_all_rows [OF msgs new(3,2)] sqlite_all_rows [OF rows(1,3,4)] by (simp add: init)
qed

end
