(* ===== verification/SqliteCaches.thy ===== *)
theory SqliteCaches
  imports Main Prelude Runtime Model Derivation Replay Derived Sqlite "HOL-Library.Word"
begin

text \<open>
  The durable caches and the trace store (\<open>sqlite_derived_output_cache.rs\<close>,
  \<open>sqlite_projection_cache.rs\<close>, \<open>sqlite_routing_trace_store.rs\<close> in
  \<open>crates/mirrorlane-storage/src\<close>). As in \<open>SqliteLog\<close>, \<open>enc\<close> and \<open>dec\<close> are the JSON of the
  payload and \<open>None\<close> is a panic. A cache gives back a value whose JSON decodes to itself; JSON
  has no NaN, so that is not every value.
\<close>

section \<open>The derived-output cache\<close>

definition sqlite_derived_prune ::
  "sqlite_db \<Rightarrow> conversation_id \<Rightarrow> step_version \<Rightarrow> string \<Rightarrow> (nat \<times> sqlite_db) option" where
  "sqlite_derived_prune db c keep_version keep_content =
     (case db_derived db of
        None \<Rightarrow> None
      | Some rows \<Rightarrow>
          (let kept = filter (\<lambda>r. \<not> (dr_conversation r = conversation_id_str c \<and>
                 \<not> (dr_version r = version_str keep_version \<and> dr_content r = keep_content))) rows in
           Some (length rows - length kept, db\<lparr>db_derived := Some kept\<rparr>)))"

definition derived_row_is :: "step_version \<Rightarrow> conversation_id \<Rightarrow> string \<Rightarrow> derived_row \<Rightarrow> bool" where
  "derived_row_is v c x r =
     (dr_version r = version_str v \<and> dr_conversation r = conversation_id_str c \<and> dr_content r = x)"

definition sqlite_derived_get ::
  "(string \<Rightarrow> conversation_derivation option) \<Rightarrow> sqlite_db \<Rightarrow> step_version \<Rightarrow> conversation_id \<Rightarrow> string \<Rightarrow>
   conversation_derivation option option" where
  "sqlite_derived_get dec db v c x =
     (case db_derived db of
        None \<Rightarrow> None
      | Some rows \<Rightarrow>
          (case find (derived_row_is v c x) rows of
             None \<Rightarrow> Some None
           | Some r \<Rightarrow> map_option Some (dec (dr_payload r))))"

definition sqlite_derived_put ::
  "(conversation_derivation \<Rightarrow> string) \<Rightarrow> sqlite_db \<Rightarrow> step_version \<Rightarrow> conversation_id \<Rightarrow> string \<Rightarrow>
   conversation_derivation \<Rightarrow> sqlite_db option" where
  "sqlite_derived_put enc db v c x d =
     (let payload = enc d in
      case db_derived db of
        None \<Rightarrow> None
      | Some rows \<Rightarrow>
          Some (db\<lparr>db_derived := Some
            (if \<exists>r\<in>set rows. derived_row_is v c x r
             then map (\<lambda>r. if derived_row_is v c x r then r\<lparr>dr_payload := payload\<rparr> else r) rows
             else rows @ [\<lparr>dr_version = version_str v, dr_conversation = conversation_id_str c,
                            dr_content = x, dr_payload = payload\<rparr>])\<rparr>))"

text \<open>The port swallows the error of the prune.\<close>

definition sqlite_derived_reclaim ::
  "sqlite_db \<Rightarrow> conversation_id \<Rightarrow> step_version \<Rightarrow> string \<Rightarrow> sqlite_db" where
  "sqlite_derived_reclaim db c keep_version keep_content =
     (case sqlite_derived_prune db c keep_version keep_content of
        None \<Rightarrow> db | Some (n, db') \<Rightarrow> db')"

definition sqlite_derived_ok :: "(string \<Rightarrow> conversation_derivation option) \<Rightarrow> sqlite_db \<Rightarrow> bool" where
  "sqlite_derived_ok dec db =
     (case db_derived db of None \<Rightarrow> False | Some rows \<Rightarrow> \<forall>r\<in>set rows. dec (dr_payload r) \<noteq> None)"

lemma derived_row_is_unique:
  "derived_row_is v c x r \<Longrightarrow> derived_row_is v' c' x' r \<longleftrightarrow> (v', c', x') = (v, c, x)"
  by (auto simp: derived_row_is_def intro: step_version.expand conversation_id.expand)

lemma derived_row_is_keys [simp]:
  "derived_row_is v c x (r\<lparr>dr_payload := p\<rparr>) = derived_row_is v c x r"
  by (simp add: derived_row_is_def)

lemma derived_row_is_new:
  "derived_row_is v' c' x' \<lparr>dr_version = version_str v, dr_conversation = conversation_id_str c,
     dr_content = x, dr_payload = p\<rparr> \<longleftrightarrow> (v', c', x') = (v, c, x)"
  by (auto simp: derived_row_is_def intro: step_version.expand conversation_id.expand)

lemma find_map_update:
  assumes "\<And>r. P (f r) = P r"
  shows "find P (map f rows) = map_option f (find P rows)"
  using assms by (induction rows) auto

lemma find_append: "find P (xs @ ys) = (case find P xs of None \<Rightarrow> find P ys | Some x \<Rightarrow> Some x)"
  by (induction xs) auto

lemma find_filter:
  assumes "\<And>r. P r \<Longrightarrow> Q r"
  shows "find P (filter Q rows) = find P rows"
  using assms by (induction rows) auto

lemma find_SomeD: "find P xs = Some x \<Longrightarrow> x \<in> set xs \<and> P x"
  by (induction xs) (auto split: if_splits)

lemma sqlite_derived_put_lookup:
  assumes "sqlite_derived_ok dec db" and "dec (enc d) = Some e"
  obtains db' where "sqlite_derived_put enc db v c x d = Some db'" and "sqlite_derived_ok dec db'"
    and "\<And>v' c' x'. sqlite_derived_get dec db' v' c' x' =
      (if (v', c', x') = (v, c, x) then Some (Some e) else sqlite_derived_get dec db v' c' x')"
proof -
  obtain rows where rows: "db_derived db = Some rows" "\<forall>r\<in>set rows. dec (dr_payload r) \<noteq> None"
    using assms(1) by (auto simp: sqlite_derived_ok_def split: option.splits)
  show thesis
  proof (cases "\<exists>r\<in>set rows. derived_row_is v c x r")
    case True
    let ?f = "\<lambda>r. if derived_row_is v c x r then r\<lparr>dr_payload := enc d\<rparr> else r"
    let ?db = "db\<lparr>db_derived := Some (map ?f rows)\<rparr>"
    have find: "find (derived_row_is v' c' x') (map ?f rows) = map_option ?f (find (derived_row_is v' c' x') rows)"
      for v' c' x' by (rule find_map_update) simp
    have "sqlite_derived_get dec ?db v' c' x' =
        (if (v', c', x') = (v, c, x) then Some (Some e) else sqlite_derived_get dec db v' c' x')" for v' c' x'
    proof (cases "find (derived_row_is v' c' x') rows")
      case None
      with True have "(v', c', x') \<noteq> (v, c, x)" by (auto simp: find_None_iff)
      with None show ?thesis unfolding sqlite_derived_get_def rows(1) by (simp add: find)
    next
      case (Some r)
      then have "derived_row_is v' c' x' r" by (blast dest: find_SomeD)
      then have "derived_row_is v c x r \<longleftrightarrow> (v', c', x') = (v, c, x)"
        by (auto dest: derived_row_is_unique)
      with Some show ?thesis unfolding sqlite_derived_get_def rows(1) by (simp add: find assms(2))
    qed
    moreover have "sqlite_derived_ok dec ?db" using rows(2) assms(2) by (auto simp: sqlite_derived_ok_def)
    moreover have "sqlite_derived_put enc db v c x d = Some ?db"
      using rows(1) True by (simp add: sqlite_derived_put_def Let_def)
    ultimately show ?thesis using that by blast
  next
    case False
    let ?new = "\<lparr>dr_version = version_str v, dr_conversation = conversation_id_str c,
      dr_content = x, dr_payload = enc d\<rparr>"
    let ?db = "db\<lparr>db_derived := Some (rows @ [?new])\<rparr>"
    have none: "find (derived_row_is v c x) rows = None" using False by (simp add: find_None_iff)
    have "sqlite_derived_get dec ?db v' c' x' =
        (if (v', c', x') = (v, c, x) then Some (Some e) else sqlite_derived_get dec db v' c' x')" for v' c' x'
      using none assms(2)
      by (auto simp: sqlite_derived_get_def rows(1) find_append derived_row_is_new split: option.split)
    moreover have "sqlite_derived_ok dec ?db" using rows(2) assms(2) by (auto simp: sqlite_derived_ok_def)
    moreover have "sqlite_derived_put enc db v c x d = Some ?db"
      using rows(1) False by (simp add: sqlite_derived_put_def Let_def)
    ultimately show ?thesis using that by blast
  qed
qed

lemma sqlite_derived_reclaim_lookup:
  assumes "sqlite_derived_ok dec db"
  shows "sqlite_derived_ok dec (sqlite_derived_reclaim db c v x)"
    and "sqlite_derived_get dec (sqlite_derived_reclaim db c v x) v' c' x' =
      (if c' = c \<and> (v', x') \<noteq> (v, x) then Some None else sqlite_derived_get dec db v' c' x')"
proof -
  obtain rows where rows: "db_derived db = Some rows" "\<forall>r\<in>set rows. dec (dr_payload r) \<noteq> None"
    using assms(1) by (auto simp: sqlite_derived_ok_def split: option.splits)
  let ?Q = "\<lambda>r. \<not> (dr_conversation r = conversation_id_str c \<and>
    \<not> (dr_version r = version_str v \<and> dr_content r = x))"
  have eq: "sqlite_derived_reclaim db c v x = db\<lparr>db_derived := Some (filter ?Q rows)\<rparr>"
    by (simp add: sqlite_derived_reclaim_def sqlite_derived_prune_def rows(1) Let_def)
  show "sqlite_derived_ok dec (sqlite_derived_reclaim db c v x)"
    using rows(2) by (simp add: eq sqlite_derived_ok_def)
  show "sqlite_derived_get dec (sqlite_derived_reclaim db c v x) v' c' x' =
      (if c' = c \<and> (v', x') \<noteq> (v, x) then Some None else sqlite_derived_get dec db v' c' x')"
  proof (cases "c' = c \<and> (v', x') \<noteq> (v, x)")
    case True
    have "\<not> derived_row_is v' c' x' r" if "?Q r" for r
      using that True by (auto simp: derived_row_is_def intro: step_version.expand)
    then have "find (derived_row_is v' c' x') (filter ?Q rows) = None" by (auto simp: find_None_iff)
    with True show ?thesis by (simp add: eq sqlite_derived_get_def)
  next
    case False
    then have "?Q r" if "derived_row_is v' c' x' r" for r
      using that by (auto simp: derived_row_is_def dest: conversation_id.expand)
    then have "find (derived_row_is v' c' x') (filter ?Q rows) = find (derived_row_is v' c' x') rows"
      by (rule find_filter)
    with False show ?thesis by (auto simp: eq sqlite_derived_get_def rows(1))
  qed
qed

text \<open>A lookup in a sound table does not panic.\<close>

lemma sqlite_derived_get_total:
  "sqlite_derived_ok dec db \<Longrightarrow> sqlite_derived_get dec db v c x \<noteq> None"
  by (auto simp: sqlite_derived_ok_def sqlite_derived_get_def split: option.splits dest!: find_SomeD)

text \<open>What comes back is what the text of the entry decodes to.\<close>

interpretation sqlite_reading: reading_cache "\<lambda>db v c x. the (sqlite_derived_get dec db v c x)"
    "\<lambda>db v c x d. the (sqlite_derived_put enc db v c x d)" sqlite_derived_reclaim
    "sqlite_derived_ok dec" "\<lambda>d e. dec (enc d) = Some e"
  for enc dec
proof unfold_locales
  fix db v c x d e v' c' x'
  assume ok: "sqlite_derived_ok dec db"
  show "sqlite_derived_ok dec (the (sqlite_derived_put enc db v c x d))" if "dec (enc d) = Some e"
    by (rule sqlite_derived_put_lookup [where enc = enc and dec = dec, OF ok that, of v c x]) simp
  show "the (sqlite_derived_get dec (the (sqlite_derived_put enc db v c x d)) v' c' x') =
      (if (v', c', x') = (v, c, x) then Some e else the (sqlite_derived_get dec db v' c' x'))"
    if "dec (enc d) = Some e"
    by (rule sqlite_derived_put_lookup [where enc = enc and dec = dec, OF ok that, of v c x]) auto
  show "sqlite_derived_ok dec (sqlite_derived_reclaim db c v x)"
    by (rule sqlite_derived_reclaim_lookup(1) [OF ok])
  show "the (sqlite_derived_get dec (sqlite_derived_reclaim db c v x) v' c' x') =
      the (sqlite_derived_get dec db v' c' x')" if "c' \<noteq> c \<or> (v', x') = (v, x)"
    using that by (auto simp: sqlite_derived_reclaim_lookup(2) [OF ok])
  show "the (sqlite_derived_get dec db v' c' x') = Some d"
    if "the (sqlite_derived_get dec (sqlite_derived_reclaim db c v x) v' c' x') = Some d"
    using that by (auto simp: sqlite_derived_reclaim_lookup(2) [OF ok] split: if_splits)
qed

interpretation sqlite_derived: derived_cache "\<lambda>db v c x. the (sqlite_derived_get dec db v c x)"
    "\<lambda>db v c x d. the (sqlite_derived_put enc db v c x d)" sqlite_derived_reclaim
    "sqlite_derived_ok dec" "\<lambda>d. dec (enc d) = Some d"
  for enc dec
  by unfold_locales
    (auto simp: sqlite_reading.ok_put sqlite_reading.ok_reclaim sqlite_reading.get_put sqlite_reading.reclaim_keeps
      dest: sqlite_reading.reclaim_shrinks)

text \<open>After a reclaim the kept entry is the only one of its conversation.\<close>

lemma sqlite_derived_reclaim_only:
  assumes "sqlite_derived_ok dec db" and "(v', x') \<noteq> (v, x)"
  shows "sqlite_derived_get dec (sqlite_derived_reclaim db c v x) v' c x' = Some None"
  using assms(2) sqlite_derived_reclaim_lookup(2) [OF assms(1), of c v x v' c x'] by auto

section \<open>The projection cache\<close>

text \<open>The kind of the step is not part of the durable key.\<close>

definition projection_row_is :: "step_version \<Rightarrow> string \<Rightarrow> projection_row \<Rightarrow> bool" where
  "projection_row_is v x r = (pr_version r = version_str v \<and> pr_key r = x)"

definition sqlite_projection_get ::
  "(string \<Rightarrow> projection option) \<Rightarrow> sqlite_db \<Rightarrow> string \<Rightarrow> step_version \<Rightarrow> string \<Rightarrow> projection option option" where
  "sqlite_projection_get dec db kind v x =
     (case db_projections db of
        None \<Rightarrow> None
      | Some rows \<Rightarrow>
          (case find (projection_row_is v x) rows of
             None \<Rightarrow> Some None
           | Some r \<Rightarrow> map_option Some (dec (pr_payload r))))"

definition sqlite_projection_put ::
  "(projection \<Rightarrow> string) \<Rightarrow> sqlite_db \<Rightarrow> string \<Rightarrow> step_version \<Rightarrow> string \<Rightarrow> projection \<Rightarrow> sqlite_db option" where
  "sqlite_projection_put enc db kind v x p =
     (let payload = enc p in
      case db_projections db of
        None \<Rightarrow> None
      | Some rows \<Rightarrow>
          Some (db\<lparr>db_projections := Some
            (if \<exists>r\<in>set rows. projection_row_is v x r
             then map (\<lambda>r. if projection_row_is v x r then r\<lparr>pr_payload := payload\<rparr> else r) rows
             else rows @ [\<lparr>pr_version = version_str v, pr_key = x, pr_payload = payload\<rparr>])\<rparr>))"

definition sqlite_projection_prune :: "sqlite_db \<Rightarrow> step_version \<Rightarrow> (nat \<times> sqlite_db) option" where
  "sqlite_projection_prune db keep_version =
     (case db_projections db of
        None \<Rightarrow> None
      | Some rows \<Rightarrow>
          (let kept = filter (\<lambda>r. \<not> (pr_version r \<noteq> version_str keep_version)) rows in
           Some (length rows - length kept, db\<lparr>db_projections := Some kept\<rparr>)))"

definition sqlite_projections_ok :: "(string \<Rightarrow> projection option) \<Rightarrow> sqlite_db \<Rightarrow> bool" where
  "sqlite_projections_ok dec db =
     (case db_projections db of None \<Rightarrow> False | Some rows \<Rightarrow> \<forall>r\<in>set rows. dec (pr_payload r) \<noteq> None)"

lemma projection_row_is_unique:
  "projection_row_is v x r \<Longrightarrow> projection_row_is v' x' r \<longleftrightarrow> (v', x') = (v, x)"
  by (auto simp: projection_row_is_def intro: step_version.expand)

lemma sqlite_projection_put_lookup:
  assumes "sqlite_projections_ok dec db" and "dec (enc p) = Some p"
  obtains db' where "sqlite_projection_put enc db k v x p = Some db'" and "sqlite_projections_ok dec db'"
    and "\<And>k' v' x'. sqlite_projection_get dec db' k' v' x' =
      (if (v', x') = (v, x) then Some (Some p) else sqlite_projection_get dec db k' v' x')"
proof -
  obtain rows where rows: "db_projections db = Some rows" "\<forall>r\<in>set rows. dec (pr_payload r) \<noteq> None"
    using assms(1) by (auto simp: sqlite_projections_ok_def split: option.splits)
  show thesis
  proof (cases "\<exists>r\<in>set rows. projection_row_is v x r")
    case True
    let ?f = "\<lambda>r. if projection_row_is v x r then r\<lparr>pr_payload := enc p\<rparr> else r"
    let ?db = "db\<lparr>db_projections := Some (map ?f rows)\<rparr>"
    have find: "find (projection_row_is v' x') (map ?f rows) = map_option ?f (find (projection_row_is v' x') rows)"
      for v' x' by (rule find_map_update) (simp add: projection_row_is_def)
    have "sqlite_projection_get dec ?db k' v' x' =
        (if (v', x') = (v, x) then Some (Some p) else sqlite_projection_get dec db k' v' x')" for k' v' x'
    proof (cases "find (projection_row_is v' x') rows")
      case None
      with True have "(v', x') \<noteq> (v, x)" by (auto simp: find_None_iff)
      with None show ?thesis unfolding sqlite_projection_get_def rows(1) by (simp add: find)
    next
      case (Some r)
      then have "projection_row_is v' x' r" by (blast dest: find_SomeD)
      then have "projection_row_is v x r \<longleftrightarrow> (v', x') = (v, x)"
        by (auto dest: projection_row_is_unique)
      with Some show ?thesis unfolding sqlite_projection_get_def rows(1) by (simp add: find assms(2))
    qed
    moreover have "sqlite_projections_ok dec ?db" using rows(2) assms(2) by (auto simp: sqlite_projections_ok_def)
    moreover have "sqlite_projection_put enc db k v x p = Some ?db"
      using rows(1) True by (simp add: sqlite_projection_put_def Let_def)
    ultimately show ?thesis using that by blast
  next
    case False
    let ?db = "db\<lparr>db_projections := Some (rows @ [\<lparr>pr_version = version_str v, pr_key = x, pr_payload = enc p\<rparr>])\<rparr>"
    have none: "find (projection_row_is v x) rows = None" using False by (simp add: find_None_iff)
    have new: "projection_row_is v' x' \<lparr>pr_version = version_str v, pr_key = x, pr_payload = enc p\<rparr> \<longleftrightarrow>
        (v', x') = (v, x)" for v' x'
      by (auto simp: projection_row_is_def intro: step_version.expand)
    have "sqlite_projection_get dec ?db k' v' x' =
        (if (v', x') = (v, x) then Some (Some p) else sqlite_projection_get dec db k' v' x')" for k' v' x'
      using none assms(2)
      by (auto simp: sqlite_projection_get_def rows(1) find_append new split: option.split)
    moreover have "sqlite_projections_ok dec ?db" using rows(2) assms(2) by (auto simp: sqlite_projections_ok_def)
    moreover have "sqlite_projection_put enc db k v x p = Some ?db"
      using rows(1) False by (simp add: sqlite_projection_put_def Let_def)
    ultimately show ?thesis using that by blast
  qed
qed

lemma sqlite_projection_get_total:
  "sqlite_projections_ok dec db \<Longrightarrow> sqlite_projection_get dec db k v x \<noteq> None"
  by (auto simp: sqlite_projections_ok_def sqlite_projection_get_def split: option.splits dest!: find_SomeD)

lemma sqlite_projection_prune_lookup:
  assumes "sqlite_projections_ok dec db"
  obtains n db' where "sqlite_projection_prune db v = Some (n, db')" and "sqlite_projections_ok dec db'"
    and "\<And>k v' x. sqlite_projection_get dec db' k v' x =
      (if v' = v then sqlite_projection_get dec db k v' x else Some None)"
proof -
  obtain rows where rows: "db_projections db = Some rows" "\<forall>r\<in>set rows. dec (pr_payload r) \<noteq> None"
    using assms(1) by (auto simp: sqlite_projections_ok_def split: option.splits)
  let ?db = "db\<lparr>db_projections := Some (filter (\<lambda>r. pr_version r = version_str v) rows)\<rparr>"
  have eq: "sqlite_projection_prune db v =
      Some (length rows - length (filter (\<lambda>r. pr_version r = version_str v) rows), ?db)"
    by (simp add: sqlite_projection_prune_def rows(1) Let_def)
  have "sqlite_projection_get dec ?db k v' x =
      (if v' = v then sqlite_projection_get dec db k v' x else Some None)" for k v' x
  proof (cases "v' = v")
    case True
    have "find (projection_row_is v x) (filter (\<lambda>r. pr_version r = version_str v) rows) =
        find (projection_row_is v x) rows"
      by (rule find_filter) (simp add: projection_row_is_def)
    with True show ?thesis by (simp add: sqlite_projection_get_def rows(1))
  next
    case False
    then have "version_str v' \<noteq> version_str v" by (auto dest: step_version.expand)
    then have "find (projection_row_is v' x) (filter (\<lambda>r. pr_version r = version_str v) rows) = None"
      by (auto simp: find_None_iff projection_row_is_def)
    with False show ?thesis by (simp add: sqlite_projection_get_def)
  qed
  then show thesis using that [OF eq] rows(2) by (simp add: sqlite_projections_ok_def)
qed

interpretation sqlite_projections: projection_cache "\<lambda>db k v x. the (sqlite_projection_get dec db k v x)"
    "\<lambda>db k v x p. the (sqlite_projection_put enc db k v x p)" "sqlite_projections_ok dec"
    "\<lambda>p. dec (enc p) = Some p"
  for enc dec
proof unfold_locales
  fix db k v x p v' x'
  assume ok: "sqlite_projections_ok dec db" and p: "dec (enc p) = Some p"
  show "sqlite_projections_ok dec (the (sqlite_projection_put enc db k v x p))"
    by (rule sqlite_projection_put_lookup [where enc = enc and dec = dec, OF ok p, of k v x]) simp
  show "the (sqlite_projection_get dec (the (sqlite_projection_put enc db k v x p)) k v' x') =
      (if (v', x') = (v, x) then Some p else the (sqlite_projection_get dec db k v' x'))"
    by (rule sqlite_projection_put_lookup [where enc = enc and dec = dec, OF ok p, of k v x]) auto
qed

section \<open>The trace store\<close>

text \<open>
  The store may be capped. \<open>max\<close> is a \<open>usize\<close> cast to \<open>i64\<close>, and SQLite reads a negative
  \<open>LIMIT\<close> as none. A new row's \<open>rowid\<close> is one more than the largest.
\<close>

record sqlite_traces =
  ts_db :: sqlite_db
  ts_max :: "64 word option"

definition trace_store_open :: "sqlite_db \<Rightarrow> sqlite_traces option" where
  "trace_store_open db =
     (case trace_store_init db of
        (False, _) \<Rightarrow> None
      | (True, db') \<Rightarrow> Some \<lparr>ts_db = db', ts_max = None\<rparr>)"

definition with_max_traces :: "sqlite_traces \<Rightarrow> 64 word \<Rightarrow> sqlite_traces" where
  "with_max_traces s n = s\<lparr>ts_max := Some n\<rparr>"

definition trace_write :: "string \<Rightarrow> string \<Rightarrow> trace_row list \<Rightarrow> trace_row list" where
  "trace_write i payload rows =
     (if i \<in> set (map tr_id rows)
      then map (\<lambda>r. if tr_id r = i then r\<lparr>tr_payload := payload\<rparr> else r) rows
      else rows @ [\<lparr>tr_rowid = (if rows = [] then 0 else Max (set (map tr_rowid rows))) + 1,
                     tr_id = i, tr_payload = payload\<rparr>])"

definition sql_limit :: "int \<Rightarrow> 'a list \<Rightarrow> 'a list" where
  "sql_limit n xs = (if n < 0 then xs else take (nat n) xs)"

definition trace_prune :: "64 word \<Rightarrow> trace_row list \<Rightarrow> trace_row list" where
  "trace_prune n rows =
     (let kept = sql_limit (sint n) (rev (sort (map tr_rowid rows))) in
      filter (\<lambda>r. tr_rowid r \<in> set kept) rows)"

definition sqlite_trace_upsert ::
  "(routing_trace \<Rightarrow> string) \<Rightarrow> sqlite_traces \<Rightarrow> routing_trace \<Rightarrow> sqlite_traces option" where
  "sqlite_trace_upsert enc s trace =
     (let payload = enc trace in
      case db_traces (ts_db s) of
        None \<Rightarrow> None
      | Some rows \<Rightarrow>
          (let rows1 = trace_write (message_id_str (rt_message_id trace)) payload rows;
               rows2 = (case ts_max s of None \<Rightarrow> rows1 | Some n \<Rightarrow> trace_prune n rows1) in
           Some (s\<lparr>ts_db := (ts_db s)\<lparr>db_traces := Some rows2\<rparr>\<rparr>)))"

definition sqlite_trace_get ::
  "(string \<Rightarrow> routing_trace option) \<Rightarrow> sqlite_traces \<Rightarrow> message_id \<Rightarrow> routing_trace option option" where
  "sqlite_trace_get dec s i =
     (case db_traces (ts_db s) of
        None \<Rightarrow> None
      | Some rows \<Rightarrow>
          (case find (\<lambda>r. tr_id r = message_id_str i) rows of
             None \<Rightarrow> Some None
           | Some r \<Rightarrow> map_option Some (dec (tr_payload r))))"

text \<open>Rows are kept in the order of their \<open>rowid\<close>.\<close>

definition traces_ok :: "trace_row list \<Rightarrow> bool" where
  "traces_ok rows = (sorted_wrt (<) (map tr_rowid rows) \<and> distinct (map tr_id rows))"

lemma trace_write_ids:
  "map tr_id (trace_write i p rows) = (if i \<in> set (map tr_id rows) then map tr_id rows else map tr_id rows @ [i])"
  by (auto simp: trace_write_def intro: map_cong)

lemma trace_write_ok:
  assumes "traces_ok rows"
  shows "traces_ok (trace_write i p rows)"
proof -
  have old: "map tr_rowid (map (\<lambda>r. if tr_id r = i then r\<lparr>tr_payload := p\<rparr> else r) rows) = map tr_rowid rows"
    by (auto intro: map_cong)
  have "sorted_wrt (<) (map tr_rowid (trace_write i p rows))"
  proof (cases "i \<in> set (map tr_id rows)")
    case True
    with old assms show ?thesis unfolding trace_write_def traces_ok_def by (simp only: if_True)
  next
    case False
    have "tr_rowid r < Max (set (map tr_rowid rows)) + 1" if "r \<in> set rows" for r
    proof -
      have "tr_rowid r \<le> Max (set (map tr_rowid rows))" using that by (intro Max_ge) auto
      then show ?thesis by simp
    qed
    with False assms show ?thesis by (auto simp: trace_write_def traces_ok_def sorted_wrt_append)
  qed
  moreover have "distinct (map tr_id (trace_write i p rows))"
    using assms by (simp add: trace_write_ids traces_ok_def)
  ultimately show ?thesis by (simp add: traces_ok_def)
qed

text \<open>The prune drops rows from the front: what stays is the newest.\<close>

lemma filter_drop:
  "sorted_wrt (<) (map f rows) \<Longrightarrow>
    filter (\<lambda>r. f r \<in> set (drop n (map f rows))) rows = drop n (rows :: 'a list)"
  for f :: "'a \<Rightarrow> int"
proof (induction rows arbitrary: n)
  case (Cons r rows)
  show ?case
  proof (cases n)
    case 0
    then show ?thesis by simp
  next
    case (Suc k)
    have "\<forall>y\<in>set (map f rows). f r < y" using Cons.prems by simp
    then have "f r \<notin> set (drop k (map f rows))" by (meson in_set_dropD less_irrefl)
    with Cons Suc show ?thesis by simp
  qed
qed simp

lemma trace_prune_eq:
  assumes "traces_ok rows"
  shows "trace_prune n rows = (if sint n < 0 then rows else drop (length rows - nat (sint n)) rows)"
proof -
  have "sort (map tr_rowid rows) = map tr_rowid rows"
    using assms by (intro sorted_sort_id) (simp add: traces_ok_def strict_sorted_imp_sorted)
  moreover have "set (take k (rev xs)) = set (drop (length xs - k) xs)" for k and xs :: "int list"
    by (simp add: take_rev)
  ultimately show ?thesis
    using filter_drop [of tr_rowid rows] assms
    by (auto simp: trace_prune_def sql_limit_def traces_ok_def Let_def simp flip: drop_map)
qed

lemma trace_prune_length:
  assumes "traces_ok rows" and "0 \<le> sint n"
  shows "int (length (trace_prune n rows)) \<le> sint n"
  using assms by (simp add: trace_prune_eq)

lemma trace_prune_ok: "traces_ok rows \<Longrightarrow> traces_ok (trace_prune n rows)"
  by (auto simp: trace_prune_eq traces_ok_def sorted_wrt_drop simp flip: drop_map)

definition sqlite_traces_ok :: "sqlite_traces \<Rightarrow> bool" where
  "sqlite_traces_ok s = (\<exists>rows. db_traces (ts_db s) = Some rows \<and> traces_ok rows)"

lemma sqlite_traces_ok_open:
  "trace_store_open db_empty = Some s \<Longrightarrow> sqlite_traces_ok s"
  by (auto simp: trace_store_open_def trace_store_init_fresh sqlite_traces_ok_def traces_ok_def)

text \<open>One write: the bound, and the fate of the row just written.\<close>

lemma sqlite_trace_upsert_bound:
  assumes "sqlite_traces_ok s"
  obtains s' rows where "sqlite_trace_upsert enc s t = Some s'" and "sqlite_traces_ok s'"
    and "db_traces (ts_db s') = Some rows" and "ts_max s' = ts_max s"
    and "\<And>n. ts_max s = Some n \<Longrightarrow> 0 \<le> sint n \<Longrightarrow> int (length rows) \<le> sint n"
proof -
  obtain rows where rows: "db_traces (ts_db s) = Some rows" "traces_ok rows"
    using assms by (auto simp: sqlite_traces_ok_def)
  let ?rows1 = "trace_write (message_id_str (rt_message_id t)) (enc t) rows"
  let ?rows2 = "case ts_max s of None \<Rightarrow> ?rows1 | Some n \<Rightarrow> trace_prune n ?rows1"
  let ?s = "s\<lparr>ts_db := (ts_db s)\<lparr>db_traces := Some ?rows2\<rparr>\<rparr>"
  have ok: "traces_ok ?rows1" by (rule trace_write_ok [OF rows(2)])
  then have "traces_ok ?rows2" by (auto intro: trace_prune_ok split: option.split)
  then have "sqlite_traces_ok ?s" by (simp add: sqlite_traces_ok_def)
  moreover have "sqlite_trace_upsert enc s t = Some ?s" by (simp add: sqlite_trace_upsert_def rows(1) Let_def)
  moreover have "int (length ?rows2) \<le> sint n" if "ts_max s = Some n" "0 \<le> sint n" for n
    using that trace_prune_length [OF ok] by simp
  ultimately show thesis using that by simp
qed

lemma sqlite_trace_new_kept:
  assumes "sqlite_traces_ok s" and "dec (enc t) = Some t"
    and "\<And>rows. db_traces (ts_db s) = Some rows \<Longrightarrow> message_id_str (rt_message_id t) \<notin> set (map tr_id rows)"
    and "\<And>n. ts_max s = Some n \<Longrightarrow> sint n \<noteq> 0"
    and "sqlite_trace_upsert enc s t = Some s'"
  shows "sqlite_trace_get dec s' (rt_message_id t) = Some (Some t)"
proof -
  obtain rows where rows: "db_traces (ts_db s) = Some rows" "traces_ok rows"
    using assms(1) by (auto simp: sqlite_traces_ok_def)
  let ?i = "message_id_str (rt_message_id t)"
  have new: "?i \<notin> set (map tr_id rows)" by (rule assms(3) [OF rows(1)])
  let ?rows1 = "trace_write ?i (enc t) rows"
  obtain w where w: "?rows1 = rows @ [w]" "tr_id w = ?i" "tr_payload w = enc t"
    using new by (simp add: trace_write_def)
  have ok: "traces_ok (rows @ [w])" using trace_write_ok [OF rows(2)] w(1) by metis
  have kept: "\<exists>k\<le>length rows. (case ts_max s of None \<Rightarrow> ?rows1 | Some n \<Rightarrow> trace_prune n ?rows1) = drop k rows @ [w]"
  proof (cases "ts_max s")
    case None
    then show ?thesis using w by (intro exI [of _ 0]) simp
  next
    case (Some n)
    then have n: "sint n \<noteq> 0" by (rule assms(4))
    show ?thesis
    proof (cases "sint n < 0")
      case True
      with Some w show ?thesis by (intro exI [of _ 0]) (simp add: trace_prune_eq [OF ok])
    next
      case False
      with n have "0 < nat (sint n)" by simp
      with Some w False show ?thesis
        by (intro exI [of _ "Suc (length rows) - nat (sint n)"]) (simp add: trace_prune_eq [OF ok])
    qed
  qed
  then obtain k where k: "(case ts_max s of None \<Rightarrow> ?rows1 | Some n \<Rightarrow> trace_prune n ?rows1) = drop k rows @ [w]"
    by blast
  have "find (\<lambda>r. tr_id r = ?i) (drop k rows) = None"
    using new unfolding find_None_iff by (metis image_eqI in_set_dropD list.set_map)
  moreover have "db_traces (ts_db s') = Some (drop k rows @ [w])"
    using assms(5) k by (auto simp: sqlite_trace_upsert_def rows(1) Let_def)
  ultimately show ?thesis by (simp add: sqlite_trace_get_def find_append w assms(2))
qed

text \<open>Without a cap the store is a keyed store.\<close>

lemma sqlite_trace_uncapped:
  assumes "ts_max s = None" and "db_traces (ts_db s) = Some rows" and "dec (enc t) = Some t"
    and "sqlite_trace_upsert enc s t = Some s'"
  shows "sqlite_trace_get dec s' i =
    (if i = rt_message_id t then Some (Some t) else sqlite_trace_get dec s i)"
proof -
  let ?i = "message_id_str (rt_message_id t)"
  let ?f = "\<lambda>r. if tr_id r = ?i then r\<lparr>tr_payload := enc t\<rparr> else r"
  have new: "db_traces (ts_db s') = Some (trace_write ?i (enc t) rows)"
    using assms(1,2,4) by (auto simp: sqlite_trace_upsert_def Let_def)
  have id: "message_id_str i = ?i \<longleftrightarrow> i = rt_message_id t" by (auto intro: message_id.expand)
  have upd: "find (\<lambda>r. tr_id r = x) (map ?f rows) = map_option ?f (find (\<lambda>r. tr_id r = x) rows)" for x
    by (rule find_map_update) simp
  show ?thesis
  proof (cases "find (\<lambda>r. tr_id r = ?i) rows")
    case None
    then have "?i \<notin> set (map tr_id rows)" by (auto simp: find_None_iff)
    then obtain w where w: "trace_write ?i (enc t) rows = rows @ [w]" "tr_id w = ?i" "tr_payload w = enc t"
      by (simp add: trace_write_def)
    show ?thesis
      using None assms(3) id w(2,3)
      by (cases "i = rt_message_id t")
        (auto simp: sqlite_trace_get_def new assms(2) w(1) find_append split: option.split)
  next
    case (Some r)
    then have "tr_id r = ?i" and "r \<in> set rows" by (blast dest: find_SomeD)+
    then have "?i \<in> set (map tr_id rows)" by (metis image_eqI list.set_map)
    then have w: "trace_write ?i (enc t) rows = map ?f rows" by (simp add: trace_write_def)
    show ?thesis
    proof (cases "i = rt_message_id t")
      case True
      with Some \<open>tr_id r = ?i\<close> assms(3) show ?thesis
        by (simp add: sqlite_trace_get_def new w upd)
    next
      case False
      then have "?f q = q" if "find (\<lambda>r. tr_id r = message_id_str i) rows = Some q" for q
        using find_SomeD [OF that] id by auto
      then show ?thesis
        unfolding sqlite_trace_get_def new assms(2) w option.case upd
        using False by (cases "find (\<lambda>r. tr_id r = message_id_str i) rows") auto
    qed
  qed
qed

end
