(* ===== verification/Github.thy ===== *)
theory Github
  imports Main Prelude Model MessageLog SqliteLog Routing "HOL-Library.Word"
begin

text \<open>
  The GitHub crate (\<open>crates/mirrorlane-github\<close>): items and their mapping to messages
  (\<open>model.rs\<close>), ingestion (\<open>source.rs\<close>), the draft consumer (\<open>consumer.rs\<close>) and the REST source
  (\<open>rest.rs\<close>). The HTTP client and the JSON decoder are external: \<open>http\<close> answers a request, and
  \<open>dec_issues\<close> and \<open>dec_comments\<close> decode the two response bodies.
\<close>

section \<open>Items\<close>

record repo =
  repo_owner :: string
  repo_name :: string

definition repo_new :: "string \<Rightarrow> string \<Rightarrow> repo" where
  "repo_new owner name = \<lparr>repo_owner = owner, repo_name = name\<rparr>"

datatype github_item_kind = ItemIssue | ItemPullRequest | ItemComment

fun kind_tag :: "github_item_kind \<Rightarrow> string" where
  "kind_tag ItemIssue = ''issue''"
| "kind_tag ItemPullRequest = ''pull-request''"
| "kind_tag ItemComment = ''comment''"

record github_item =
  gi_kind :: github_item_kind
  gi_repo :: repo
  gi_number :: "64 word"
  gi_id :: string
  gi_author_login :: string
  gi_title :: "string option"
  gi_body :: string

definition show_u64 :: "64 word \<Rightarrow> string" where
  "show_u64 w = show_nat (unat w)"

definition item_message_id :: "github_item \<Rightarrow> string" where
  "item_message_id item =
     ''github:'' @ repo_owner (gi_repo item) @ ''/'' @ repo_name (gi_repo item) @ '':'' @
     kind_tag (gi_kind item) @ '':'' @ gi_id item"

definition item_conversation_id :: "github_item \<Rightarrow> string" where
  "item_conversation_id item =
     ''github:'' @ repo_owner (gi_repo item) @ ''/'' @ repo_name (gi_repo item) @ ''#'' @
     show_u64 (gi_number item)"

definition item_body :: "github_item \<Rightarrow> string" where
  "item_body item =
     (case (gi_kind item, gi_title item) of
        (ItemComment, _) \<Rightarrow> gi_body item
      | (_, None) \<Rightarrow> gi_body item
      | (_, Some title) \<Rightarrow> title @ [CHR 0x0A, CHR 0x0A] @ gi_body item)"

definition to_message :: "github_item \<Rightarrow> message_envelope" where
  "to_message item =
     \<lparr>env_id = MessageId (item_message_id item),
      env_source = SourceGitHub,
      env_author = \<lparr>au_id = AuthorId (gi_author_login item), au_display_name = gi_author_login item\<rparr>,
      env_conversation = \<lparr>conv_id = ConversationId (item_conversation_id item), conv_thread = None\<rparr>,
      env_body = item_body item\<rparr>"

section \<open>Ingestion\<close>

text \<open>A source answers with items or panics (\<open>None\<close>).\<close>

type_synonym github_source = "repo \<Rightarrow> github_item list option"

definition fixture_source :: "github_item list \<Rightarrow> github_source" where
  "fixture_source items r = Some items"

fun ingest_items :: "(message_envelope \<Rightarrow> 's \<Rightarrow> 's) \<Rightarrow> github_item list \<Rightarrow> 's \<Rightarrow> message_id list \<times> 's" where
  "ingest_items add_message [] s = ([], s)"
| "ingest_items add_message (item # items) s =
     (let message = to_message item;
          (ids, s') = ingest_items add_message items (add_message message s) in
      (env_id message # ids, s'))"

definition ingest_repo ::
  "(message_envelope \<Rightarrow> 's \<Rightarrow> 's) \<Rightarrow> github_source \<Rightarrow> repo \<Rightarrow> 's \<Rightarrow> message_id list option \<times> 's" where
  "ingest_repo add_message source r s =
     (case source r of
        None \<Rightarrow> (None, s)
      | Some items \<Rightarrow> (let (ids, s') = ingest_items add_message items s in (Some ids, s')))"

section \<open>Drafts\<close>

datatype draft_kind = DraftIssue | DraftPullRequest

record github_draft =
  gd_kind :: draft_kind
  gd_message_id :: message_id
  gd_title :: string
  gd_body :: string

fun draft_intent_label :: "intent \<Rightarrow> string" where
  "draft_intent_label Question = ''question''"
| "draft_intent_label Decision = ''decision''"
| "draft_intent_label Proposal = ''proposal''"
| "draft_intent_label Task = ''task''"
| "draft_intent_label Issue = ''issue''"
| "draft_intent_label Social = ''social''"

text \<open>The em dash is three bytes of UTF-8.\<close>

definition em_dash :: string where
  "em_dash = [CHR 0xE2, CHR 0x80, CHR 0x94]"

definition draft_for :: "projection \<Rightarrow> github_draft" where
  "draft_for p =
     (let kind = (case proj_intent p of Proposal \<Rightarrow> DraftPullRequest | _ \<Rightarrow> DraftIssue);
          primary = (case proj_topics p of [] \<Rightarrow> ''general'' | t # _ \<Rightarrow> topic_str t);
          title = (case kind of
             DraftIssue \<Rightarrow> ''['' @ primary @ ''] '' @ draft_intent_label (proj_intent p)
           | DraftPullRequest \<Rightarrow> ''Proposal: '' @ primary);
          topics = join '', '' (map topic_str (proj_topics p));
          entities = join '', '' (map entity_str (proj_entities p));
          body = ''Auto-drafted from message '' @ message_id_str (proj_message_id p) @
            '' (confidence '' @ fmt2 (confidence_get (proj_confidence p)) @ '').'' @
            [CHR 0x0A, CHR 0x0A] @ ''Topics: '' @ (if topics = [] then em_dash else topics) @
            [CHR 0x0A] @ ''Entities: '' @ (if entities = [] then em_dash else entities) in
      \<lparr>gd_kind = kind, gd_message_id = proj_message_id p, gd_title = title, gd_body = body\<rparr>)"

type_synonym github_consumer = "message_id \<rightharpoonup> github_draft"

definition github_consumer_new :: github_consumer where
  "github_consumer_new = Map.empty"

definition github_consumer_len :: "github_consumer \<Rightarrow> nat" where
  "github_consumer_len c = card (dom c)"

definition github_consumer_is_empty :: "github_consumer \<Rightarrow> bool" where
  "github_consumer_is_empty c = (github_consumer_len c = 0)"

definition github_consumer_get :: "github_consumer \<Rightarrow> message_id \<Rightarrow> github_draft option" where
  "github_consumer_get c i = c i"

definition github_consume :: "github_consumer consumer" where
  "github_consume c decision p = (Inr (), c(proj_message_id p \<mapsto> draft_for p))"

section \<open>The REST source\<close>

definition github_default_base_url :: string where
  "github_default_base_url = ''https://api.github.com''"

datatype github_fetch_error =
  FetchTransport string | FetchStatus nat string | FetchRead string | FetchParse string

fun fetch_error_display :: "github_fetch_error \<Rightarrow> string" where
  "fetch_error_display (FetchTransport e) = ''github request failed: '' @ e"
| "fetch_error_display (FetchStatus code message) =
     ''github returned HTTP '' @ show_nat code @ '' '' @ message"
| "fetch_error_display (FetchRead e) = ''github response was not readable: '' @ e"
| "fetch_error_display (FetchParse e) = ''github response was malformed: '' @ e"

record http_request =
  hr_url :: string
  hr_headers :: "(string \<times> string) list"

datatype http_reply =
  ReplyTransport string | ReplyStatus nat string | ReplyUnreadable string | ReplyBody string

record rest_source =
  rs_base_url :: string
  rs_token :: "string option"

text \<open>The constructor only adds a warning on standard error, the second component.\<close>

definition rest_source_new :: "string \<Rightarrow> string option \<Rightarrow> rest_source \<times> bool" where
  "rest_source_new base_url token =
     (\<lparr>rs_base_url = base_url, rs_token = token\<rparr>,
      token \<noteq> None \<and> base_url \<noteq> github_default_base_url)"

definition rest_source_from_env :: "(string \<Rightarrow> string option) \<Rightarrow> rest_source" where
  "rest_source_from_env env = fst (rest_source_new github_default_base_url (env ''GITHUB_TOKEN''))"

definition sends_token :: "rest_source \<Rightarrow> bool" where
  "sends_token src = (rs_token src \<noteq> None \<and> rs_base_url src = github_default_base_url)"

definition rest_request :: "rest_source \<Rightarrow> string \<Rightarrow> http_request" where
  "rest_request src url =
     \<lparr>hr_url = url,
      hr_headers =
        [(''User-Agent'', ''mirrorlane''), (''Accept'', ''application/vnd.github+json'')] @
        (if sends_token src
         then [(''Authorization'', ''token '' @ (case rs_token src of Some t \<Rightarrow> t | None \<Rightarrow> []))]
         else [])\<rparr>"

definition rest_get ::
  "(http_request \<Rightarrow> http_reply) \<Rightarrow> (string \<Rightarrow> string + 'a) \<Rightarrow> rest_source \<Rightarrow> string \<Rightarrow> github_fetch_error + 'a" where
  "rest_get http dec src url =
     (case http (rest_request src url) of
        ReplyStatus code message \<Rightarrow> Inl (FetchStatus code message)
      | ReplyTransport e \<Rightarrow> Inl (FetchTransport e)
      | ReplyUnreadable e \<Rightarrow> Inl (FetchRead e)
      | ReplyBody body \<Rightarrow> (case dec body of Inl e \<Rightarrow> Inl (FetchParse e) | Inr v \<Rightarrow> Inr v))"

record issue_dto =
  is_number :: "64 word"
  is_title :: "string option"
  is_body :: "string option"
  is_login :: string
  is_pull_request :: bool

record comment_dto =
  cm_id :: "64 word"
  cm_body :: "string option"
  cm_login :: string
  cm_issue_url :: string

text \<open>\<open>str::parse::<u64>\<close>: decimal digits, an optional plus sign, no overflow.\<close>

definition is_digit :: "char \<Rightarrow> bool" where
  "is_digit c = (48 \<le> (of_char c :: nat) \<and> (of_char c :: nat) \<le> 57)"

definition digits_value :: "string \<Rightarrow> nat" where
  "digits_value s = foldl (\<lambda>n c. 10 * n + (of_char c - 48)) 0 s"

definition parse_u64 :: "string \<Rightarrow> 64 word option" where
  "parse_u64 s =
     (let digits = (case s of c # cs \<Rightarrow> if c = CHR ''+'' then cs else s | [] \<Rightarrow> []) in
      if digits \<noteq> [] \<and> list_all is_digit digits \<and> digits_value digits < 2 ^ 64
      then Some (of_nat (digits_value digits)) else None)"

definition last_segment :: "string \<Rightarrow> string" where
  "last_segment s = rev (takeWhile (\<lambda>c. c \<noteq> CHR ''/'') (rev s))"

definition number_from_issue_url :: "string \<Rightarrow> 64 word" where
  "number_from_issue_url url = (case parse_u64 (last_segment url) of None \<Rightarrow> 0 | Some n \<Rightarrow> n)"

definition issue_item :: "repo \<Rightarrow> issue_dto \<Rightarrow> github_item" where
  "issue_item r issue =
     \<lparr>gi_kind = (if is_pull_request issue then ItemPullRequest else ItemIssue), gi_repo = r,
      gi_number = is_number issue, gi_id = show_u64 (is_number issue),
      gi_author_login = is_login issue, gi_title = is_title issue,
      gi_body = (case is_body issue of None \<Rightarrow> [] | Some b \<Rightarrow> b)\<rparr>"

definition comment_item :: "repo \<Rightarrow> comment_dto \<Rightarrow> github_item" where
  "comment_item r comment =
     \<lparr>gi_kind = ItemComment, gi_repo = r,
      gi_number = number_from_issue_url (cm_issue_url comment), gi_id = ''c-'' @ show_u64 (cm_id comment),
      gi_author_login = cm_login comment, gi_title = None,
      gi_body = (case cm_body comment of None \<Rightarrow> [] | Some b \<Rightarrow> b)\<rparr>"

definition issues_url :: "rest_source \<Rightarrow> repo \<Rightarrow> string" where
  "issues_url src r =
     rs_base_url src @ ''/repos/'' @ repo_owner r @ ''/'' @ repo_name r @ ''/issues?state=all&per_page=100''"

definition comments_url :: "rest_source \<Rightarrow> repo \<Rightarrow> string" where
  "comments_url src r =
     rs_base_url src @ ''/repos/'' @ repo_owner r @ ''/'' @ repo_name r @ ''/issues/comments?per_page=100''"

definition try_fetch ::
  "(http_request \<Rightarrow> http_reply) \<Rightarrow> (string \<Rightarrow> string + issue_dto list) \<Rightarrow> (string \<Rightarrow> string + comment_dto list) \<Rightarrow>
   rest_source \<Rightarrow> repo \<Rightarrow> github_fetch_error + github_item list" where
  "try_fetch http dec_issues dec_comments src r =
     (case rest_get http dec_issues src (issues_url src r) of
        Inl e \<Rightarrow> Inl e
      | Inr issues \<Rightarrow>
          (case rest_get http dec_comments src (comments_url src r) of
             Inl e \<Rightarrow> Inl e
           | Inr comments \<Rightarrow> Inr (map (issue_item r) issues @ map (comment_item r) comments)))"

definition rest_fetch ::
  "(http_request \<Rightarrow> http_reply) \<Rightarrow> (string \<Rightarrow> string + issue_dto list) \<Rightarrow> (string \<Rightarrow> string + comment_dto list) \<Rightarrow>
   rest_source \<Rightarrow> github_source" where
  "rest_fetch http dec_issues dec_comments src r =
     (case try_fetch http dec_issues dec_comments src r of Inl e \<Rightarrow> None | Inr items \<Rightarrow> Some items)"

section \<open>Identities\<close>

lemma split_at_char:
  "c \<notin> set s \<Longrightarrow> c \<notin> set t \<Longrightarrow> s @ c # xs = t @ c # ys \<longleftrightarrow> s = t \<and> xs = ys"
  by (induction s arbitrary: t) (case_tac t; auto)+

lemma kind_tag_inj: "kind_tag k = kind_tag l \<longleftrightarrow> k = l"
  by (cases k; cases l) auto

lemma kind_tag_no_colon: "CHR '':'' \<notin> set (kind_tag k)"
  by (cases k) auto

text \<open>
  \<open>parse_repo\<close> of the CLI keeps the owner and the name free of slashes; with a name free of
  colons too, a message id names exactly one item.
\<close>

lemma item_message_id_inj:
  assumes "CHR ''/'' \<notin> set (repo_owner (gi_repo x))" and "CHR ''/'' \<notin> set (repo_owner (gi_repo y))"
    and "CHR '':'' \<notin> set (repo_name (gi_repo x))" and "CHR '':'' \<notin> set (repo_name (gi_repo y))"
  shows "item_message_id x = item_message_id y \<longleftrightarrow>
    gi_repo x = gi_repo y \<and> gi_kind x = gi_kind y \<and> gi_id x = gi_id y"
  unfolding item_message_id_def
  by (simp add: split_at_char assms kind_tag_no_colon kind_tag_inj) (auto intro: repo.equality)

lemma show_nat_nonempty: "show_nat n \<noteq> []"
  by (subst show_nat.simps) simp

lemma is_digit_show: "(d :: nat) < 10 \<Longrightarrow> is_digit (char_of (48 + d))"
  by (simp add: is_digit_def)

lemma digits_show_nat: "list_all is_digit (show_nat n) \<and> digits_value (show_nat n) = n"
proof (induction n rule: show_nat.induct)
  case (1 n)
  show ?case
  proof (cases "n < 10")
    case True
    then show ?thesis by (subst (1 2) show_nat.simps) (simp add: is_digit_show digits_value_def)
  next
    case False
    with 1 have "list_all is_digit (show_nat (n div 10))" "digits_value (show_nat (n div 10)) = n div 10"
      by simp_all
    with False show ?thesis
      by (subst (1 2) show_nat.simps) (simp add: is_digit_show digits_value_def)
  qed
qed

lemma show_nat_inj: "show_nat m = show_nat n \<longleftrightarrow> m = n"
  by (metis digits_show_nat)

lemma show_u64_inj: "show_u64 v = show_u64 w \<longleftrightarrow> v = w"
  by (auto simp: show_u64_def show_nat_inj intro: unsigned_word_eqI)

text \<open>An issue and the comments whose URL names it are one conversation.\<close>

lemma item_conversation_id_inj:
  assumes "CHR ''/'' \<notin> set (repo_owner (gi_repo x))" and "CHR ''/'' \<notin> set (repo_owner (gi_repo y))"
    and "CHR ''#'' \<notin> set (repo_name (gi_repo x))" and "CHR ''#'' \<notin> set (repo_name (gi_repo y))"
  shows "item_conversation_id x = item_conversation_id y \<longleftrightarrow>
    gi_repo x = gi_repo y \<and> gi_number x = gi_number y"
  unfolding item_conversation_id_def
  by (simp add: split_at_char assms show_u64_inj) (auto intro: repo.equality)

section \<open>Ingesting twice\<close>

lemma ingest_items_eq:
  "ingest_items add_message items s = (map (env_id \<circ> to_message) items, fold (add_message \<circ> to_message) items s)"
  by (induction items arbitrary: s) (simp_all add: Let_def)

lemma log_eqI:
  assumes "log_wf l" and "map env_id l = map env_id l'" and "\<And>i. log_find i l = log_find i l'"
  shows "l = l'"
proof (rule nth_equalityI)
  show len: "length l = length l'" using assms(2) by (metis length_map)
  have wf': "log_wf l'" using assms(1,2) by (simp add: log_wf_def)
  fix k assume k: "k < length l"
  have "env_id (l ! k) = env_id (l' ! k)" using assms(2) k len by (metis nth_map)
  moreover have "log_find (env_id (l ! k)) l = Some (l ! k)"
    using k by (simp add: log_find_iff [OF assms(1)])
  moreover have "log_find (env_id (l' ! k)) l' = Some (l' ! k)"
    using k len by (simp add: log_find_iff [OF wf'])
  ultimately show "l ! k = l' ! k" using assms(3) by (metis option.inject)
qed

lemma log_appends_wf: "log_wf l \<Longrightarrow> log_wf (fold log_append ms l)"
  by (induction ms arbitrary: l) (auto simp: log_wf_append)

lemma log_appends_ids:
  "env_id ` set (fold log_append ms l) = env_id ` set l \<union> env_id ` set ms"
proof (induction ms arbitrary: l)
  case (Cons m ms)
  have "env_id ` set (log_append m l) = insert (env_id m) (env_id ` set l)"
    using arg_cong [OF log_ids_append, of set m l] by (auto simp: insert_absorb)
  then show ?case by (simp add: Cons.IH)
qed simp

lemma log_appends_find:
  "log_find i (fold log_append ms l) =
    (case find (\<lambda>m. env_id m = i) (rev ms) of None \<Rightarrow> log_find i l | Some m \<Rightarrow> Some m)"
proof (induction ms rule: rev_induct)
  case (snoc m ms)
  then show ?case by (auto simp: log_find_append)
qed simp

lemma log_append_ids_known: "env_id m \<in> env_id ` set l \<Longrightarrow> map env_id (log_append m l) = map env_id l"
  by (simp add: log_ids_append)

lemma log_appends_ids_known:
  "env_id ` set ms \<subseteq> env_id ` set l \<Longrightarrow> map env_id (fold log_append ms l) = map env_id l"
proof (induction ms arbitrary: l)
  case (Cons m ms)
  then have ids: "map env_id (log_append m l) = map env_id l" by (simp add: log_append_ids_known)
  then have "env_id ` set (log_append m l) = env_id ` set l" by (metis list.set_map)
  with Cons ids show ?case by simp
qed simp

text \<open>Appending a batch of messages again changes nothing, whatever the batch repeats.\<close>

lemma log_appends_idem:
  assumes "log_wf l"
  shows "fold log_append ms (fold log_append ms l) = fold log_append ms l"
proof (rule log_eqI)
  show "log_wf (fold log_append ms (fold log_append ms l))" by (intro log_appends_wf assms)
  show "map env_id (fold log_append ms (fold log_append ms l)) = map env_id (fold log_append ms l)"
    by (rule log_appends_ids_known) (simp add: log_appends_ids)
  show "log_find i (fold log_append ms (fold log_append ms l)) = log_find i (fold log_append ms l)" for i
    by (simp add: log_appends_find split: option.split)
qed

context message_store begin

lemma ingest_items_all:
  assumes "ok s" and "\<forall>item\<in>set items. storable (to_message item)"
  shows "ok (snd (ingest_items append items s))"
    and "all (snd (ingest_items append items s)) = fold log_append (map to_message items) (all s)"
proof -
  have "fold (append \<circ> to_message) items s = fold append (map to_message items) s"
    by (simp add: fold_map)
  then show "ok (snd (ingest_items append items s))"
    and "all (snd (ingest_items append items s)) = fold log_append (map to_message items) (all s)"
    using assms ok_appends [OF assms(1)] all_appends [OF assms(1)] by (simp_all add: ingest_items_eq)
qed

lemma ingest_twice:
  assumes "ok s" and "\<forall>item\<in>set items. storable (to_message item)"
  shows "all (snd (ingest_items append items (snd (ingest_items append items s)))) =
    all (snd (ingest_items append items s))"
  using ingest_items_all [OF assms] ingest_items_all [OF _ assms(2)]
  by (simp add: log_appends_idem all_wf [OF assms(1)])

end

section \<open>Drafting and fetching\<close>

interpretation github_consumer: idempotent_consumer github_consume "\<lambda>_. True"
  by unfold_locales (auto simp: github_consume_def)

lemma draft_kind: "gd_kind (draft_for p) = DraftPullRequest \<longleftrightarrow> proj_intent p = Proposal"
  by (simp add: draft_for_def Let_def split: intent.split)

lemma draft_message_id [simp]: "gd_message_id (draft_for p) = proj_message_id p"
  by (simp add: draft_for_def Let_def)

lemma github_consumer_get_consume:
  "github_consumer_get (snd (github_consume c d p)) i =
    (if i = proj_message_id p then Some (draft_for p) else github_consumer_get c i)"
  by (simp add: github_consumer_get_def github_consume_def)

text \<open>With another base URL the fetch is the one of a source without a token.\<close>

lemma rest_request_no_token:
  "rs_base_url src \<noteq> github_default_base_url \<Longrightarrow> rest_request src = rest_request (src\<lparr>rs_token := None\<rparr>)"
  by (simp add: rest_request_def sends_token_def fun_eq_iff)

lemma try_fetch_no_token:
  assumes "rs_base_url src \<noteq> github_default_base_url"
  shows "try_fetch http dec_issues dec_comments src r =
    try_fetch http dec_issues dec_comments (src\<lparr>rs_token := None\<rparr>) r"
proof -
  let ?src = "src\<lparr>rs_token := None\<rparr>"
  have "rest_request src = rest_request ?src" by (rule rest_request_no_token [OF assms])
  moreover have "issues_url src r = issues_url ?src r" "comments_url src r = comments_url ?src r"
    by (simp_all add: issues_url_def comments_url_def)
  ultimately show ?thesis unfolding try_fetch_def rest_get_def by metis
qed

lemma try_fetch_items:
  assumes "try_fetch http dec_issues dec_comments src r = Inr items" and "item \<in> set items"
  shows "gi_repo item = r"
  using assms by (auto simp: try_fetch_def issue_item_def comment_item_def split: sum.splits)

lemma rest_requests_only_two:
  assumes "http (rest_request src (issues_url src r)) = http' (rest_request src (issues_url src r))"
    and "http (rest_request src (comments_url src r)) = http' (rest_request src (comments_url src r))"
  shows "try_fetch http dec_issues dec_comments src r = try_fetch http' dec_issues dec_comments src r"
  unfolding try_fetch_def rest_get_def assms ..

lemma parse_show_u64: "parse_u64 (show_u64 w) = Some w"
proof -
  have s: "list_all is_digit (show_nat (unat w))" "digits_value (show_nat (unat w)) = unat w"
    using digits_show_nat by simp_all
  obtain c cs where cs: "show_nat (unat w) = c # cs" using show_nat_nonempty by (meson neq_Nil_conv)
  then have "c \<noteq> CHR ''+''" using s(1) by (auto simp: is_digit_def)
  moreover have "unat w < 2 ^ 64" using unsigned_less [of w, where 'a = nat] by simp
  ultimately show ?thesis using s cs by (simp add: parse_u64_def show_u64_def)
qed

text \<open>A comment goes to the conversation of the issue its URL ends in.\<close>

lemma number_from_issue_url_show:
  "number_from_issue_url (url @ ''/'' @ show_u64 w) = w"
proof -
  have "CHR ''/'' \<notin> set (show_u64 w)"
    using digits_show_nat [of "unat w"] by (auto simp: show_u64_def list_all_iff is_digit_def)
  then have "last_segment (url @ ''/'' @ show_u64 w) = show_u64 w"
    by (simp add: last_segment_def takeWhile_append)
  then show ?thesis by (simp add: number_from_issue_url_def parse_show_u64)
qed

end
