(* ===== verification/Llm.thy ===== *)
theory Llm
  imports Main Prelude F64 Runtime Model Derivation
begin

text \<open>
  The language-model projector (\<open>crates/mirrorlane-llm\<close>) and its two transports
  (\<open>crates/mirrorlane-ollama\<close>, \<open>crates/mirrorlane-openai\<close>). HTTP, the model behind it and the
  JSON library are external: \<open>post\<close> answers a request and may change a state of its own, \<open>render\<close>
  prints a JSON value, and the decoders are arguments. A panic at the boundary is \<open>None\<close>.
\<close>

section \<open>The projector\<close>

record 's llm_client =
  lc_complete_json :: "'s \<Rightarrow> string \<Rightarrow> string \<Rightarrow> string option \<times> 's"
  lc_provider_tag :: string

definition default_prompt_version :: string where
  "default_prompt_version = ''v2''"

definition parser_version :: string where
  "parser_version = ''1''"

definition version_tag :: "string \<Rightarrow> string \<Rightarrow> string \<Rightarrow> string" where
  "version_tag provider model prompt_version = provider @ '':'' @ model @ '':'' @ prompt_version"

definition fingerprint :: "hash_function \<Rightarrow> string \<Rightarrow> string" where
  "fingerprint hasher txt = hex16 (hasher (str_bytes txt))"

definition newline :: string where
  "newline = [CHR 0x0A]"

definition quoted :: "string \<Rightarrow> string" where
  "quoted s = [CHR 0x22] @ s @ [CHR 0x22]"

definition projection_prompt :: "string \<Rightarrow> string" where
  "projection_prompt body =
     ''You classify a team chat message into structured JSON.'' @ newline @
     ''Respond with ONLY a JSON object with EXACTLY these four REQUIRED fields (never omit any):'' @ newline @
     ''- '' @ quoted ''intent'' @ '': one of '' @ quoted ''question'' @ '', '' @ quoted ''decision'' @
     '', '' @ quoted ''proposal'' @ '', '' @ quoted ''task'' @ '', '' @ quoted ''issue'' @ '', '' @
     quoted ''social'' @ newline @
     ''- '' @ quoted ''topics'' @ '': array of short lowercase strings (e.g. '' @ quoted ''rust'' @
     '', '' @ quoted ''auth'' @ '')'' @ newline @
     ''- '' @ quoted ''entities'' @ '': array of short plain strings naming concrete things (e.g. '' @
     quoted ''refresh-token'' @ ''); NOT objects'' @ newline @
     ''- '' @ quoted ''confidence'' @ '': a number from 0.0 to 1.0 '' @ [CHR 0xE2, CHR 0x80, CHR 0x94] @
     '' ALWAYS include this field'' @ newline @
     ''All four fields are mandatory. '' @ quoted ''topics'' @ '' and '' @ quoted ''entities'' @
     '' are arrays of strings only; do not nest or rename fields.'' @ newline @
     ''Message:'' @ newline @ body"

definition prompt_fingerprint :: "hash_function \<Rightarrow> string" where
  "prompt_fingerprint hasher = fingerprint hasher (projection_prompt [] @ newline @ parser_version)"

record projection_dto =
  dto_intent :: intent
  dto_topics :: "string list"
  dto_entities :: "string list"
  dto_confidence :: f64

definition parse_projection ::
  "(string \<Rightarrow> projection_dto option) \<Rightarrow> string \<Rightarrow> message_id \<Rightarrow> projection option" where
  "parse_projection dec response_body i =
     (case dec response_body of
        None \<Rightarrow> None
      | Some dto \<Rightarrow> Some
          \<lparr>proj_message_id = i, proj_intent = dto_intent dto,
           proj_topics = map Topic (dto_topics dto), proj_entities = map Entity (dto_entities dto),
           proj_confidence = confidence_new (dto_confidence dto)\<rparr>)"

record 's llm_projector =
  lp_client :: "'s llm_client"
  lp_model :: string
  lp_prompt_version :: string

definition llm_projector_new :: "'s llm_client \<Rightarrow> string \<Rightarrow> string \<Rightarrow> 's llm_projector" where
  "llm_projector_new client model prompt_version =
     \<lparr>lp_client = client, lp_model = model, lp_prompt_version = prompt_version\<rparr>"

definition cache_version :: "hash_function \<Rightarrow> 's llm_projector \<Rightarrow> string" where
  "cache_version hasher lp =
     version_tag (lc_provider_tag (lp_client lp)) (lp_model lp) (lp_prompt_version lp) @ '':'' @
     prompt_fingerprint hasher"

definition llm_run ::
  "(string \<Rightarrow> projection_dto option) \<Rightarrow> 's llm_projector \<Rightarrow> 's \<Rightarrow> message_envelope \<Rightarrow> projection option \<times> 's" where
  "llm_run dec lp s message =
     (let prompt = projection_prompt (env_body message) in
      case lc_complete_json (lp_client lp) s (lp_model lp) prompt of
        (None, s') \<Rightarrow> (None, s')
      | (Some response, s') \<Rightarrow> (parse_projection dec response (env_id message), s'))"

definition llm_step ::
  "hash_function \<Rightarrow> (string \<Rightarrow> projection_dto option) \<Rightarrow> 's llm_projector \<Rightarrow>
   ('s, message_envelope, projection) step" where
  "llm_step hasher dec lp =
     \<lparr>st_kind = ''mirrorlane.projection.llm'', st_version = StepVersion (cache_version hasher lp),
      st_run = llm_run dec lp\<rparr>"

section \<open>The transports\<close>

datatype json = JString string | JBool bool | JArray "json list" | JObject "(string \<times> json) list"

record post_request =
  po_url :: string
  po_headers :: "(string \<times> string) list"
  po_body :: string

text \<open>The reply body, or \<open>None\<close> for a transport error, a failure status or an unreadable body.\<close>

type_synonym 's post = "'s \<Rightarrow> post_request \<Rightarrow> string option \<times> 's"

definition ollama_default_base_url :: string where
  "ollama_default_base_url = ''http://localhost:11434''"

definition ollama_default_model :: string where
  "ollama_default_model = ''qwen2.5:3b-instruct''"

definition ollama_complete_json ::
  "(json \<Rightarrow> string) \<Rightarrow> (string \<Rightarrow> string option) \<Rightarrow> 's post \<Rightarrow> string \<Rightarrow>
   's \<Rightarrow> string \<Rightarrow> string \<Rightarrow> string option \<times> 's" where
  "ollama_complete_json render dec_generate post base_url s model prompt =
     (let url = base_url @ ''/api/generate'';
          request_body = JObject [(''model'', JString model), (''prompt'', JString prompt),
            (''format'', JString ''json''), (''stream'', JBool False)] in
      case post s \<lparr>po_url = url, po_headers = [(''Content-Type'', ''application/json'')],
                   po_body = render request_body\<rparr> of
        (None, s') \<Rightarrow> (None, s')
      | (Some response, s') \<Rightarrow> (dec_generate response, s'))"

definition ollama_client ::
  "(json \<Rightarrow> string) \<Rightarrow> (string \<Rightarrow> string option) \<Rightarrow> 's post \<Rightarrow> string \<Rightarrow> 's llm_client" where
  "ollama_client render dec_generate post base_url =
     \<lparr>lc_complete_json = ollama_complete_json render dec_generate post base_url,
      lc_provider_tag = ''ollama''\<rparr>"

definition ollama_with_defaults ::
  "(json \<Rightarrow> string) \<Rightarrow> (string \<Rightarrow> string option) \<Rightarrow> 's post \<Rightarrow> 's llm_client" where
  "ollama_with_defaults render dec_generate post =
     ollama_client render dec_generate post ollama_default_base_url"

definition openai_default_base_url :: string where
  "openai_default_base_url = ''https://api.openai.com/v1''"

definition openai_default_model :: string where
  "openai_default_model = ''gpt-4o-mini''"

text \<open>\<open>dec_chat\<close> gives the content of every choice, in order.\<close>

definition parse_content :: "(string \<Rightarrow> string list option) \<Rightarrow> string \<Rightarrow> string option" where
  "parse_content dec_chat body =
     (case dec_chat body of
        None \<Rightarrow> None
      | Some [] \<Rightarrow> None
      | Some (content # _) \<Rightarrow> Some content)"

definition openai_complete_json ::
  "(json \<Rightarrow> string) \<Rightarrow> (string \<Rightarrow> string list option) \<Rightarrow> 's post \<Rightarrow> string \<Rightarrow> string option \<Rightarrow>
   's \<Rightarrow> string \<Rightarrow> string \<Rightarrow> string option \<times> 's" where
  "openai_complete_json render dec_chat post base_url api_key s model prompt =
     (let url = base_url @ ''/chat/completions'';
          request_body = JObject [(''model'', JString model),
            (''messages'', JArray [JObject [(''role'', JString ''user''), (''content'', JString prompt)]]),
            (''response_format'', JObject [(''type'', JString ''json_object'')])];
          headers = [(''Content-Type'', ''application/json'')] @
            (case api_key of None \<Rightarrow> [] | Some key \<Rightarrow> [(''Authorization'', ''Bearer '' @ key)]) in
      case post s \<lparr>po_url = url, po_headers = headers, po_body = render request_body\<rparr> of
        (None, s') \<Rightarrow> (None, s')
      | (Some body, s') \<Rightarrow> (parse_content dec_chat body, s'))"

definition openai_client ::
  "(json \<Rightarrow> string) \<Rightarrow> (string \<Rightarrow> string list option) \<Rightarrow> 's post \<Rightarrow> string \<Rightarrow> string option \<Rightarrow> 's llm_client" where
  "openai_client render dec_chat post base_url api_key =
     \<lparr>lc_complete_json = openai_complete_json render dec_chat post base_url api_key,
      lc_provider_tag = ''openai''\<rparr>"

definition openai_from_env ::
  "(json \<Rightarrow> string) \<Rightarrow> (string \<Rightarrow> string list option) \<Rightarrow> 's post \<Rightarrow> (string \<Rightarrow> string option) \<Rightarrow> 's llm_client" where
  "openai_from_env render dec_chat post env =
     openai_client render dec_chat post openai_default_base_url (env ''OPENAI_API_KEY'')"

section \<open>What a model's answer can do\<close>

text \<open>The id of the message is the envelope's, whatever the model answers, and the confidence is clamped.\<close>

lemma parse_projection_sound:
  assumes "parse_projection dec body i = Some p"
  shows "proj_message_id p = i"
    and "(\<And>dto. dec body = Some dto \<Longrightarrow> f64_wf (dto_confidence dto) \<and> dto_confidence dto \<noteq> FNan) \<Longrightarrow>
      confidence_ok (proj_confidence p)"
  using assms by (auto simp: parse_projection_def confidence_new_ok split: option.splits)

lemma parse_projection_rejects: "dec body = None \<Longrightarrow> parse_projection dec body i = None"
  by (simp add: parse_projection_def)

lemma llm_run_labelled:
  assumes "llm_run dec lp s m = (Some p, s')"
  shows "proj_message_id p = env_id m"
  using assms parse_projection_sound(1)
  by (auto simp: llm_run_def Let_def split: prod.splits option.splits)

text \<open>A malformed answer stores nothing, so the next call asks the model again.\<close>

lemma llm_malformed_not_cached:
  assumes "get c ''mirrorlane.projection.llm'' v (key m) = None"
    and "lc_complete_json (lp_client lp) s (lp_model lp) (projection_prompt (env_body m)) = (Some response, s')"
    and "dec response = None"
  shows "cached_run get put key (llm_step hasher dec lp) v (c, s) m = (None, (c, s'))"
  using assms by (simp add: cached_run_def llm_step_def llm_run_def parse_projection_rejects Let_def)

section \<open>The version of a projector\<close>

text \<open>The fingerprint pins the template: the prompt of a message is the fingerprinted text and its body.\<close>

lemma projection_prompt_template: "projection_prompt body = projection_prompt [] @ body"
  by (simp add: projection_prompt_def)

lemma split_last_colon:
  assumes "CHR '':'' \<notin> set s" and "CHR '':'' \<notin> set t"
  shows "xs @ CHR '':'' # s = ys @ CHR '':'' # t \<longleftrightarrow> xs = ys \<and> s = t"
proof
  assume "xs @ CHR '':'' # s = ys @ CHR '':'' # t"
  then have "rev (xs @ CHR '':'' # s) = rev (ys @ CHR '':'' # t)" by simp
  then have "rev s @ CHR '':'' # rev xs = rev t @ CHR '':'' # rev ys" by simp
  then show "xs = ys \<and> s = t" using split_at_colon [of "rev s" "rev t" "rev xs" "rev ys"] assms by simp
qed simp

text \<open>
  Provider tags and prompt versions without colons make the tag injective; the model may
  contain colons, as Ollama's default does.
\<close>

lemma version_tag_inj:
  assumes "CHR '':'' \<notin> set p" and "CHR '':'' \<notin> set q" and "CHR '':'' \<notin> set v" and "CHR '':'' \<notin> set w"
  shows "version_tag p m v = version_tag q n w \<longleftrightarrow> p = q \<and> m = n \<and> v = w"
proof
  assume "version_tag p m v = version_tag q n w"
  then have "(p @ CHR '':'' # m) @ CHR '':'' # v = (q @ CHR '':'' # n) @ CHR '':'' # w"
    by (simp add: version_tag_def)
  then have "p @ CHR '':'' # m = q @ CHR '':'' # n" and "v = w"
    by (simp_all only: split_last_colon [OF assms(3,4)])
  then show "p = q \<and> m = n \<and> v = w" using split_at_colon [OF assms(1,2)] by simp
qed simp

lemma version_tag_ambiguous: "version_tag p (m @ '':'' @ a) b = version_tag p m (a @ '':'' @ b)"
  by (simp add: version_tag_def)

lemma hex16_no_colon: "CHR '':'' \<notin> set (hex16 w)"
proof -
  have "hex_digit d \<noteq> CHR '':''" if "d < 16" for d
  proof -
    have "(of_char (hex_digit d) :: nat) \<noteq> 58" using that by (simp add: hex_digit_def)
    then show ?thesis by auto
  qed
  then show ?thesis by (auto simp: hex16_def dest!: sym [of "CHR '':''"])
qed

lemma cache_version_inj:
  assumes "CHR '':'' \<notin> set (lc_provider_tag (lp_client a))" and "CHR '':'' \<notin> set (lc_provider_tag (lp_client b))"
    and "CHR '':'' \<notin> set (lp_prompt_version a)" and "CHR '':'' \<notin> set (lp_prompt_version b)"
  shows "cache_version hasher a = cache_version hasher b \<longleftrightarrow>
    lc_provider_tag (lp_client a) = lc_provider_tag (lp_client b) \<and> lp_model a = lp_model b \<and>
    lp_prompt_version a = lp_prompt_version b"
  using version_tag_inj [OF assms] by (simp add: cache_version_def)

lemma parse_content_first:
  "parse_content dec_chat body = Some c \<longleftrightarrow> (\<exists>cs. dec_chat body = Some (c # cs))"
  by (auto simp: parse_content_def split: option.split list.split)

end
