(* ===== verification/Commands.thy ===== *)
theory Commands
  imports Main Prelude F64 Runtime Model MessageLog Stores Skill HintDev Routing Mock ScopeWarmup
    Derivation Jobs Replay Derived Submission Sqlite SqliteLog SqliteCaches Github Llm
begin

text \<open>
  The commands of the CLI (\<open>crates/mirrorlane-cli/src/commands.rs\<close>): settings and ports, ingestion,
  session contexts, and \<open>replay\<close>, \<open>warmup\<close>, \<open>verify\<close> and \<open>inspect\<close>. The commands see the log as
  the list of its messages; a cache is the operations of its port.
\<close>

section \<open>Settings\<close>

definition session_context_schema :: string where
  "session_context_schema = ''mirrorlane.session_context/1''"

record session_context =
  sx_schema :: string
  sx_derivation_version :: string
  sx_conversation :: conversation_id
  sx_warmup :: warmup_document
  sx_scope :: "scope option"
  sx_developers :: "session_developers option"
  sx_hints :: "routing_hint list"
  sx_decisions :: "routing_decision list"
  sx_drafts :: "github_draft list"

datatype provider = ProviderMock | ProviderOllama | ProviderOpenai

record ollama_settings =
  ol_base_url :: string
  ol_model :: string
  ol_prompt_version :: string

record openai_settings =
  oa_base_url :: string
  oa_model :: string
  oa_prompt_version :: string

record llm_settings =
  ls_ollama :: ollama_settings
  ls_openai :: openai_settings

definition ollama_settings_default :: ollama_settings where
  "ollama_settings_default =
     \<lparr>ol_base_url = ollama_default_base_url, ol_model = ollama_default_model,
      ol_prompt_version = default_prompt_version\<rparr>"

definition openai_settings_default :: openai_settings where
  "openai_settings_default =
     \<lparr>oa_base_url = openai_default_base_url, oa_model = openai_default_model,
      oa_prompt_version = default_prompt_version\<rparr>"

definition llm_settings_default :: llm_settings where
  "llm_settings_default = \<lparr>ls_ollama = ollama_settings_default, ls_openai = openai_settings_default\<rparr>"

record routing_config =
  rc_rules :: "routing_rule list"
  rc_escalation_threshold :: "f64 option"
  rc_default_target :: "consumer_kind option"

definition build_router :: "routing_config option \<Rightarrow> rule_router" where
  "build_router config =
     (case config of
        Some rc \<Rightarrow> router_with_rules (rc_rules rc)
          (case rc_escalation_threshold rc of Some t \<Rightarrow> t | None \<Rightarrow> f64_lit (6 / 10))
          (case rc_default_target rc of Some k \<Rightarrow> k | None \<Rightarrow> Human)
      | None \<Rightarrow> router_new)"

section \<open>Ports\<close>

text \<open>
  Everything outside the program, in one record: the Unicode lower-casing and the hasher of the
  standard library, JSON in both directions, the network and the environment.
\<close>

record 's externals =
  ex_lower :: "string \<Rightarrow> string"
  ex_hasher :: hash_function
  ex_render :: "json \<Rightarrow> string"
  ex_dec_generate :: "string \<Rightarrow> string option"
  ex_dec_chat :: "string \<Rightarrow> string list option"
  ex_dec_dto :: "string \<Rightarrow> projection_dto option"
  ex_post :: "'s post"
  ex_env :: "string \<Rightarrow> string option"
  ex_enc_projection :: "projection \<Rightarrow> string"
  ex_dec_projection :: "string \<Rightarrow> projection option"
  ex_enc_derivation :: "conversation_derivation \<Rightarrow> string"
  ex_dec_derivation :: "string \<Rightarrow> conversation_derivation option"

text \<open>
  \<open>Cached::run\<close> over the SQLite cache, whose operations panic: \<open>None\<close> is then the panic of the
  call, and the file keeps its content.
\<close>

definition durable_cached_run ::
  "(projection \<Rightarrow> string) \<Rightarrow> (string \<Rightarrow> projection option) \<Rightarrow> (message_envelope \<Rightarrow> string) \<Rightarrow>
   ('s, message_envelope, projection) step \<Rightarrow> step_version \<Rightarrow> sqlite_db \<times> 's \<Rightarrow> message_envelope \<Rightarrow>
   projection option \<times> (sqlite_db \<times> 's)" where
  "durable_cached_run enc dec cache_key inner version cs input =
     (let key = cache_key input in
      case sqlite_projection_get dec (fst cs) (st_kind inner) version key of
        None \<Rightarrow> (None, cs)
      | Some (Some hit) \<Rightarrow> (Some hit, cs)
      | Some None \<Rightarrow>
          (case st_run inner (snd cs) input of
             (None, s') \<Rightarrow> (None, (fst cs, s'))
           | (Some out, s') \<Rightarrow>
               (case sqlite_projection_put enc (fst cs) (st_kind inner) version key out of
                  None \<Rightarrow> (None, (fst cs, s'))
                | Some db' \<Rightarrow> (Some out, (db', s')))))"

definition llm_projector_for :: "'s externals \<Rightarrow> provider \<Rightarrow> llm_settings \<Rightarrow> 's llm_projector option" where
  "llm_projector_for ex provider llm =
     (case provider of
        ProviderMock \<Rightarrow> None
      | ProviderOllama \<Rightarrow> Some (llm_projector_new
          (ollama_client (ex_render ex) (ex_dec_generate ex) (ex_post ex) (ol_base_url (ls_ollama llm)))
          (ol_model (ls_ollama llm)) (ol_prompt_version (ls_ollama llm)))
      | ProviderOpenai \<Rightarrow> Some (llm_projector_new
          (openai_client (ex_render ex) (ex_dec_chat ex) (ex_post ex) (oa_base_url (ls_openai llm))
             (ex_env ex ''OPENAI_API_KEY''))
          (oa_model (ls_openai llm)) (oa_prompt_version (ls_openai llm))))"

text \<open>\<open>None\<close> is the error of opening the cache.\<close>

definition projector_for ::
  "'s externals \<Rightarrow> provider \<Rightarrow> llm_settings \<Rightarrow> sqlite_db \<Rightarrow>
   ((sqlite_db \<times> 's, message_envelope, projection) step \<times> sqlite_db) option" where
  "projector_for ex provider llm db =
     (case llm_projector_for ex provider llm of
        None \<Rightarrow> Some (mock_step (ex_lower ex), db)
      | Some lp \<Rightarrow>
          (let version = cache_version (ex_hasher ex) lp in
           case projection_cache_init db of
             (False, _) \<Rightarrow> None
           | (True, db1) \<Rightarrow>
               (let db2 = (case sqlite_projection_prune db1 (StepVersion version) of
                             None \<Rightarrow> db1 | Some (n, db') \<Rightarrow> db') in
                Some (\<lparr>st_kind = ''mirrorlane.projection.cached'', st_version = StepVersion version,
                  st_run = durable_cached_run (ex_enc_projection ex) (ex_dec_projection ex)
                    (message_cache_key (ex_hasher ex)) (llm_step (ex_hasher ex) (ex_dec_dto ex) lp)
                    (StepVersion version)\<rparr>, db2))))"

definition strategy_context_for ::
  "'s externals \<Rightarrow> provider \<Rightarrow> llm_settings \<Rightarrow> sqlite_db \<Rightarrow>
   ((sqlite_db \<times> 's) strategy_context \<times> sqlite_db) option" where
  "strategy_context_for ex provider llm db =
     (case projector_for ex provider llm db of
        None \<Rightarrow> None
      | Some (projector, db') \<Rightarrow> Some
          (\<lparr>ctx_projector = projector, ctx_scoper = scope_project (ex_lower ex), ctx_builder = warmup_build,
            ctx_skill_builder = skill_build, ctx_hinter = skill_hint, ctx_snapshotter = snapshot_build\<rparr>,
           db'))"

datatype command_error = OpenError | StrategyError unknown_strategy

definition build_strategy ::
  "'s externals \<Rightarrow> provider \<Rightarrow> llm_settings \<Rightarrow> string \<Rightarrow> sqlite_db \<Rightarrow>
   command_error + ((sqlite_db \<times> 's) replay_strategy \<times> sqlite_db)" where
  "build_strategy ex provider llm i db =
     (case strategy_context_for ex provider llm db of
        None \<Rightarrow> Inl OpenError
      | Some (context, db') \<Rightarrow>
          (case strategy_build strategy_builtins i context of
             Inl e \<Rightarrow> Inl (StrategyError e)
           | Inr strategy \<Rightarrow> Inr (strategy, db')))"

definition derivation_version_for ::
  "'s externals \<Rightarrow> string \<Rightarrow> provider \<Rightarrow> llm_settings \<Rightarrow> sqlite_db \<Rightarrow> (step_version \<times> sqlite_db) option" where
  "derivation_version_for ex strategy provider llm db =
     (case projector_for ex provider llm db of
        None \<Rightarrow> None
      | Some (projector, db') \<Rightarrow> Some (derivation_version strategy (st_version projector), db'))"

section \<open>Ingestion\<close>

definition ingest ::
  "(string \<Rightarrow> 'e + message_envelope) \<Rightarrow> (message_envelope \<Rightarrow> 'l \<Rightarrow> 'l) \<Rightarrow> string \<Rightarrow> 'l \<Rightarrow>
   ('e + message_id) \<times> 'l" where
  "ingest dec add_message txt store =
     (case dec txt of
        Inl e \<Rightarrow> (Inl e, store)
      | Inr message \<Rightarrow> (Inr (env_id message), add_message message store))"

fun split_once :: "char \<Rightarrow> string \<Rightarrow> (string \<times> string) option" where
  "split_once c [] = None"
| "split_once c (x # xs) =
     (if x = c then Some ([], xs)
      else map_option (\<lambda>(a, b). (x # a, b)) (split_once c xs))"

definition parse_repo :: "(string \<Rightarrow> string) \<Rightarrow> string \<Rightarrow> string + repo" where
  "parse_repo dbg spec =
     (case split_once (CHR ''/'') spec of
        Some (owner, name) \<Rightarrow>
          if owner \<noteq> [] \<and> name \<noteq> [] \<and> CHR ''/'' \<notin> set name then Inr (repo_new owner name)
          else Inl (''invalid --repo '' @ dbg spec @ ''; expected owner/name'')
      | None \<Rightarrow> Inl (''invalid --repo '' @ dbg spec @ ''; expected owner/name''))"

datatype github_ingest_error = BadRepo string | FetchFailed github_fetch_error

definition github_ingest_rest ::
  "(string \<Rightarrow> string) \<Rightarrow> (http_request \<Rightarrow> http_reply) \<Rightarrow> (string \<Rightarrow> string + issue_dto list) \<Rightarrow>
   (string \<Rightarrow> string + comment_dto list) \<Rightarrow> (message_envelope \<Rightarrow> 'l \<Rightarrow> 'l) \<Rightarrow> rest_source \<Rightarrow> string \<Rightarrow> 'l \<Rightarrow>
   (github_ingest_error + message_id list) \<times> 'l" where
  "github_ingest_rest dbg http dec_issues dec_comments add_message src spec store =
     (case parse_repo dbg spec of
        Inl e \<Rightarrow> (Inl (BadRepo e), store)
      | Inr r \<Rightarrow>
          (case try_fetch http dec_issues dec_comments src r of
             Inl e \<Rightarrow> (Inl (FetchFailed e), store)
           | Inr items \<Rightarrow> (let (is, store') = ingest_items add_message items store in (Inr is, store'))))"

section \<open>Session contexts\<close>

definition session_context_from ::
  "conversation_derivation \<Rightarrow> string \<Rightarrow> rule_router \<Rightarrow> session_context" where
  "session_context_from d version router =
     (let routed = map (\<lambda>p. (p, router_route router p)) (cd_projections d);
          decisions = map (\<lambda>(p, (decision, trace)). decision) routed;
          drafts = map (\<lambda>(p, _). draft_for p)
            (filter (\<lambda>(p, (decision, trace)). dec_target decision = ConsumerGitHub) routed) in
      \<lparr>sx_schema = session_context_schema, sx_derivation_version = version,
       sx_conversation = cd_conversation d, sx_warmup = cd_warmup d, sx_scope = cd_scope d,
       sx_developers = cd_developers d, sx_hints = cd_hints d, sx_decisions = decisions,
       sx_drafts = drafts\<rparr>)"

definition unprojected :: "replay_stores \<Rightarrow> message_id list \<Rightarrow> message_id list" where
  "unprojected stores ids = filter (\<lambda>i. projection_store_get (rs_projections stores) i = None) ids"

record replay_output =
  ro_contexts :: "session_context list"
  ro_unprojected :: "message_id list"

record warmup_output =
  wo_context :: "session_context option"
  wo_unprojected :: "message_id list"

section \<open>The commands\<close>

type_synonym 'c derived_get_fun =
  "'c \<Rightarrow> step_version \<Rightarrow> conversation_id \<Rightarrow> string \<Rightarrow> conversation_derivation option"
type_synonym 'c derived_put_fun =
  "'c \<Rightarrow> step_version \<Rightarrow> conversation_id \<Rightarrow> string \<Rightarrow> conversation_derivation \<Rightarrow> 'c"
type_synonym 'c derived_reclaim_fun =
  "'c \<Rightarrow> conversation_id \<Rightarrow> step_version \<Rightarrow> string \<Rightarrow> 'c"

definition replay_command ::
  "'c derived_put_fun \<Rightarrow> 'c derived_reclaim_fun \<Rightarrow> hash_function \<Rightarrow> 's replay_strategy \<Rightarrow> (nat \<Rightarrow> deliveries) \<Rightarrow>
   step_version \<Rightarrow> rule_router \<Rightarrow> message_envelope list \<Rightarrow> 'c \<times> 's \<Rightarrow> replay_output \<times> ('c \<times> 's)" where
  "replay_command put reclaim hasher strategy d version router all st =
     (let (stores, s') = strategy d all (snd st);
          (derivations, cache') = populate_cache put reclaim hasher all stores (fst st) version;
          contexts = map (\<lambda>x. session_context_from x (version_str version) router) derivations in
      (\<lparr>ro_contexts = contexts, ro_unprojected = unprojected stores (map env_id all)\<rparr>, (cache', s')))"

definition warmup_command ::
  "'c derived_get_fun \<Rightarrow> 'c derived_put_fun \<Rightarrow> 'c derived_reclaim_fun \<Rightarrow> hash_function \<Rightarrow> 's replay_strategy \<Rightarrow>
   (nat \<Rightarrow> deliveries) \<Rightarrow> step_version \<Rightarrow> rule_router \<Rightarrow> message_envelope list \<Rightarrow> conversation_id \<Rightarrow>
   'c \<times> 's \<Rightarrow> warmup_output \<times> ('c \<times> 's)" where
  "warmup_command get put reclaim hasher strategy d version router all c st =
     (let content = content_hash_of hasher (default_messages_for all c) in
      case get (fst st) version c content of
        Some x \<Rightarrow>
          (let projected = map proj_message_id (cd_projections x) in
           (\<lparr>wo_context = Some (session_context_from x (version_str version) router),
             wo_unprojected = filter (\<lambda>i. i \<notin> set projected) (messages_in all c)\<rparr>, st))
      | None \<Rightarrow>
          (let (stores, s') = strategy d all (snd st);
               (_, cache') = populate_cache put reclaim hasher all stores (fst st) version;
               context = map_option (\<lambda>x. session_context_from x (version_str version) router)
                 (derivation_for all stores c) in
           (\<lparr>wo_context = context, wo_unprojected = unprojected stores (messages_in all c)\<rparr>, (cache', s'))))"

record verify_record =
  vr_conversation :: conversation_id
  vr_outcome :: string

definition verify_command ::
  "'c derived_get_fun \<Rightarrow> hash_function \<Rightarrow> 's replay_strategy \<Rightarrow> (nat \<Rightarrow> deliveries) \<Rightarrow> step_version \<Rightarrow>
   message_envelope list \<Rightarrow> 'c \<times> 's \<Rightarrow> verify_record list \<times> ('c \<times> 's)" where
  "verify_command get hasher strategy d version all st =
     (let (stores, s') = strategy d all (snd st);
          (fresh, scratch) = populate_cache derived_put derived_reclaim hasher all stores derived_new version in
      (map (\<lambda>x.
         (let content = content_hash_of hasher (default_messages_for all (cd_conversation x));
              outcome = (case get (fst st) version (cd_conversation x) content of
                None \<Rightarrow> ''not_cached''
              | Some stored \<Rightarrow> if derivation_eq stored x then ''verified'' else ''diverged'') in
          \<lparr>vr_conversation = cd_conversation x, vr_outcome = outcome\<rparr>)) fresh,
       (fst st, s')))"

record inspect_context =
  ic_message :: message_envelope
  ic_projection :: projection
  ic_trace :: "routing_trace option"
  ic_decision :: routing_decision

text \<open>The projection may panic: the outer \<open>None\<close>.\<close>

definition inspect_command ::
  "(message_id \<Rightarrow> message_envelope option) \<Rightarrow> (message_id \<Rightarrow> routing_trace option) \<Rightarrow>
   ('s, message_envelope, projection) step \<Rightarrow> rule_router \<Rightarrow> message_id \<Rightarrow> 's \<Rightarrow>
   inspect_context option option \<times> 's" where
  "inspect_command get_message get_trace projector router i s =
     (case get_message i of
        None \<Rightarrow> (Some None, s)
      | Some message \<Rightarrow>
          (case st_run projector s message of
             (None, s') \<Rightarrow> (None, s')
           | (Some p, s') \<Rightarrow>
               (Some (Some \<lparr>ic_message = message, ic_projection = p, ic_trace = get_trace i,
                            ic_decision = fst (router_route router p)\<rparr>), s')))"

section \<open>Session contexts are read-time\<close>

lemma session_context_decisions:
  "sx_decisions (session_context_from d v router) = map (\<lambda>p. fst (router_route router p)) (cd_projections d)"
  "sx_drafts (session_context_from d v router) =
    map draft_for (filter (\<lambda>p. dec_target (fst (router_route router p)) = ConsumerGitHub) (cd_projections d))"
  by (simp_all add: session_context_from_def Let_def case_prod_unfold comp_def filter_map)

lemma session_context_drafts_default:
  assumes "\<forall>p\<in>set (cd_projections d). \<not> f64_lt (confidence_get (proj_confidence p)) (f64_lit (6 / 10))"
  shows "map gd_message_id (sx_drafts (session_context_from d v router_new)) =
    map proj_message_id (filter (\<lambda>p. proj_intent p \<in> {Proposal, Issue}) (cd_projections d))"
proof -
  have threshold: "rr_escalation_threshold router_new = f64_lit (6 / 10)"
    by (simp add: router_new_def router_with_rules_def default_escalation_threshold_def)
  have "dec_target (fst (router_route router_new p)) = ConsumerGitHub \<longleftrightarrow> proj_intent p \<in> {Proposal, Issue}"
    if "p \<in> set (cd_projections d)" for p
    using assms that
    by (auto simp: route_target route_escalated target_for_new threshold split: intent.splits)
  then show ?thesis
    unfolding session_context_decisions by (auto simp: comp_def intro!: arg_cong [where f = "map _"] filter_cong)
qed

section \<open>Repositories\<close>

lemma split_once_Some:
  "split_once c s = Some (a, b) \<longleftrightarrow> s = a @ c # b \<and> c \<notin> set a"
proof (induction s arbitrary: a)
  case (Cons x xs)
  show ?case
  proof (cases "x = c")
    case True
    then show ?thesis by (cases a) auto
  next
    case False
    then show ?thesis using Cons by (cases a) auto
  qed
qed simp

lemma parse_repo_iff:
  "parse_repo dbg spec = Inr r \<longleftrightarrow>
    spec = repo_owner r @ ''/'' @ repo_name r \<and> repo_owner r \<noteq> [] \<and> repo_name r \<noteq> [] \<and>
    CHR ''/'' \<notin> set (repo_owner r) \<and> CHR ''/'' \<notin> set (repo_name r)"
proof -
  let ?good = "spec = repo_owner r @ ''/'' @ repo_name r \<and> repo_owner r \<noteq> [] \<and> repo_name r \<noteq> [] \<and>
    CHR ''/'' \<notin> set (repo_owner r) \<and> CHR ''/'' \<notin> set (repo_name r)"
  show ?thesis
  proof (cases "split_once (CHR ''/'') spec")
    case None
    then have "\<not> ?good" using split_once_Some [of "CHR ''/''" spec "repo_owner r" "repo_name r"] by auto
    with None show ?thesis by (simp add: parse_repo_def)
  next
    case (Some ab)
    obtain a b where ab: "ab = (a, b)" by (metis prod.collapse)
    have new: "repo_new a b = r \<longleftrightarrow> repo_owner r = a \<and> repo_name r = b"
      by (auto simp: repo_new_def)
    have "spec = repo_owner r @ ''/'' @ repo_name r \<and> CHR ''/'' \<notin> set (repo_owner r) \<longleftrightarrow>
        repo_owner r = a \<and> repo_name r = b"
      using split_once_Some [of "CHR ''/''" spec "repo_owner r" "repo_name r"] Some ab by auto
    with Some ab new show ?thesis by (auto simp: parse_repo_def)
  qed
qed

text \<open>A failure of the command leaves the log as it was.\<close>

lemma github_ingest_rest_error:
  "github_ingest_rest dbg http dec_issues dec_comments add_message src spec store = (Inl e, store') \<Longrightarrow>
    store' = store"
  by (auto simp: github_ingest_rest_def split: sum.splits prod.splits)

lemma ingest_error: "ingest dec add_message txt store = (Inl e, store') \<Longrightarrow> store' = store"
  by (auto simp: ingest_def split: sum.splits)

section \<open>Cache and replay agree\<close>

context derived_cache begin

text \<open>
  After a replay, the warm-up of any conversation is served from the cache, without running the
  strategy, and is the context the replay reported.
\<close>

lemma warmup_after_replay:
  assumes "ok cache" and "strategy d all s = (stores, s1)"
    and "\<forall>c x. derivation_for all stores c = Some x \<longrightarrow> storable x"
    and "c \<in> set (conversations all)" and "derivation_for all stores c = Some x"
    and "replay_command put reclaim hasher strategy d version router all (cache, s) = (out, (cache', s1))"
  shows "session_context_from x (version_str version) router \<in> set (ro_contexts out)"
    and "warmup_command get put reclaim hasher strategy' d' version router all c (cache', t) =
      (\<lparr>wo_context = Some (session_context_from x (version_str version) router),
        wo_unprojected = filter (\<lambda>i. i \<notin> set (map proj_message_id (cd_projections x))) (messages_in all c)\<rparr>,
       (cache', t))"
proof -
  have out: "out = \<lparr>ro_contexts = map (\<lambda>x. session_context_from x (version_str version) router)
        (List.map_filter (derivation_for all stores) (conversations all)),
      ro_unprojected = unprojected stores (map env_id all)\<rparr>"
    and cache': "cache' = snd (populate_cache put reclaim hasher all stores cache version)"
    using assms(6) populate_returns [of put reclaim hasher all stores cache version]
    by (auto simp: replay_command_def assms(2) Let_def case_prod_unfold)
  show "session_context_from x (version_str version) router \<in> set (ro_contexts out)"
    using assms(4,5) by (force simp: out set_map_filter)
  have "get cache' version c (content_hash hasher all c) = Some x"
    unfolding cache' by (rule populate_get [OF assms(1,3,5,4)])
  then show "warmup_command get put reclaim hasher strategy' d' version router all c (cache', t) =
      (\<lparr>wo_context = Some (session_context_from x (version_str version) router),
        wo_unprojected = filter (\<lambda>i. i \<notin> set (map proj_message_id (cd_projections x))) (messages_in all c)\<rparr>,
       (cache', t))"
    by (simp add: warmup_command_def content_hash_eq [symmetric])
qed

text \<open>A miss replays, and fills the cache for every conversation of the log.\<close>

lemma warmup_miss:
  assumes "ok cache" and "strategy d all s = (stores, s1)"
    and "\<forall>c x. derivation_for all stores c = Some x \<longrightarrow> storable x"
    and "get cache version c (content_hash hasher all c) = None"
    and "warmup_command get put reclaim hasher strategy d version router all c (cache, s) = (out, (cache', s'))"
  shows "wo_context out = map_option (\<lambda>x. session_context_from x (version_str version) router) (derivation_for all stores c)"
    and "\<And>c' x. c' \<in> set (conversations all) \<Longrightarrow> derivation_for all stores c' = Some x \<Longrightarrow>
      get cache' version c' (content_hash hasher all c') = Some x"
proof -
  have e: "wo_context out = map_option (\<lambda>x. session_context_from x (version_str version) router) (derivation_for all stores c) \<and>
    cache' = snd (populate_cache put reclaim hasher all stores cache version)"
    using assms(2,4,5) by (auto simp: warmup_command_def content_hash_eq Let_def case_prod_unfold)
  then show "wo_context out = map_option (\<lambda>x. session_context_from x (version_str version) router) (derivation_for all stores c)"
    by simp
  show "get cache' version c' (content_hash hasher all c') = Some x"
    if "c' \<in> set (conversations all)" "derivation_for all stores c' = Some x" for c' x
    using populate_get [OF assms(1,3) that(2,1)] e by simp
qed

text \<open>Verification right after a replay by the same deterministic strategy finds nothing wrong.\<close>

lemma verify_after_replay:
  assumes "ok cache" and "strategy d all s = (stores, s1)" and "strategy' d' all t = (stores, t1)"
    and "\<forall>c x. derivation_for all stores c = Some x \<longrightarrow> storable x \<and> derivation_eq x x"
    and "replay_command put reclaim hasher strategy d version router all (cache, s) = (out, (cache', s1))"
  shows "verify_command get hasher strategy' d' version all (cache', t) =
    (map (\<lambda>x. \<lparr>vr_conversation = cd_conversation x, vr_outcome = ''verified''\<rparr>)
      (List.map_filter (derivation_for all stores) (conversations all)), (cache', t1))"
proof -
  have cache': "cache' = snd (populate_cache put reclaim hasher all stores cache version)"
    using assms(5) by (auto simp: replay_command_def assms(2) Let_def case_prod_unfold)
  have sto: "\<forall>c x. derivation_for all stores c = Some x \<longrightarrow> storable x" using assms(4) by blast
  have each: "get cache' version (cd_conversation x)
      (content_hash_of hasher (default_messages_for all (cd_conversation x))) = Some x \<and> derivation_eq x x"
    if x: "x \<in> set (List.map_filter (derivation_for all stores) (conversations all))" for x
  proof -
    obtain c where c: "c \<in> set (conversations all)" "derivation_for all stores c = Some x"
      using x by (auto simp: set_map_filter)
    have "cd_conversation x = c" using c(2) by (auto simp: derivation_for_def Let_def split: option.splits)
    with populate_get [OF assms(1) sto c(2,1), of hasher version] show ?thesis
      using c(2) assms(4) by (simp add: cache' content_hash_eq)
  qed
  have fresh: "fst (populate_cache derived_put derived_reclaim hasher all stores derived_new version) =
      List.map_filter (derivation_for all stores) (conversations all)"
    by (rule populate_returns)
  show ?thesis
    using each by (auto simp: verify_command_def assms(3) fresh Let_def case_prod_unfold intro!: map_cong)
qed

end

end
