(* ===== verification/Cli.thy ===== *)
theory Cli
  imports Main Prelude F64 Runtime Model MessageLog Stores Skill HintDev Routing Mock ScopeWarmup
    Derivation Jobs Replay Derived Submission Sqlite SqliteLog SqliteCaches Github Llm Commands
begin

text \<open>
  The settings of the binary (\<open>crates/mirrorlane-cli/src/main.rs\<close>, \<open>broker.rs\<close>): configuration and its
  precedence, the choice of the queue broker and the \<open>dlq\<close> and \<open>submit\<close> commands. The file system,
  the environment, the JSON decoder and the queue backends are arguments. Errors of type
  \<open>Box<dyn Error>\<close> are their text. The commands that use the database file are in \<open>CliRun\<close>.
\<close>

section \<open>Configuration\<close>

datatype cli_format = FormatText | FormatJson
datatype broker_kind = BrokerSqlite | BrokerPostgres | BrokerRedis

record worklane_config =
  wl_queue_schema :: "string option"
  wl_queue_namespace :: "string option"
  wl_pool_size :: "64 word option"
  wl_lease_secs :: "64 word option"
  wl_max_deliveries :: "32 word option"
  wl_handler_timeout_secs :: "64 word option"

record retention_config =
  rt_dead_letter_max_count :: "64 word option"
  rt_dead_letter_max_age_secs :: "64 word option"
  rt_trace_max_count :: "64 word option"

record config =
  cfg_db :: "string option"
  cfg_queue_db :: "string option"
  cfg_broker :: "broker_kind option"
  cfg_queue_url :: "string option"
  cfg_provider :: "provider option"
  cfg_format :: "cli_format option"
  cfg_strategy :: "string option"
  cfg_ollama_base_url :: "string option"
  cfg_ollama_model :: "string option"
  cfg_ollama_prompt_version :: "string option"
  cfg_openai_base_url :: "string option"
  cfg_openai_model :: "string option"
  cfg_github_base_url :: "string option"
  cfg_routing :: "routing_config option"
  cfg_retention :: "retention_config option"
  cfg_worklane :: "worklane_config option"

definition worklane_config_default :: worklane_config where
  "worklane_config_default =
     \<lparr>wl_queue_schema = None, wl_queue_namespace = None, wl_pool_size = None, wl_lease_secs = None,
      wl_max_deliveries = None, wl_handler_timeout_secs = None\<rparr>"

definition retention_config_default :: retention_config where
  "retention_config_default =
     \<lparr>rt_dead_letter_max_count = None, rt_dead_letter_max_age_secs = None, rt_trace_max_count = None\<rparr>"

definition config_default :: config where
  "config_default =
     \<lparr>cfg_db = None, cfg_queue_db = None, cfg_broker = None, cfg_queue_url = None, cfg_provider = None,
      cfg_format = None, cfg_strategy = None, cfg_ollama_base_url = None, cfg_ollama_model = None,
      cfg_ollama_prompt_version = None, cfg_openai_base_url = None, cfg_openai_model = None,
      cfg_github_base_url = None, cfg_routing = None, cfg_retention = None, cfg_worklane = None\<rparr>"

text \<open>\<open>a.or(b)\<close>\<close>

definition or_else :: "'a option \<Rightarrow> 'a option \<Rightarrow> 'a option" where
  "or_else a b = (case a of None \<Rightarrow> b | Some x \<Rightarrow> Some x)"

definition unwrap_or :: "'a option \<Rightarrow> 'a \<Rightarrow> 'a" where
  "unwrap_or a dflt = (case a of None \<Rightarrow> dflt | Some x \<Rightarrow> x)"

type_synonym environment = "string \<Rightarrow> string option"

definition env_str_or :: "environment \<Rightarrow> string \<Rightarrow> string option \<Rightarrow> string option" where
  "env_str_or env name setting = or_else (env name) setting"

definition env_num_or ::
  "environment \<Rightarrow> (string \<Rightarrow> string) \<Rightarrow> (string \<Rightarrow> string + 'n) \<Rightarrow> string \<Rightarrow> 'n option \<Rightarrow> string + 'n option" where
  "env_num_or env dbg parse name setting =
     (case env name of
        Some s \<Rightarrow>
          (case parse s of
             Inr n \<Rightarrow> Inr (Some n)
           | Inl e \<Rightarrow> Inl (name @ '': invalid value '' @ dbg s @ '': '' @ e))
      | None \<Rightarrow> Inr setting)"

definition default_dead_letter_max_count :: "64 word" where "default_dead_letter_max_count = 1000"
definition default_trace_max_count :: "64 word" where "default_trace_max_count = 10000"
definition default_max_deliveries :: "32 word" where "default_max_deliveries = 10"
definition default_handler_timeout_secs :: "64 word" where "default_handler_timeout_secs = 300"

record 'p broker_settings =
  bs_retention :: 'p
  bs_schema :: "string option"
  bs_namespace :: "string option"
  bs_pool_size :: "64 word option"
  bs_lease :: "64 word option"
  bs_max_deliveries :: "32 word option"

text \<open>
  The parsers of \<open>usize\<close> and \<open>u64\<close> on the one hand and of \<open>u32\<close> on the other are two arguments: a count of
  deliveries that does not fit 32 bits is an error of the second.
\<close>

definition resolve_broker_settings ::
  "environment \<Rightarrow> (string \<Rightarrow> string) \<Rightarrow> (string \<Rightarrow> string + 64 word) \<Rightarrow> (string \<Rightarrow> string + 32 word) \<Rightarrow> 'p \<Rightarrow>
   worklane_config option \<Rightarrow> string + 'p broker_settings" where
  "resolve_broker_settings env dbg parse64 parse32 retention setting =
     (let wl = unwrap_or setting worklane_config_default;
          schema = env_str_or env ''MIRRORLANE_WORKLANE_QUEUE_SCHEMA'' (wl_queue_schema wl);
          namespace = env_str_or env ''MIRRORLANE_WORKLANE_QUEUE_NAMESPACE'' (wl_queue_namespace wl) in
      case env_num_or env dbg parse64 ''MIRRORLANE_WORKLANE_POOL_SIZE'' (wl_pool_size wl) of
        Inl e \<Rightarrow> Inl e
      | Inr pool_size \<Rightarrow>
          (case env_num_or env dbg parse64 ''MIRRORLANE_WORKLANE_LEASE_SECS'' (wl_lease_secs wl) of
             Inl e \<Rightarrow> Inl e
           | Inr lease \<Rightarrow>
               (case env_num_or env dbg parse32 ''MIRRORLANE_WORKLANE_MAX_DELIVERIES'' (wl_max_deliveries wl) of
                  Inl e \<Rightarrow> Inl e
                | Inr max_deliveries \<Rightarrow> Inr
                    \<lparr>bs_retention = retention, bs_schema = schema, bs_namespace = namespace,
                     bs_pool_size = pool_size, bs_lease = lease,
                     bs_max_deliveries = or_else max_deliveries (Some default_max_deliveries)\<rparr>)))"

definition resolve_handler_timeout ::
  "environment \<Rightarrow> (string \<Rightarrow> string) \<Rightarrow> (string \<Rightarrow> string + 64 word) \<Rightarrow> worklane_config option \<Rightarrow> string + 64 word" where
  "resolve_handler_timeout env dbg parse setting =
     (case env_num_or env dbg parse ''MIRRORLANE_WORKLANE_HANDLER_TIMEOUT_SECS''
             (Option.bind setting wl_handler_timeout_secs) of
        Inl e \<Rightarrow> Inl e
      | Inr secs \<Rightarrow> Inr (unwrap_or secs default_handler_timeout_secs))"

text \<open>The retention policy is a value of the queue library, built by its own functions.\<close>

definition resolve_retention ::
  "'p \<Rightarrow> (64 word \<Rightarrow> 'p \<Rightarrow> 'p) \<Rightarrow> (64 word \<Rightarrow> 'p \<Rightarrow> 'p) \<Rightarrow> retention_config option \<Rightarrow> 'p \<times> 64 word" where
  "resolve_retention policy_new with_max_count with_max_age setting =
     (let rc = unwrap_or setting retention_config_default;
          policy = with_max_count (unwrap_or (rt_dead_letter_max_count rc) default_dead_letter_max_count) policy_new;
          policy' = (case rt_dead_letter_max_age_secs rc of None \<Rightarrow> policy | Some secs \<Rightarrow> with_max_age secs policy);
          trace_cap = unwrap_or (rt_trace_max_count rc) default_trace_max_count in
      (policy', trace_cap))"

definition default_config_path :: string where
  "default_config_path = ''mirrorlane.json''"

definition load_config ::
  "(string \<Rightarrow> string + string) \<Rightarrow> (string \<Rightarrow> string + config) \<Rightarrow> string option \<Rightarrow> string + config" where
  "load_config read_file from_json explicit =
     (case explicit of
        Some path \<Rightarrow>
          (case read_file path of
             Inl e \<Rightarrow> Inl (''cannot read config '' @ path @ '': '' @ e)
           | Inr txt \<Rightarrow>
               (case from_json txt of
                  Inl e \<Rightarrow> Inl (''invalid config '' @ path @ '': '' @ e)
                | Inr c \<Rightarrow> Inr c))
      | None \<Rightarrow>
          (case read_file default_config_path of
             Inr txt \<Rightarrow>
               (case from_json txt of
                  Inl e \<Rightarrow> Inl (''invalid config '' @ default_config_path @ '': '' @ e)
                | Inr c \<Rightarrow> Inr c)
           | Inl e \<Rightarrow> Inr config_default))"

definition resolve_db :: "string option \<Rightarrow> string option \<Rightarrow> string" where
  "resolve_db flag setting = unwrap_or (or_else flag setting) ''mirrorlane.db''"

definition resolve_provider :: "provider option \<Rightarrow> provider option \<Rightarrow> provider" where
  "resolve_provider flag setting = unwrap_or (or_else flag setting) ProviderMock"

definition resolve_format :: "cli_format option \<Rightarrow> cli_format option \<Rightarrow> cli_format" where
  "resolve_format flag setting = unwrap_or (or_else flag setting) FormatText"

definition resolve_strategy :: "string option \<Rightarrow> string option \<Rightarrow> string" where
  "resolve_strategy flag setting = unwrap_or (or_else flag setting) default_strategy"

definition resolve_str :: "string option \<Rightarrow> string option \<Rightarrow> string \<Rightarrow> string" where
  "resolve_str flag setting dflt = unwrap_or (or_else flag setting) dflt"

definition fail_if_unprojected :: "message_id list \<Rightarrow> string + unit" where
  "fail_if_unprojected missing =
     (if missing = [] then Inr ()
      else Inl (show_nat (length missing) @
        '' message(s) produced no projection (projector failed): '' @
        join '', '' (map message_id_str missing) @
        ''. Re-run to retry '' @ em_dash @ '' cached successes are not recomputed.''))"

section \<open>Brokers\<close>

record ('p, 'b) backends =
  bk_sqlite_open :: "string \<Rightarrow> string + 'b"
  bk_postgres_connect :: "string \<Rightarrow> string \<Rightarrow> 64 word \<Rightarrow> string + 'b"
  bk_redis_connect :: "string \<Rightarrow> string \<Rightarrow> string + 'b"
  bk_default_pool_size :: "64 word"
  bk_redact :: "string \<Rightarrow> string"
  bk_with_retention :: "'p \<Rightarrow> 'b \<Rightarrow> 'b"
  bk_with_lease :: "64 word \<Rightarrow> 'b \<Rightarrow> 'b"
  bk_with_max_deliveries :: "32 word \<Rightarrow> 'b \<Rightarrow> 'b"

definition resolve_url ::
  "environment \<Rightarrow> string option \<Rightarrow> string \<Rightarrow> string \<Rightarrow> string + string" where
  "resolve_url env url_setting fallback_var backend =
     (case url_setting of
        Some url \<Rightarrow> Inr url
      | None \<Rightarrow>
          (case env ''WORKLANE_URL'' of
             Some url \<Rightarrow> Inr url
           | None \<Rightarrow>
               (case env fallback_var of
                  Some url \<Rightarrow> Inr url
                | None \<Rightarrow> Inl (''--queue-url, $WORKLANE_URL, or $'' @ fallback_var @
                    '' is required for --broker '' @ backend))))"

definition tuned :: "('p, 'b) backends \<Rightarrow> 'p broker_settings \<Rightarrow> 'b \<Rightarrow> 'b" where
  "tuned bk settings b =
     (let b1 = bk_with_retention bk (bs_retention settings) b;
          b2 = (case bs_lease settings of None \<Rightarrow> b1 | Some lease \<Rightarrow> bk_with_lease bk lease b1) in
      case bs_max_deliveries settings of None \<Rightarrow> b2 | Some n \<Rightarrow> bk_with_max_deliveries bk n b2)"

definition broker_connect ::
  "('p, 'b) backends \<Rightarrow> environment \<Rightarrow> broker_kind \<Rightarrow> string \<Rightarrow> string option \<Rightarrow> 'p broker_settings \<Rightarrow>
   string + 'b" where
  "broker_connect bk env kind queue_db url_setting settings =
     (case kind of
        BrokerSqlite \<Rightarrow>
          (case bk_sqlite_open bk queue_db of
             Inl e \<Rightarrow> Inl (''sqlite: failed to open '' @ [CHR 0x27] @ queue_db @ [CHR 0x27] @ '': '' @ e)
           | Inr b \<Rightarrow> Inr (tuned bk settings b))
      | BrokerPostgres \<Rightarrow>
          (case resolve_url env url_setting ''DATABASE_URL'' ''postgres'' of
             Inl e \<Rightarrow> Inl e
           | Inr url \<Rightarrow>
               (case bk_postgres_connect bk url (unwrap_or (bs_schema settings) ''public'')
                       (unwrap_or (bs_pool_size settings) (bk_default_pool_size bk)) of
                  Inl e \<Rightarrow> Inl (''postgres: connection failed: '' @ bk_redact bk e)
                | Inr b \<Rightarrow> Inr (tuned bk settings b)))
      | BrokerRedis \<Rightarrow>
          (case resolve_url env url_setting ''REDIS_URL'' ''redis'' of
             Inl e \<Rightarrow> Inl e
           | Inr url \<Rightarrow>
               (case bk_redis_connect bk url (unwrap_or (bs_namespace settings) ''worklane'') of
                  Inl e \<Rightarrow> Inl (''redis: connection failed: '' @ bk_redact bk e)
                | Inr b \<Rightarrow> Inr (tuned bk settings b))))"

section \<open>Settings of a run\<close>

record cli_args =
  cli_db :: "string option"
  cli_queue_db :: "string option"
  cli_broker :: "broker_kind option"
  cli_queue_url :: "string option"
  cli_provider :: "provider option"
  cli_format :: "cli_format option"
  cli_strategy :: "string option"
  cli_config :: "string option"
  cli_ollama_base_url :: "string option"
  cli_ollama_model :: "string option"
  cli_ollama_prompt_version :: "string option"
  cli_openai_base_url :: "string option"
  cli_openai_model :: "string option"
  cli_github_base_url :: "string option"

record run_settings =
  run_db :: string
  run_queue_db :: string
  run_broker :: broker_kind
  run_queue_url :: "string option"
  run_provider :: provider
  run_format :: cli_format
  run_strategy :: string
  run_llm :: llm_settings
  run_github_base_url :: string
  run_router :: rule_router

definition resolve_settings :: "cli_args \<Rightarrow> config \<Rightarrow> run_settings" where
  "resolve_settings cli config =
     \<lparr>run_db = resolve_db (cli_db cli) (cfg_db config),
      run_queue_db = resolve_str (cli_queue_db cli) (cfg_queue_db config) ''mirrorlane-queue.db'',
      run_broker = unwrap_or (or_else (cli_broker cli) (cfg_broker config)) BrokerSqlite,
      run_queue_url = or_else (cli_queue_url cli) (cfg_queue_url config),
      run_provider = resolve_provider (cli_provider cli) (cfg_provider config),
      run_format = resolve_format (cli_format cli) (cfg_format config),
      run_strategy = resolve_strategy (cli_strategy cli) (cfg_strategy config),
      run_llm =
        \<lparr>ls_ollama =
           \<lparr>ol_base_url = resolve_str (cli_ollama_base_url cli) (cfg_ollama_base_url config) ollama_default_base_url,
            ol_model = resolve_str (cli_ollama_model cli) (cfg_ollama_model config) ollama_default_model,
            ol_prompt_version = resolve_str (cli_ollama_prompt_version cli)
              (cfg_ollama_prompt_version config) default_prompt_version\<rparr>,
         ls_openai =
           \<lparr>oa_base_url = resolve_str (cli_openai_base_url cli) (cfg_openai_base_url config) openai_default_base_url,
            oa_model = resolve_str (cli_openai_model cli) (cfg_openai_model config) openai_default_model,
            oa_prompt_version = default_prompt_version\<rparr>\<rparr>,
      run_github_base_url =
        resolve_str (cli_github_base_url cli) (cfg_github_base_url config) github_default_base_url,
      run_router = build_router (cfg_routing config)\<rparr>"

section \<open>Dead letters\<close>

text \<open>The job id is parsed by the queue library; \<open>parse_id\<close> gives it or an error.\<close>

datatype dlq_lane = DlqStrategyRun | DlqRoutedWork
datatype dlq_action = DlqRead | DlqCount | DlqRequeue | DlqPurge

datatype 'l dlq_report =
  ReportRead string "'l list" | ReportCount string nat | ReportRequeued string string | ReportPurged string nat

definition dlq_target ::
  "('b, 'l, 'e) dead_letter_broker \<Rightarrow> dlq_lane \<Rightarrow> string \<times> ('b, 'l, 'e) dead_letters" where
  "dlq_target broker lane =
     (case lane of
        DlqStrategyRun \<Rightarrow> (''strategy-run'', dead_letters_new broker strategy_run_lane)
      | DlqRoutedWork \<Rightarrow> (''routed-work'', dead_letters_new broker routed_work_lane))"

datatype 'e dlq_error = DlqBroker 'e | DlqMissingId | DlqBadId string

definition cli_dlq ::
  "('b, 'l, 'e) dead_letter_broker \<Rightarrow> (string \<Rightarrow> string) \<Rightarrow> (string \<Rightarrow> string + string) \<Rightarrow> dlq_lane \<Rightarrow> dlq_action \<Rightarrow>
   string option \<Rightarrow> nat \<Rightarrow> 'b \<Rightarrow> ('e dlq_error + 'l dlq_report) \<times> 'b" where
  "cli_dlq broker dbg parse_id lane action ident limit b =
     (let (lane_name, dl) = dlq_target broker lane in
      case action of
        DlqRead \<Rightarrow>
          (case dead_letters_read dl limit b of
             Inl e \<Rightarrow> (Inl (DlqBroker e), b) | Inr dead \<Rightarrow> (Inr (ReportRead lane_name dead), b))
      | DlqCount \<Rightarrow>
          (case dead_letters_count dl b of
             Inl e \<Rightarrow> (Inl (DlqBroker e), b) | Inr n \<Rightarrow> (Inr (ReportCount lane_name n), b))
      | DlqRequeue \<Rightarrow>
          (case ident of
             None \<Rightarrow> (Inl DlqMissingId, b)
           | Some i \<Rightarrow>
               (case parse_id i of
                  Inl e \<Rightarrow> (Inl (DlqBadId (''invalid job id '' @ dbg i @ '': '' @ e)), b)
                | Inr job \<Rightarrow>
                    (case dead_letters_requeue dl job b of
                       (Inl e, b') \<Rightarrow> (Inl (DlqBroker e), b')
                     | (Inr _, b') \<Rightarrow> (Inr (ReportRequeued lane_name i), b'))))
      | DlqPurge \<Rightarrow>
          (case dead_letters_purge dl b of
             (Inl e, b') \<Rightarrow> (Inl (DlqBroker e), b')
           | (Inr n, b') \<Rightarrow> (Inr (ReportPurged lane_name n), b')))"

text \<open>\<open>submit\<close> puts one request on the lane the worker drains.\<close>

definition cli_submit ::
  "(string \<Rightarrow> strategy_run_request \<Rightarrow> 'b \<Rightarrow> ('e + 'i) \<times> 'b) \<Rightarrow> run_settings \<Rightarrow> 'b \<Rightarrow> ('e + 'i) \<times> 'b" where
  "cli_submit enqueue rs b = enqueue strategy_run_lane \<lparr>srun_strategy = run_strategy rs\<rparr> b"

section \<open>Settings\<close>

lemma or_else_simps [simp]: "or_else (Some x) b = Some x" "or_else None b = b"
  by (simp_all add: or_else_def)

lemma unwrap_or_simps [simp]: "unwrap_or (Some x) dflt = x" "unwrap_or None dflt = dflt"
  by (simp_all add: unwrap_or_def)

text \<open>Redelivery is bounded whatever the configuration leaves out.\<close>

lemma resolve_broker_settings_bounded:
  "resolve_broker_settings env dbg parse64 parse32 retention setting = Inr settings \<Longrightarrow> bs_max_deliveries settings \<noteq> None"
  by (auto simp: resolve_broker_settings_def Let_def or_else_def split: sum.splits option.splits)

lemma resolve_broker_settings_env:
  assumes "resolve_broker_settings env dbg parse64 parse32 retention setting = Inr settings"
    and "env ''MIRRORLANE_WORKLANE_MAX_DELIVERIES'' = Some s"
  shows "\<exists>n. parse32 s = Inr n \<and> bs_max_deliveries settings = Some n"
  using assms by (auto simp: resolve_broker_settings_def Let_def env_num_or_def split: sum.splits)

lemma resolve_url_iff:
  "(\<exists>url. resolve_url env url_setting var backend = Inr url) \<longleftrightarrow>
    url_setting \<noteq> None \<or> env ''WORKLANE_URL'' \<noteq> None \<or> env var \<noteq> None"
  by (auto simp: resolve_url_def split: option.split)

text \<open>Looking at dead letters, and a requeue that names no job, leave the queue alone.\<close>

lemma cli_dlq_unchanged:
  assumes "action \<in> {DlqRead, DlqCount} \<or>
    action = DlqRequeue \<and> (case ident of None \<Rightarrow> True | Some i \<Rightarrow> \<exists>e. parse_id i = Inl e)"
  shows "snd (cli_dlq broker dbg parse_id lane action ident limit b) = b"
  using assms by (auto simp: cli_dlq_def case_prod_unfold Let_def split: sum.split option.splits)

text \<open>
  Reading, counting and purging reach the broker under the lane's own name. A requeue does not
  pass the lane on: its effect is the same for both, and only the report names one.
\<close>

lemma dlq_target_lane:
  "dl_lane (snd (dlq_target broker lane)) =
    (case lane of DlqStrategyRun \<Rightarrow> strategy_run_lane | DlqRoutedWork \<Rightarrow> routed_work_lane)"
  by (cases lane) (simp_all add: dlq_target_def dead_letters_new_def)

lemma cli_dlq_requeue_lane:
  "snd (cli_dlq broker dbg parse_id DlqStrategyRun DlqRequeue ident limit b) =
    snd (cli_dlq broker dbg parse_id DlqRoutedWork DlqRequeue ident limit b)"
  by (auto simp: cli_dlq_def dlq_target_def dead_letters_requeue_def dead_letters_new_def
      split: option.split sum.split prod.split)

end
