(* ===== verification/CliRun.thy ===== *)
theory CliRun
  imports Main Prelude F64 Runtime Model MessageLog Stores Skill HintDev Routing Mock ScopeWarmup
    Derivation Jobs Replay Derived Submission Sqlite SqliteLog SqliteCaches Github Llm Commands Cli
begin

text \<open>
  The commands of the binary as they run on one database file
  (\<open>crates/mirrorlane-cli/src/main.rs\<close>, the arms of the \<open>match\<close> in \<open>main\<close>). Every command returns
  how it ended and what the file then holds, also when it failed or panicked.
\<close>

section \<open>Outcomes\<close>

text \<open>
  A result, a result that was printed before the command exited with an error, an error, or a
  panic.
\<close>

datatype 'a cli_outcome = Done 'a | DoneWithError 'a | Failed | Panicked

text \<open>
  A file that a panicking store works on: once an operation has panicked the process is gone and
  the file keeps its content.
\<close>

type_synonym live_file = "bool \<times> sqlite_db"

definition file_append :: "(message_envelope \<Rightarrow> string) \<Rightarrow> message_envelope \<Rightarrow> live_file \<Rightarrow> live_file" where
  "file_append enc m file =
     (case (fst file, sqlite_append enc m (snd file)) of
        (True, Some db) \<Rightarrow> (True, db) | _ \<Rightarrow> (False, snd file))"

definition file_put ::
  "(conversation_derivation \<Rightarrow> string) \<Rightarrow> live_file \<Rightarrow> step_version \<Rightarrow> conversation_id \<Rightarrow> string \<Rightarrow>
   conversation_derivation \<Rightarrow> live_file" where
  "file_put enc file v c x d =
     (case (fst file, sqlite_derived_put enc (snd file) v c x d) of
        (True, Some db) \<Rightarrow> (True, db) | _ \<Rightarrow> (False, snd file))"

definition file_reclaim :: "live_file \<Rightarrow> conversation_id \<Rightarrow> step_version \<Rightarrow> string \<Rightarrow> live_file" where
  "file_reclaim file c v x =
     (if fst file then (True, sqlite_derived_reclaim (snd file) c v x) else file)"

definition finished :: "'a cli_outcome \<Rightarrow> live_file \<Rightarrow> 'a cli_outcome" where
  "finished outcome file = (if fst file then outcome else Panicked)"

section \<open>Opening\<close>

text \<open>Every command first opens the log and the trace store on the one database file.\<close>

definition cli_open :: "sqlite_db \<Rightarrow> bool \<times> sqlite_db" where
  "cli_open db =
     (case message_store_init db of
        (False, db1) \<Rightarrow> (False, db1)
      | (True, db1) \<Rightarrow> trace_store_init db1)"

section \<open>Ingesting\<close>

definition cli_ingest ::
  "(string \<Rightarrow> 'e + message_envelope) \<Rightarrow> (message_envelope \<Rightarrow> string) \<Rightarrow> string \<Rightarrow> sqlite_db \<Rightarrow>
   message_id cli_outcome \<times> sqlite_db" where
  "cli_ingest parse enc txt db =
     (case cli_open db of
        (False, db1) \<Rightarrow> (Failed, db1)
      | (True, db1) \<Rightarrow>
          (case ingest parse (file_append enc) txt (True, db1) of
             (Inl _, file) \<Rightarrow> (Failed, snd file)
           | (Inr i, file) \<Rightarrow> (finished (Done i) file, snd file)))"

definition cli_github ::
  "(string \<Rightarrow> string) \<Rightarrow> (http_request \<Rightarrow> http_reply) \<Rightarrow> (string \<Rightarrow> string + issue_dto list) \<Rightarrow>
   (string \<Rightarrow> string + comment_dto list) \<Rightarrow> (message_envelope \<Rightarrow> string) \<Rightarrow> (string \<Rightarrow> string option) \<Rightarrow>
   run_settings \<Rightarrow> string \<Rightarrow> sqlite_db \<Rightarrow> message_id list cli_outcome \<times> sqlite_db" where
  "cli_github dbg http dec_issues dec_comments enc env rs spec db =
     (case cli_open db of
        (False, db1) \<Rightarrow> (Failed, db1)
      | (True, db1) \<Rightarrow>
          (let src = fst (rest_source_new (run_github_base_url rs) (env ''GITHUB_TOKEN'')) in
           case github_ingest_rest dbg http dec_issues dec_comments (file_append enc) src spec (True, db1) of
             (Inl _, file) \<Rightarrow> (Failed, snd file)
           | (Inr is, file) \<Rightarrow> (finished (Done is) file, snd file)))"

section \<open>Replay, warm-up, verification\<close>

text \<open>
  What the three share: the strategy, the cache and the derivation version, opened in this order
  on the file.
\<close>

definition open_derivation ::
  "'s externals \<Rightarrow> run_settings \<Rightarrow> sqlite_db \<Rightarrow>
   ((sqlite_db \<times> 's) replay_strategy \<times> step_version) option \<times> sqlite_db" where
  "open_derivation ex rs db =
     (case build_strategy ex (run_provider rs) (run_llm rs) (run_strategy rs) db of
        Inl _ \<Rightarrow> (None, db)
      | Inr (strategy, db1) \<Rightarrow>
          (case derived_cache_init db1 of
             (False, db2) \<Rightarrow> (None, db2)
           | (True, db2) \<Rightarrow>
               (case derivation_version_for ex (run_strategy rs) (run_provider rs) (run_llm rs) db2 of
                  None \<Rightarrow> (None, db2)
                | Some (version, db3) \<Rightarrow> (Some (strategy, version), db3))))"

definition exit_unprojected :: "message_id list \<Rightarrow> 'a \<Rightarrow> 'a cli_outcome" where
  "exit_unprojected missing out =
     (case fail_if_unprojected missing of Inl _ \<Rightarrow> DoneWithError out | Inr _ \<Rightarrow> Done out)"

text \<open>
  The strategy runs on the file first; \<open>commands::replay\<close> then gets its stores and writes the
  cache on the file the strategy left.
\<close>

definition cli_replay ::
  "'s externals \<Rightarrow> (string \<Rightarrow> message_envelope option) \<Rightarrow> run_settings \<Rightarrow> (nat \<Rightarrow> deliveries) \<Rightarrow>
   sqlite_db \<times> 's \<Rightarrow> replay_output cli_outcome \<times> (sqlite_db \<times> 's)" where
  "cli_replay ex dec rs d st =
     (case cli_open (fst st) of
        (False, db1) \<Rightarrow> (Failed, (db1, snd st))
      | (True, db1) \<Rightarrow>
     (case open_derivation ex rs db1 of
        (None, db2) \<Rightarrow> (Failed, (db2, snd st))
      | (Some (strategy, version), db2) \<Rightarrow>
     (case sqlite_all dec db2 of
        None \<Rightarrow> (Panicked, (db2, snd st))
      | Some all \<Rightarrow>
          (let (stores, (db3, s3)) = strategy d all (db2, snd st);
               (out, (file, s4)) = replay_command (file_put (ex_enc_derivation ex)) file_reclaim (ex_hasher ex)
                 (\<lambda>_ _ s. (stores, s)) d version (run_router rs) all ((True, db3), s3) in
           (finished (exit_unprojected (ro_unprojected out) out) file, (snd file, s4))))))"

definition cli_warmup ::
  "'s externals \<Rightarrow> (string \<Rightarrow> message_envelope option) \<Rightarrow> json_extract \<Rightarrow> run_settings \<Rightarrow> (nat \<Rightarrow> deliveries) \<Rightarrow>
   conversation_id \<Rightarrow> sqlite_db \<times> 's \<Rightarrow> warmup_output cli_outcome \<times> (sqlite_db \<times> 's)" where
  "cli_warmup ex dec jget rs d c st =
     (case cli_open (fst st) of
        (False, db1) \<Rightarrow> (Failed, (db1, snd st))
      | (True, db1) \<Rightarrow>
     (case open_derivation ex rs db1 of
        (None, db2) \<Rightarrow> (Failed, (db2, snd st))
      | (Some (strategy, version), db2) \<Rightarrow>
     (case sqlite_messages_for dec jget db2 c of
        None \<Rightarrow> (Panicked, (db2, snd st))
      | Some messages \<Rightarrow>
     (case sqlite_derived_get (ex_dec_derivation ex) db2 version c (content_hash_of (ex_hasher ex) messages) of
        None \<Rightarrow> (Panicked, (db2, snd st))
      | Some hit \<Rightarrow>
     (case sqlite_all dec db2 of
        None \<Rightarrow> (Panicked, (db2, snd st))
      | Some all \<Rightarrow>
          (let (stores, (db3, s3)) = (case hit of Some _ \<Rightarrow> (empty_stores, (db2, snd st))
                                               | None \<Rightarrow> strategy d all (db2, snd st));
               (out, (file, s4)) = warmup_command (\<lambda>_ _ _ _. hit) (file_put (ex_enc_derivation ex)) file_reclaim
                 (ex_hasher ex) (\<lambda>_ _ s. (stores, s)) d version (run_router rs) all c ((True, db3), s3) in
           (finished (exit_unprojected (wo_unprojected out) out) file, (snd file, s4))))))))"

text \<open>Every read of the durable cache may panic; \<open>stored\<close> is what a successful one returns.\<close>

definition cli_verify ::
  "'s externals \<Rightarrow> (string \<Rightarrow> message_envelope option) \<Rightarrow> run_settings \<Rightarrow> (nat \<Rightarrow> deliveries) \<Rightarrow>
   conversation_id option \<Rightarrow> sqlite_db \<times> 's \<Rightarrow> verify_record list cli_outcome \<times> (sqlite_db \<times> 's)" where
  "cli_verify ex dec rs d wanted st =
     (case cli_open (fst st) of
        (False, db1) \<Rightarrow> (Failed, (db1, snd st))
      | (True, db0) \<Rightarrow>
     (case message_store_init db0 of
        (False, db1) \<Rightarrow> (Failed, (db1, snd st))
      | (True, db1) \<Rightarrow>
     (case open_derivation ex rs db1 of
        (None, db2) \<Rightarrow> (Failed, (db2, snd st))
      | (Some (strategy, version), db2) \<Rightarrow>
     (case sqlite_all dec db2 of
        None \<Rightarrow> (Panicked, (db2, snd st))
      | Some all \<Rightarrow>
          (let (stores, (db3, s3)) = strategy d all (db2, snd st);
               stored = sqlite_derived_get (ex_dec_derivation ex) db3;
               (records, (_, s4)) = verify_command (\<lambda>_ v c x. case stored v c x of Some r \<Rightarrow> r | None \<Rightarrow> None)
                 (ex_hasher ex) (\<lambda>_ _ s. (stores, s)) d version all (db3, s3);
               shown = (case wanted of None \<Rightarrow> records | Some c \<Rightarrow> filter (\<lambda>r. vr_conversation r = c) records);
               diverged = length (filter (\<lambda>r. vr_outcome r = ''diverged'') shown) in
           if \<exists>r\<in>set records. stored version (vr_conversation r) (content_hash (ex_hasher ex) all (vr_conversation r)) = None
           then (Panicked, (db3, s4))
           else ((if diverged > 0 then DoneWithError shown else Done shown), (db3, s4)))))))"

section \<open>Inspection\<close>

definition cli_inspect ::
  "'s externals \<Rightarrow> (string \<Rightarrow> message_envelope option) \<Rightarrow> (string \<Rightarrow> routing_trace option) \<Rightarrow> run_settings \<Rightarrow>
   64 word \<Rightarrow> message_id \<Rightarrow> sqlite_db \<times> 's \<Rightarrow> inspect_context option cli_outcome \<times> (sqlite_db \<times> 's)" where
  "cli_inspect ex dec dec_trace rs cap i st =
     (case cli_open (fst st) of
        (False, db1) \<Rightarrow> (Failed, (db1, snd st))
      | (True, db1) \<Rightarrow>
     (case sqlite_get dec db1 i of
        None \<Rightarrow> (Panicked, (db1, snd st))
      | Some None \<Rightarrow> (Done None, (db1, snd st))
      | Some (Some message) \<Rightarrow>
     (case projector_for ex (run_provider rs) (run_llm rs) db1 of
        None \<Rightarrow> (Failed, (db1, snd st))
      | Some (projector, db2) \<Rightarrow>
     (case sqlite_trace_get dec_trace \<lparr>ts_db = db2, ts_max = Some cap\<rparr> i of
        None \<Rightarrow> (Panicked, snd (st_run projector (db2, snd st) message))
      | Some trace \<Rightarrow>
     (case inspect_command (\<lambda>_. Some message) (\<lambda>_. trace) projector (run_router rs) i (db2, snd st) of
        (None, st') \<Rightarrow> (Panicked, st')
      | (Some context, st') \<Rightarrow> (Done context, st'))))))"

section \<open>Working the queue\<close>

text \<open>
  One job of the strategy-run lane on the file. The cache recovers from a poisoned lock, so a
  panic ends the job and not the worker.
\<close>

definition work_run ::
  "'s externals \<Rightarrow> (string \<Rightarrow> string) \<Rightarrow> (string \<Rightarrow> message_envelope option) \<Rightarrow>
   (sqlite_db \<times> 's) strategy_context \<Rightarrow> (nat \<Rightarrow> deliveries) \<Rightarrow> (sqlite_db \<times> 's, strategy_run_request) handler" where
  "work_run ex dbg dec ctx d st request =
     (case strategy_build strategy_builtins (srun_strategy request) ctx of
        Inl e \<Rightarrow> (HErr (unknown_strategy_display dbg e), st)
      | Inr strategy \<Rightarrow>
     (case sqlite_all dec (fst st) of
        None \<Rightarrow> (HPanic, st)
      | Some all \<Rightarrow>
          (let (stores, st1) = strategy d all st;
               (r, (file, st2)) = strategy_run dbg (file_put (ex_enc_derivation ex)) file_reclaim (ex_hasher ex) all all
                 ctx [(srun_strategy request, \<lambda>_ _ _ s. (stores, s))] d ((True, fst st1), st1) request in
           ((if fst file then r else HPanic), (snd file, snd st2)))))"

text \<open>
  \<open>reached\<close> is whether the broker could be reached, \<open>jobs\<close> the jobs it handed out until it was
  idle, redeliveries included, each with the deliveries of its own in-process stages, and \<open>ended\<close>
  whether the worker stopped without an error of its own.
\<close>

definition cli_work ::
  "'s externals \<Rightarrow> (string \<Rightarrow> string) \<Rightarrow> (string \<Rightarrow> message_envelope option) \<Rightarrow> run_settings \<Rightarrow> bool \<Rightarrow>
   (strategy_run_request \<times> (nat \<Rightarrow> deliveries)) list \<Rightarrow> bool \<Rightarrow> sqlite_db \<times> 's \<Rightarrow>
   handler_result list cli_outcome \<times> (sqlite_db \<times> 's)" where
  "cli_work ex dbg dec rs reached jobs ended st =
     (case cli_open (fst st) of
        (False, db1) \<Rightarrow> (Failed, (db1, snd st))
      | (True, db0) \<Rightarrow>
     (if \<not> reached then (Failed, (db0, snd st)) else
     (case message_store_init db0 of
        (False, db1) \<Rightarrow> (Failed, (db1, snd st))
      | (True, db1) \<Rightarrow>
     (case strategy_context_for ex (run_provider rs) (run_llm rs) db1 of
        None \<Rightarrow> (Failed, (db1, snd st))
      | Some (ctx, db2) \<Rightarrow>
     (case derived_cache_init db2 of
        (False, db3) \<Rightarrow> (Failed, (db3, snd st))
      | (True, db3) \<Rightarrow>
          (let (results, st') = fold (\<lambda>(request, d) (results, st).
                 let (r, st') = work_run ex dbg dec ctx d st request in (results @ [r], st'))
               jobs ([], (db3, snd st)) in
           ((if ended then Done results else Failed), st')))))))"

section \<open>Opening the file\<close>

text \<open>
  After the log has been opened the file's version is at least two. Every other store sees it
  and takes its own single step for done.
\<close>

lemma cli_open_eq:
  assumes "0 \<le> db_user_version db" and "cli_open db = (True, db')"
  shows "message_store_init db = (True, db')" and "2 \<le> db_user_version db'"
    and "db_derived db' = db_derived db" and "db_projections db' = db_projections db"
    and "db_traces db' = db_traces db"
proof -
  obtain db1 where db1: "message_store_init db = (True, db1)" "trace_store_init db1 = (True, db')"
    using assms(2) by (auto simp: cli_open_def split: prod.splits bool.splits)
  have "db_user_version db1 = max (db_user_version db) 2"
    using migrate_version [OF assms(1) db1(1) [unfolded message_store_init_def]]
    by (simp add: length_message_steps)
  then have v: "2 \<le> db_user_version db1" by simp
  then have "trace_store_init db1 = (True, db1)"
    unfolding trace_store_init_def by (intro single_step_skipped) simp
  then have "db' = db1" using db1(2) by simp
  then show "message_store_init db = (True, db')" and "2 \<le> db_user_version db'"
    and "db_derived db' = db_derived db" and "db_projections db' = db_projections db"
    and "db_traces db' = db_traces db"
    using db1(1) v message_store_init_frame [OF db1(1)] by simp_all
qed

lemma versioned_skips:
  assumes "2 \<le> db_user_version db"
  shows "cli_open db = (True, db)" and "message_store_init db = (True, db)"
    and "derived_cache_init db = (True, db)" and "projection_cache_init db = (True, db)"
    and "trace_store_init db = (True, db)"
  using assms message_store_init_done [OF assms]
  by (simp_all add: cli_open_def derived_cache_init_def projection_cache_init_def trace_store_init_def
      single_step_skipped)

text \<open>So on a file that has only ever been used by the CLI their tables do not exist.\<close>

lemma cli_open_missing_tables:
  assumes "0 \<le> db_user_version db" and "cli_open db = (True, db')"
    and "db_derived db = None" and "db_projections db = None" and "db_traces db = None"
  shows "sqlite_derived_get dec (snd (derived_cache_init db')) v c x = None"
    and "sqlite_derived_put enc (snd (derived_cache_init db')) v c x der = None"
    and "sqlite_projection_get pdec (snd (projection_cache_init db')) k v x = None"
    and "sqlite_projection_put penc (snd (projection_cache_init db')) k v x p = None"
    and "\<exists>s. trace_store_open db' = Some s \<and> sqlite_trace_upsert tenc s t = None \<and> sqlite_trace_get tdec s i = None"
  using versioned_skips [OF cli_open_eq(2) [OF assms(1,2)]] cli_open_eq(3-5) [OF assms(1,2)] assms(3-5)
  by (simp_all add: sqlite_derived_get_def sqlite_derived_put_def sqlite_projection_get_def
      sqlite_projection_put_def trace_store_open_def sqlite_trace_upsert_def sqlite_trace_get_def)

section \<open>The durable projector\<close>

text \<open>On a sound table the projector over the file is the decorator over the port.\<close>

lemma durable_cached_run_eq:
  assumes "sqlite_projections_ok dec (fst st)"
    and "storable_answers (\<lambda>p. dec (enc p) = Some p) inner"
  shows "durable_cached_run enc dec key inner version st m =
    cached_run (\<lambda>db k v x. the (sqlite_projection_get dec db k v x))
      (\<lambda>db k v x p. the (sqlite_projection_put enc db k v x p)) key inner version st m"
proof -
  obtain db s where st: "st = (db, s)" by (metis prod.collapse)
  have ok: "sqlite_projections_ok dec db" using assms(1) st by simp
  obtain g where g: "sqlite_projection_get dec db (st_kind inner) version (key m) = Some g"
    using sqlite_projection_get_total [OF ok] by blast
  obtain r s' where run: "st_run inner s m = (r, s')" by (metis prod.collapse)
  show ?thesis
  proof (cases r)
    case None
    with g run st show ?thesis by (auto simp: durable_cached_run_def cached_run_def Let_def split: option.split)
  next
    case (Some p)
    have "dec (enc p) = Some p" by (rule storable_answersD [OF assms(2)]) (use run Some in blast)
    then obtain db' where "sqlite_projection_put enc db (st_kind inner) version (key m) p = Some db'"
      using sqlite_projection_put_lookup [where dec = dec and enc = enc, OF ok,
          of p "st_kind inner" version "key m"] by metis
    with g run st Some show ?thesis
      by (auto simp: durable_cached_run_def cached_run_def Let_def split: option.split)
  qed
qed

text \<open>Without its table every call panics, before the model is asked: nothing is projected.\<close>

lemma durable_cached_run_missing:
  assumes "db_projections (fst st) = None"
  shows "durable_cached_run enc dec key inner version st m = (None, st)"
  using assms by (simp add: durable_cached_run_def sqlite_projection_get_def Let_def)

text \<open>Where the tables are missing, no provider's projector changes the file.\<close>

lemma projector_for_versioned:
  assumes "2 \<le> db_user_version db" and "db_projections db = None"
  obtains projector where "projector_for ex provider llm db = Some (projector, db)"
    and "\<And>s m. fst (snd (st_run projector (db, s) m)) = db"
proof (cases "llm_projector_for ex provider llm")
  case None
  then show thesis
    using that [of "mock_step (ex_lower ex)"] by (simp add: projector_for_def mock_step_def)
next
  case (Some lp)
  let ?v = "StepVersion (cache_version (ex_hasher ex) lp)"
  have "projector_for ex provider llm db = Some (\<lparr>st_kind = ''mirrorlane.projection.cached'', st_version = ?v,
      st_run = durable_cached_run (ex_enc_projection ex) (ex_dec_projection ex)
        (message_cache_key (ex_hasher ex)) (llm_step (ex_hasher ex) (ex_dec_dto ex) lp) ?v\<rparr>, db)"
    using Some versioned_skips(4) [OF assms(1)] assms(2)
    by (simp add: projector_for_def Let_def sqlite_projection_prune_def)
  then show thesis
    by (rule that) (simp add: durable_cached_run_missing assms(2))
qed

section \<open>Filling the cache of a file\<close>

lemma populate_dead:
  "snd (populate_loop (file_put enc) file_reclaim hasher stores v groups cs (False, db)) = (False, db)"
  by (induction cs)
    (simp_all add: Let_def file_put_def file_reclaim_def case_prod_unfold split: option.split)

lemma populate_panics:
  assumes "db_derived db = None" and "c \<in> set cs"
    and "derivation_from_messages stores c (or_empty (groups c)) \<noteq> None"
  shows "snd (populate_loop (file_put enc) file_reclaim hasher stores v groups cs (True, db)) = (False, db)"
  using assms(2,3)
proof (induction cs)
  case (Cons c' cs)
  show ?case
  proof (cases "derivation_from_messages stores c' (or_empty (groups c'))")
    case None
    with Cons show ?thesis by (auto simp: Let_def)
  next
    case (Some x)
    have "file_put enc (True, db) v c' content x = (False, db)" for content
      by (simp add: file_put_def sqlite_derived_put_def assms(1))
    moreover have "file_reclaim (False, db) c' v content = (False, db)" for content
      by (simp add: file_reclaim_def)
    ultimately show ?thesis
      using Some by (simp add: Let_def populate_dead case_prod_unfold)
  qed
qed simp

text \<open>Without the table the pass leaves the file as it was, panic or not.\<close>

lemma populate_missing_file:
  assumes "db_derived db = None"
  shows "snd (snd (populate_loop (file_put enc) file_reclaim hasher stores v groups cs (True, db))) = db"
proof (induction cs)
  case (Cons c cs)
  have "file_put enc (True, db) v c content x = (False, db)" for content x
    by (simp add: file_put_def sqlite_derived_put_def assms)
  moreover have "file_reclaim (False, db) c v content = (False, db)" for content
    by (simp add: file_reclaim_def)
  ultimately show ?case
    using Cons by (simp add: Let_def populate_dead case_prod_unfold split: option.split)
qed simp

text \<open>On a sound table nothing panics, and the pass is the one of the port's contract.\<close>

lemma populate_no_panic:
  assumes "sqlite_derived_ok dec db" and "sqlite_reading.reads_run dec enc returned stores groups"
  shows "populate_loop (file_put enc) file_reclaim hasher stores v groups cs (True, db) =
    (fst (populate_loop (\<lambda>db v c x d. the (sqlite_derived_put enc db v c x d)) sqlite_derived_reclaim
       hasher stores v groups cs db),
     (True, snd (populate_loop (\<lambda>db v c x d. the (sqlite_derived_put enc db v c x d)) sqlite_derived_reclaim
       hasher stores v groups cs db)))"
  using assms(1)
proof (induction cs arbitrary: db)
  case (Cons c cs)
  show ?case
  proof (cases "derivation_from_messages stores c (or_empty (groups c))")
    case None
    with Cons show ?thesis by (simp add: Let_def)
  next
    case (Some x)
    let ?x = "content_hash_of hasher (or_empty (groups c))"
    have "dec (enc x) = Some (returned x)" using assms(2) Some by (auto simp: sqlite_reading.reads_run_def)
    then obtain db' where db': "sqlite_derived_put enc db v c ?x x = Some db'" "sqlite_derived_ok dec db'"
      using sqlite_derived_put_lookup [where dec = dec and enc = enc, OF Cons.prems, of x "returned x" v c ?x] by metis
    have "sqlite_derived_ok dec (sqlite_derived_reclaim db' c v ?x)"
      by (rule sqlite_derived_reclaim_lookup(1) [OF db'(2)])
    from Cons.IH [OF this] Some db'(1) show ?thesis
      by (simp add: Let_def file_put_def file_reclaim_def case_prod_unfold)
  qed
qed simp

section \<open>Replay on one file\<close>

lemma strategy_context_mock:
  "strategy_context_for ex ProviderMock llm db =
    Some (reference_context (ex_lower ex) (mock_step (ex_lower ex)), db)"
  by (simp add: strategy_context_for_def projector_for_def llm_projector_for_def reference_context_def)

lemma build_strategy_mock:
  "build_strategy ex ProviderMock llm ''projection'' db =
    Inr (replay_run (reference_context (ex_lower ex) (mock_step (ex_lower ex))), db)"
  by (simp add: build_strategy_def strategy_context_mock strategy_build_builtins)

lemma derivation_version_mock:
  "derivation_version_for ex i ProviderMock llm db =
    Some (derivation_version i (StepVersion ''mock:v1''), db)"
  by (simp add: derivation_version_for_def projector_for_def llm_projector_for_def mock_step_def)

definition mock_stores :: "(string \<Rightarrow> string) \<Rightarrow> message_envelope list \<Rightarrow> replay_stores" where
  "mock_stores lc ms =
     phases_spec (reference_context lc (mock_step lc :: (unit, message_envelope, projection) step)) ms
       (projections_of (mock_run lc) ms)"

lemma phases_spec_reference:
  "phases_spec (reference_context lc (p :: ('s, message_envelope, projection) step)) =
    phases_spec (reference_context lc (q :: ('t, message_envelope, projection) step))"
  by (intro ext) (simp add: phases_spec_def reference_context_def)

lemma mock_replay:
  fixes s :: 's
  assumes "\<forall>k. at_least_once (d k)" and "log_wf ms"
  shows "replay_run (reference_context lc (mock_step lc)) d ms s = (mock_stores lc ms, s)"
proof -
  have "answers (ctx_projector (reference_context lc (mock_step lc))) s (mock_run lc) ms"
    using mock_answers by (simp add: reference_context_def)
  moreover have "phases_spec (reference_context lc (mock_step lc :: ('s, message_envelope, projection) step)) =
      phases_spec (reference_context lc (mock_step lc :: (unit, message_envelope, projection) step))"
    by (rule phases_spec_reference)
  ultimately show ?thesis
    using reference.replay_eq [OF assms, of lc "mock_step lc" s] unfolding mock_stores_def by metis
qed

lemma mock_stores_derivation:
  "c \<in> set (conversations ms) \<Longrightarrow> derivation_for ms (mock_stores lc ms) c \<noteq> None"
  using spec_derivation unfolding mock_stores_def by blast

lemma mock_unprojected:
  assumes "log_wf ms"
  shows "unprojected (mock_stores lc ms) (map env_id ms) = []"
proof -
  have "dom (rs_projections (mock_stores lc ms)) = env_id ` set ms"
    unfolding mock_stores_def by (rule reference.spec_accounts(1) [OF assms]) simp
  then show ?thesis by (force simp: unprojected_def filter_empty_conv projection_store_get_def)
qed

end
