(* ===== verification/Session.thy ===== *)
theory Session
  imports Main Prelude F64 Runtime Model MessageLog Stores Skill HintDev Routing Mock ScopeWarmup
    Derivation Jobs Replay Derived Submission Sqlite SqliteLog SqliteCaches Github Llm Commands Cli CliRun
begin

text \<open>
  Sequences of commands on one database file. A step is any one command of the binary, with any
  arguments and any answers of the services; the files reached from a fresh one are those an
  operator can have. The invariants say what their log holds, and that the cache and trace tables
  are never created on them.
\<close>

section \<open>Commands on a file without the cache tables\<close>

definition bare :: "sqlite_db \<Rightarrow> bool" where
  "bare db \<longleftrightarrow> db_derived db = None \<and> db_projections db = None \<and> db_traces db = None"

lemma bareD: "bare db \<Longrightarrow> db_derived db = None" "bare db \<Longrightarrow> db_projections db = None"
    "bare db \<Longrightarrow> db_traces db = None"
  by (simp_all add: bare_def)

lemma cli_open_bare:
  assumes "0 \<le> db_user_version db" and "cli_open db = (True, db')" and "bare db"
  shows "bare db'" and "2 \<le> db_user_version db'"
  using cli_open_eq [OF assms(1,2)] assms(3) by (simp_all add: bare_def)

text \<open>
  The projector there is either the mock, which answers and keeps no state, or a cached one that
  panics on every message.
\<close>

lemma projector_for_bare:
  fixes ex :: "'s externals"
  assumes "2 \<le> db_user_version db" and "bare db"
  obtains projector where "projector_for ex provider llm db = Some (projector, db)"
    and "\<And>s. answers projector (db, s) (mock_run (ex_lower ex)) ms \<or>
      (\<forall>m. st_run projector (db, s) m = (None, (db, s)))"
    and "\<And>s m. snd (st_run projector (db, s) m) = (db, s)"
proof (cases "llm_projector_for ex provider llm")
  case None
  show thesis
  proof (rule that [of "mock_step (ex_lower ex)"])
    show "projector_for ex provider llm db = Some (mock_step (ex_lower ex), db)"
      using None by (simp add: projector_for_def)
    show "answers (mock_step (ex_lower ex)) (db, s) (mock_run (ex_lower ex)) ms \<or>
      (\<forall>m. st_run (mock_step (ex_lower ex)) (db, s) m = (None, (db, s)))" for s :: 's
      by (rule disjI1) (rule mock_answers)
  qed (simp add: mock_step_def)
next
  case (Some lp)
  let ?v = "StepVersion (cache_version (ex_hasher ex) lp)"
  let ?p = "\<lparr>st_kind = ''mirrorlane.projection.cached'', st_version = ?v,
      st_run = durable_cached_run (ex_enc_projection ex) (ex_dec_projection ex)
        (message_cache_key (ex_hasher ex)) (llm_step (ex_hasher ex) (ex_dec_dto ex) lp) ?v\<rparr>"
  show thesis
  proof (rule that [of ?p])
    show "projector_for ex provider llm db = Some (?p, db)"
      using Some versioned_skips(4) [OF assms(1)] bareD(2) [OF assms(2)]
      by (simp add: projector_for_def Let_def sqlite_projection_prune_def)
  qed (simp_all add: durable_cached_run_missing bareD(2) [OF assms(2)])
qed

text \<open>A replay over a projector that keeps its state keeps it.\<close>

lemma replay_keeps_state:
  assumes "\<And>m. snd (st_run (ctx_projector ctx) s m) = s"
  shows "snd (replay_run ctx d ms s) = s"
proof -
  have "snd (fold (\<lambda>m st. snd (process_message_run (ctx_projector ctx) st m)) ns (P, s)) = s" for ns P
  proof (induction ns arbitrary: P)
    case (Cons n ns)
    obtain r where r: "st_run (ctx_projector ctx) s n = (r, s)" using assms by (metis prod.collapse)
    then show ?case using Cons by (cases r) (simp_all add: process_message_run_def)
  qed simp
  then show ?thesis
    by (simp add: replay_run_def run_stage_delivered case_prod_unfold)
qed

text \<open>Whether the projector answers or panics, every conversation gets its derivation.\<close>

lemma replay_silent:
  assumes "\<forall>k. at_least_once (d k)" and "\<forall>m. st_run projector s m = (None, s)"
  shows "replay_run (reference_context lc projector) d ms s =
    (phases_spec (reference_context lc projector) ms Map.empty, s)"
proof -
  have "fold (\<lambda>m st. snd (process_message_run projector st m)) ns (P, s) = (P, s)" for ns P
    by (induction ns) (simp_all add: process_message_run_def assms(2))
  then have one: "run_stage (d 1) (process_message_run projector) ms (Map.empty, s) = (Map.empty, s)"
    by (simp add: run_stage_delivered)
  have "ctx_projector (reference_context lc projector) = projector" by (simp add: reference_context_def)
  with one show ?thesis
    using reference.phases_eq [OF assms(1), of Map.empty ms lc projector]
    by (simp add: replay_run_def per_message_def store_new_def projections_sound_def)
qed

lemma replay_derives:
  assumes "\<forall>k. at_least_once (d k)" and "log_wf ms"
    and "answers projector s f ms \<or> (\<forall>m. st_run projector s m = (None, s))"
    and "c \<in> set (conversations ms)"
  shows "derivation_for ms (fst (replay_run (reference_context lc projector) d ms s)) c \<noteq> None"
proof -
  have "\<exists>P. fst (replay_run (reference_context lc projector) d ms s) =
      phases_spec (reference_context lc projector) ms P"
    using assms(3)
  proof
    assume "answers projector s f ms"
    then have "answers (ctx_projector (reference_context lc projector)) s f ms"
      by (simp add: reference_context_def)
    from reference.replay_eq [OF assms(1,2) this] show ?thesis by auto
  next
    assume "\<forall>m. st_run projector s m = (None, s)"
    from replay_silent [OF assms(1) this] show ?thesis by auto
  qed
  then show ?thesis using spec_derivation [OF assms(4)] by fastforce
qed

section \<open>Opening the strategy there\<close>

lemma strategy_context_bare:
  assumes "projector_for ex provider llm db = Some (projector, db')"
  shows "strategy_context_for ex provider llm db = Some (reference_context (ex_lower ex) projector, db')"
  by (simp add: strategy_context_for_def assms reference_context_def)

lemma open_derivation_bare:
  fixes ex :: "'s externals"
  assumes "2 \<le> db_user_version db" and "bare db"
  obtains (unknown) "open_derivation ex rs db = (None, db)"
      and "run_strategy rs \<notin> {''projection'', ''empty''}"
  | (opened) strategy version where "open_derivation ex rs db = (Some (strategy, version), db)"
      and "\<And>d s. snd (strategy d ms (db, s)) = (db, s)"
      and "\<And>d s c. run_strategy rs = ''projection'' \<Longrightarrow> \<forall>k. at_least_once (d k) \<Longrightarrow> log_wf ms \<Longrightarrow>
        c \<in> set (conversations ms) \<Longrightarrow> derivation_for ms (fst (strategy d ms (db, s))) c \<noteq> None"
proof -
  obtain projector where p: "projector_for ex (run_provider rs) (run_llm rs) db = Some (projector, db)"
    and answers: "\<And>s. answers projector (db, s) (mock_run (ex_lower ex)) ms \<or>
      (\<forall>m. st_run projector (db, s) m = (None, (db, s)))"
    and keeps: "\<And>s m. snd (st_run projector (db, s) m) = (db, s)"
    by (rule projector_for_bare [OF assms, of ex "run_provider rs" "run_llm rs" ms]) blast
  let ?ctx = "reference_context (ex_lower ex) projector"
  have build: "build_strategy ex (run_provider rs) (run_llm rs) (run_strategy rs) db =
      (case strategy_build strategy_builtins (run_strategy rs) ?ctx of
         Inl e \<Rightarrow> Inl (StrategyError e) | Inr strategy \<Rightarrow> Inr (strategy, db))"
    by (simp add: build_strategy_def strategy_context_bare [OF p])
  have version: "derivation_version_for ex (run_strategy rs) (run_provider rs) (run_llm rs) db =
      Some (derivation_version (run_strategy rs) (st_version projector), db)"
    by (simp add: derivation_version_for_def p)
  have opens: "open_derivation ex rs db =
      (case strategy_build strategy_builtins (run_strategy rs) ?ctx of
         Inl e \<Rightarrow> (None, db)
       | Inr strategy \<Rightarrow>
           (Some (strategy, derivation_version (run_strategy rs) (st_version projector)), db))"
    unfolding open_derivation_def build
    by (simp add: versioned_skips(3) [OF assms(1)] version split: sum.split)
  consider (projection) "run_strategy rs = ''projection''" | (empty) "run_strategy rs = ''empty''"
    | (other) "run_strategy rs \<notin> {''projection'', ''empty''}" by auto
  then show thesis
  proof cases
    case projection
    show thesis
    proof (rule opened)
      show "open_derivation ex rs db = (Some (replay_run ?ctx,
          derivation_version (run_strategy rs) (st_version projector)), db)"
        unfolding opens strategy_build_builtins using projection by simp
      show "snd (replay_run ?ctx d ms (db, s)) = (db, s)" for d s
        by (rule replay_keeps_state) (simp add: reference_context_def keeps)
      show "derivation_for ms (fst (replay_run ?ctx d ms (db, s))) c \<noteq> None"
        if "\<forall>k. at_least_once (d k)" "log_wf ms" "c \<in> set (conversations ms)" for d s c
        by (rule replay_derives [OF that(1,2) answers that(3)])
    qed
  next
    case empty
    show thesis
    proof (rule opened)
      show "open_derivation ex rs db = (Some (empty_strategy,
          derivation_version (run_strategy rs) (st_version projector)), db)"
        unfolding opens strategy_build_builtins using empty by simp
    qed (use empty in \<open>simp_all add: empty_strategy_def\<close>)
  next
    case other
    then have "open_derivation ex rs db = (None, db)"
      unfolding opens strategy_build_builtins by simp
    then show thesis using other by (rule unknown)
  qed
qed

section \<open>The commands there\<close>

text \<open>
  Whatever the command, its arguments and the model's answers, the file is left as it was opened.
\<close>

lemma cli_replay_bare:
  assumes "0 \<le> db_user_version db" and "cli_open db = (True, db')" and "bare db"
  shows "fst (snd (cli_replay ex dec rs d (db, s))) = db'"
proof (cases "sqlite_all dec db'")
  case None
  note bare = cli_open_bare [OF assms]
  show ?thesis
    by (rule open_derivation_bare [OF bare(2,1), where ex = ex and rs = rs])
      (simp_all add: cli_replay_def assms(2) None)
next
  case (Some ms)
  note bare = cli_open_bare [OF assms]
  show ?thesis
  proof (rule open_derivation_bare [OF bare(2,1), where ex = ex and rs = rs and ms = ms])
    assume "open_derivation ex rs db' = (None, db')"
    then show ?thesis by (simp add: cli_replay_def assms(2))
  next
    fix strategy :: "(sqlite_db \<times> 'a) replay_strategy" and version
    assume o: "open_derivation ex rs db' = (Some (strategy, version), db')"
      and keeps: "\<And>d s. snd (strategy d ms (db', s)) = (db', s)"
    obtain stores where run: "strategy d ms (db', s) = (stores, (db', s))"
      using keeps by (metis prod.collapse)
    show ?thesis
      by (simp add: cli_replay_def assms(2) o Some run replay_command_def Let_def case_prod_unfold
          populate_cache_eq populate_missing_file [OF bareD(1) [OF bare(1)]])
  qed
qed

lemma cli_warmup_bare:
  assumes "0 \<le> db_user_version db" and "cli_open db = (True, db')" and "bare db"
  shows "fst (snd (cli_warmup ex dec jget rs d c (db, s))) = db'"
    and "fst (cli_warmup ex dec jget rs d c (db, s)) \<in> {Failed, Panicked}"
proof -
  note bare = cli_open_bare [OF assms]
  have "fst (snd (cli_warmup ex dec jget rs d c (db, s))) = db' \<and>
      fst (cli_warmup ex dec jget rs d c (db, s)) \<in> {Failed, Panicked}"
    by (rule open_derivation_bare [OF bare(2,1), where ex = ex and rs = rs])
      (simp_all add: cli_warmup_def assms(2) sqlite_derived_get_def bareD(1) [OF bare(1)] split: option.split)
  then show "fst (snd (cli_warmup ex dec jget rs d c (db, s))) = db'"
    and "fst (cli_warmup ex dec jget rs d c (db, s)) \<in> {Failed, Panicked}" by simp_all
qed

lemma cli_verify_bare:
  assumes "0 \<le> db_user_version db" and "cli_open db = (True, db')" and "bare db"
  shows "fst (snd (cli_verify ex dec rs d wanted (db, s))) = db'"
proof (cases "sqlite_all dec db'")
  case None
  note bare = cli_open_bare [OF assms]
  show ?thesis
    by (rule open_derivation_bare [OF bare(2,1), where ex = ex and rs = rs])
      (simp_all add: cli_verify_def assms(2) None versioned_skips(2) [OF bare(2)])
next
  case (Some ms)
  note bare = cli_open_bare [OF assms]
  show ?thesis
  proof (rule open_derivation_bare [OF bare(2,1), where ex = ex and rs = rs and ms = ms])
    assume "open_derivation ex rs db' = (None, db')"
    then show ?thesis by (simp add: cli_verify_def assms(2) versioned_skips(2) [OF bare(2)])
  next
    fix strategy :: "(sqlite_db \<times> 'a) replay_strategy" and version
    assume o: "open_derivation ex rs db' = (Some (strategy, version), db')"
      and keeps: "\<And>d s. snd (strategy d ms (db', s)) = (db', s)"
    obtain stores where run: "strategy d ms (db', s) = (stores, (db', s))"
      using keeps by (metis prod.collapse)
    show ?thesis
      by (simp add: cli_verify_def assms(2) o Some run verify_command_def Let_def case_prod_unfold
          versioned_skips(2) [OF bare(2)])
  qed
qed

lemma cli_inspect_bare:
  assumes "0 \<le> db_user_version db" and "cli_open db = (True, db')" and "bare db"
  shows "fst (snd (cli_inspect ex dec dec_trace rs cap i (db, s))) = db'"
    and "sqlite_get dec db' i = Some (Some m) \<Longrightarrow>
      fst (cli_inspect ex dec dec_trace rs cap i (db, s)) = Panicked"
proof -
  note bare = cli_open_bare [OF assms]
  obtain projector where p: "projector_for ex (run_provider rs) (run_llm rs) db' = Some (projector, db')"
    and keeps: "\<And>s m. snd (st_run projector (db', s) m) = (db', s)"
    by (rule projector_for_bare [OF bare(2,1), of ex "run_provider rs" "run_llm rs" "[]"]) blast
  have eq: "cli_inspect ex dec dec_trace rs cap i (db, s) =
    (case sqlite_get dec db' i of
       None \<Rightarrow> (Panicked, (db', s)) | Some None \<Rightarrow> (Done None, (db', s))
     | Some (Some m) \<Rightarrow> (Panicked, (db', s)))"
    by (simp add: cli_inspect_def assms(2) p keeps sqlite_trace_get_def bareD(3) [OF bare(1)]
        split: option.split)
  show "fst (snd (cli_inspect ex dec dec_trace rs cap i (db, s))) = db'"
    by (simp add: eq split: option.split)
  show "fst (cli_inspect ex dec dec_trace rs cap i (db, s)) = Panicked"
    if "sqlite_get dec db' i = Some (Some m)"
    by (simp add: eq that)
qed

text \<open>And a replay of the reference strategy over a log that holds anything panics, with any provider.\<close>

lemma cli_replay_panics:
  assumes "0 \<le> db_user_version db" and "cli_open db = (True, db')" and "bare db"
    and "sqlite_all dec db' = Some ms" and "log_wf ms" and "ms \<noteq> []"
    and "run_strategy rs = ''projection''" and "\<forall>k. at_least_once (d k)"
  shows "fst (cli_replay ex dec rs d (db, s)) = Panicked"
proof -
  note bare = cli_open_bare [OF assms(1-3)]
  obtain m where "m \<in> set ms" using assms(6) by (cases ms) auto
  then have c: "conversation_of m \<in> set (default_conversation_ids ms)" by simp
  show ?thesis
  proof (rule open_derivation_bare [OF bare(2,1), where ex = ex and rs = rs and ms = ms])
    fix strategy :: "(sqlite_db \<times> 'a) replay_strategy" and version
    assume o: "open_derivation ex rs db' = (Some (strategy, version), db')"
      and keeps: "\<And>d s. snd (strategy d ms (db', s)) = (db', s)"
      and derives: "\<And>d s c. run_strategy rs = ''projection'' \<Longrightarrow> \<forall>k. at_least_once (d k) \<Longrightarrow> log_wf ms \<Longrightarrow>
        c \<in> set (conversations ms) \<Longrightarrow> derivation_for ms (fst (strategy d ms (db', s))) c \<noteq> None"
    obtain stores where run: "strategy d ms (db', s) = (stores, (db', s))"
      using keeps by (metis prod.collapse)
    have "derivation_from_messages stores (conversation_of m)
        (or_empty (Some (default_messages_for ms (conversation_of m)))) \<noteq> None"
      using derives [OF assms(7,8,5), of "conversation_of m" s] c run
      by (simp add: conversations_eq derivation_for_eq or_empty_def)
    then have "snd (populate_cache (file_put (ex_enc_derivation ex)) file_reclaim (ex_hasher ex) ms stores
        (True, db') version) = (False, db')"
      unfolding populate_cache_eq using c by (intro populate_panics [OF bareD(1) [OF bare(1)]])
    then show ?thesis
      by (simp add: cli_replay_def assms(2,4) o run replay_command_def Let_def case_prod_unfold finished_def)
  qed (simp add: assms(7))
qed

section \<open>Jobs there\<close>

lemma strategy_context_for_bare:
  fixes ex :: "'s externals"
  assumes "2 \<le> db_user_version db" and "bare db"
  obtains ctx where "strategy_context_for ex provider llm db = Some (ctx, db)"
    and "\<And>d request (s :: 's). work_run ex dbg dec ctx d (db, s) request =
      (fst (work_run ex dbg dec ctx d (db, s) request), (db, s))"
proof -
  obtain projector where p: "projector_for ex provider llm db = Some (projector, db)"
    and keeps: "\<And>s m. snd (st_run projector (db, s) m) = (db, s)"
    by (rule projector_for_bare [OF assms, of ex provider llm "[]"]) blast
  let ?ctx = "reference_context (ex_lower ex) projector"
  have run: "strategy d ms (db, s) = (fst (strategy d ms (db, s)), (db, s))"
    if "strategy_build strategy_builtins i ?ctx = Inr strategy" for i strategy d ms s
  proof -
    have "strategy = replay_run ?ctx \<or> strategy = empty_strategy"
      using that by (auto simp: strategy_build_builtins split: if_splits)
    moreover have "snd (replay_run ?ctx d ms (db, s)) = (db, s)"
      by (rule replay_keeps_state) (simp add: reference_context_def keeps)
    ultimately have "snd (strategy d ms (db, s)) = (db, s)" by (auto simp: empty_strategy_def)
    then show ?thesis by (metis prod.collapse)
  qed
  have left: "snd (snd (populate_cache (file_put enc) file_reclaim hasher ms stores (True, db) v)) = db"
    for enc hasher ms stores v
    unfolding populate_cache_eq by (rule populate_missing_file [OF bareD(1) [OF assms(2)]])
  have keep: "snd (work_run ex dbg dec ?ctx d (db, s) request) = (db, s)" for d request and s :: 's
  proof (cases "strategy_build strategy_builtins (srun_strategy request) ?ctx")
    case (Inr strategy)
    show ?thesis
    proof (cases "sqlite_all dec db")
      case (Some ms)
      obtain stores where "strategy d ms (db, s) = (stores, (db, s))" using run [OF Inr] by metis
      with Inr Some show ?thesis
        by (simp add: work_run_def strategy_run_def strategy_build_def Let_def case_prod_unfold left)
    qed (simp add: work_run_def Inr)
  qed (simp add: work_run_def)
  show thesis
  proof (rule that [of ?ctx])
    show "work_run ex dbg dec ?ctx d (db, s) request =
        (fst (work_run ex dbg dec ?ctx d (db, s) request), (db, s))" for d request and s :: 's
      using keep by (metis prod.collapse)
  qed (simp add: strategy_context_for_def p reference_context_def)
qed

lemma cli_work_bare:
  assumes "0 \<le> db_user_version db" and "cli_open db = (True, db')" and "bare db"
  shows "fst (snd (cli_work ex dbg dec rs reached jobs ended (db, s))) = db'"
proof -
  note bare = cli_open_bare [OF assms]
  obtain ctx where ctx: "strategy_context_for ex (run_provider rs) (run_llm rs) db' = Some (ctx, db')"
    and keep: "\<And>d request s. work_run ex dbg dec ctx d (db', s) request =
      (fst (work_run ex dbg dec ctx d (db', s) request), (db', s))"
    by (rule strategy_context_for_bare [OF bare(2,1), of ex "run_provider rs" "run_llm rs" dbg dec]) blast
  let ?step = "\<lambda>(request, d) (results, st). let (r, st') = work_run ex dbg dec ctx d st request in (results @ [r], st')"
  have "snd (fold ?step jobs (results, (db', s))) = (db', s)" for results
  proof (induction jobs arbitrary: results)
    case (Cons j js)
    obtain request d where j: "j = (request, d)" by (metis prod.collapse)
    obtain r where "work_run ex dbg dec ctx d (db', s) request = (r, (db', s))" using keep by metis
    with Cons j show ?case by simp
  qed simp
  then show ?thesis
    by (simp add: cli_work_def assms(2) versioned_skips(2,3) [OF bare(2)] ctx Let_def case_prod_unfold)
qed

section \<open>Steps\<close>

text \<open>
  The JSON functions a binary is built with: serde's parser of a message, its encoder and decoder
  for the rows, SQLite's \<open>json_extract\<close>, and the decoder of a trace.
\<close>

record codecs =
  cx_parse :: "string \<Rightarrow> string + message_envelope"
  cx_enc :: "message_envelope \<Rightarrow> string"
  cx_dec :: "string \<Rightarrow> message_envelope option"
  cx_jget :: json_extract
  cx_trace :: "string \<Rightarrow> routing_trace option"

text \<open>One command. \<open>submit\<close> and \<open>dlq\<close> open the file and work on the queue.\<close>

inductive cli_step :: "codecs \<Rightarrow> 's externals \<Rightarrow> sqlite_db \<Rightarrow> sqlite_db \<Rightarrow> bool" for cx ex where
  step_queue: "cli_open db = (r, db') \<Longrightarrow> cli_step cx ex db db'"
| step_ingest: "cli_ingest (cx_parse cx) (cx_enc cx) txt db = (out, db') \<Longrightarrow> cli_step cx ex db db'"
| step_github: "cli_github dbg http dec_issues dec_comments (cx_enc cx) env rs spec db = (out, db') \<Longrightarrow>
    cli_step cx ex db db'"
| step_replay: "cli_replay ex (cx_dec cx) rs d (db, s) = (out, (db', s')) \<Longrightarrow> cli_step cx ex db db'"
| step_warmup: "cli_warmup ex (cx_dec cx) (cx_jget cx) rs d c (db, s) = (out, (db', s')) \<Longrightarrow>
    cli_step cx ex db db'"
| step_verify: "cli_verify ex (cx_dec cx) rs d wanted (db, s) = (out, (db', s')) \<Longrightarrow> cli_step cx ex db db'"
| step_inspect: "cli_inspect ex (cx_dec cx) (cx_trace cx) rs cap i (db, s) = (out, (db', s')) \<Longrightarrow>
    cli_step cx ex db db'"
| step_work: "cli_work ex dbg (cx_dec cx) rs reached jobs ended (db, s) = (out, (db', s')) \<Longrightarrow>
    cli_step cx ex db db'"

inductive_cases cli_stepE: "cli_step cx ex db db'"

inductive cli_run :: "codecs \<Rightarrow> 's externals \<Rightarrow> sqlite_db \<Rightarrow> sqlite_db \<Rightarrow> bool" for cx ex where
  run_refl: "cli_run cx ex db db"
| run_step: "cli_run cx ex db db1 \<Longrightarrow> cli_step cx ex db1 db2 \<Longrightarrow> cli_run cx ex db db2"

text \<open>
  What the commands rely on: serde reads back a message it wrote, and SQLite finds the
  conversation in the JSON that serde wrote, for every message that can enter the log.
\<close>

definition codecs_ok :: "codecs \<Rightarrow> bool" where
  "codecs_ok cx \<longleftrightarrow>
     (\<forall>txt m. cx_parse cx txt = Inr m \<longrightarrow> message_storable (cx_enc cx) (cx_dec cx) (cx_jget cx) m) \<and>
     (\<forall>item. message_storable (cx_enc cx) (cx_dec cx) (cx_jget cx) (to_message item))"

definition file_log :: "codecs \<Rightarrow> sqlite_db \<Rightarrow> message_envelope list" where
  "file_log cx db = (case sqlite_all (cx_dec cx) db of Some ms \<Rightarrow> ms | None \<Rightarrow> [])"

section \<open>The invariant\<close>

text \<open>A file that was never opened, or one whose log is sound and whose other tables do not exist.\<close>

definition file_ok :: "codecs \<Rightarrow> sqlite_db \<Rightarrow> bool" where
  "file_ok cx db \<longleftrightarrow>
     db = db_empty \<or>
     db_user_version db = 2 \<and> bare db \<and> sqlite_log_ok (cx_dec cx) (cx_jget cx) db"

lemma file_ok_open:
  assumes "file_ok cx db"
  obtains db' where "cli_open db = (True, db')" and "db_user_version db' = 2" and "bare db'"
    and "sqlite_log_ok (cx_dec cx) (cx_jget cx) db'" and "file_log cx db' = file_log cx db"
    and "0 \<le> db_user_version db" and "bare db"
proof (cases "db = db_empty")
  case True
  let ?db = "db_empty\<lparr>db_messages := Some [], db_user_version := 2\<rparr>"
  have fresh: "message_store_init db = (True, ?db)" using True message_store_init_fresh by simp
  have "cli_open db = (True, ?db)"
    using versioned_skips(5) [of ?db] by (simp add: cli_open_def fresh)
  moreover have "sqlite_log_ok (cx_dec cx) (cx_jget cx) ?db" "file_log cx ?db = []"
    using sqlite_log_ok_fresh(1) [of "cx_dec cx" "cx_jget cx"] sqlite_log_ok_fresh(2) [of "cx_dec cx"] fresh True by (simp_all add: file_log_def)
  ultimately show thesis
    using True by (intro that [of ?db]) (simp_all add: db_empty_def bare_def file_log_def sqlite_all_def)
next
  case False
  then have "db_user_version db = 2" "bare db" "sqlite_log_ok (cx_dec cx) (cx_jget cx) db"
    using assms by (simp_all add: file_ok_def)
  then show thesis using versioned_skips(1) [of db] by (intro that [of db]) simp_all
qed

lemma file_okI:
  "db_user_version db = 2 \<Longrightarrow> bare db \<Longrightarrow> sqlite_log_ok (cx_dec cx) (cx_jget cx) db \<Longrightarrow> file_ok cx db"
  by (simp add: file_ok_def)

lemma file_log_eq:
  "sqlite_log_ok (cx_dec cx) jget db \<Longrightarrow> sqlite_all (cx_dec cx) db = Some (file_log cx db)"
  using sqlite_all_total by (metis file_log_def option.case(2))

lemma file_log_wf: "file_ok cx db \<Longrightarrow> log_wf (file_log cx db)"
proof (cases "db = db_empty")
  case True
  then show ?thesis by (simp add: file_log_def sqlite_all_def db_empty_def log_wf_def)
next
  case False
  assume "file_ok cx db"
  then have "sqlite_log_ok (cx_dec cx) (cx_jget cx) db" using False by (simp add: file_ok_def)
  then show ?thesis using sqlite_log.all_wf file_log_eq by (metis option.sel)
qed

text \<open>Appending to an open file of this kind.\<close>

lemma file_append_ok:
  assumes "db_user_version db = 2" and "bare db" and "sqlite_log_ok (cx_dec cx) (cx_jget cx) db"
    and "message_storable (cx_enc cx) (cx_dec cx) (cx_jget cx) m"
  obtains db' where "file_append (cx_enc cx) m (True, db) = (True, db')" and "db_user_version db' = 2"
    and "bare db'" and "sqlite_log_ok (cx_dec cx) (cx_jget cx) db'"
    and "file_log cx db' = log_append m (file_log cx db)"
proof -
  obtain db' ms where db': "sqlite_append (cx_enc cx) m db = Some db'"
    "sqlite_log_ok (cx_dec cx) (cx_jget cx) db'" "sqlite_all (cx_dec cx) db = Some ms"
    "sqlite_all (cx_dec cx) db' = Some (log_append m ms)"
    by (rule sqlite_append_ok [OF assms(3,4)])
  have "db_user_version db' = 2 \<and> bare db'"
    using db'(1) assms(1,2) by (auto simp: sqlite_append_def bare_def Let_def split: option.splits)
  with db' show thesis by (intro that [of db']) (simp_all add: file_append_def file_log_def)
qed

lemma file_appends_ok:
  assumes "db_user_version db = 2" and "bare db" and "sqlite_log_ok (cx_dec cx) (cx_jget cx) db"
    and "\<forall>m\<in>set ms. message_storable (cx_enc cx) (cx_dec cx) (cx_jget cx) m"
  shows "\<exists>db'. fold (file_append (cx_enc cx)) ms (True, db) = (True, db') \<and> file_ok cx db' \<and>
    file_log cx db' = fold log_append ms (file_log cx db)"
  using assms
proof (induction ms arbitrary: db)
  case Nil
  then show ?case by (simp add: file_okI)
next
  case (Cons m ms)
  have m: "message_storable (cx_enc cx) (cx_dec cx) (cx_jget cx) m" using Cons.prems(4) by simp
  obtain db1 where db1: "file_append (cx_enc cx) m (True, db) = (True, db1)" "db_user_version db1 = 2"
    "bare db1" "sqlite_log_ok (cx_dec cx) (cx_jget cx) db1" "file_log cx db1 = log_append m (file_log cx db)"
    by (rule file_append_ok [OF Cons.prems(1-3) m])
  from Cons.IH [OF db1(2-4)] Cons.prems(4) db1(1,5) show ?case by simp
qed

definition grows :: "codecs \<Rightarrow> sqlite_db \<Rightarrow> sqlite_db \<Rightarrow> bool" where
  "grows cx db db' \<longleftrightarrow> file_ok cx db' \<and> (\<exists>ms. file_log cx db' = fold log_append ms (file_log cx db))"

lemma grows_opened:
  assumes "file_ok cx db" and "cli_open db = (r, db')"
  shows "grows cx db db'"
proof -
  obtain db1 where db1: "cli_open db = (True, db1)" "db_user_version db1 = 2" "bare db1"
    "sqlite_log_ok (cx_dec cx) (cx_jget cx) db1" "file_log cx db1 = file_log cx db"
    by (rule file_ok_open [OF assms(1)])
  then have "fold log_append [] (file_log cx db) = file_log cx db1" and "db' = db1"
    using assms(2) by simp_all
  then show ?thesis using file_okI [OF db1(2-4)] unfolding grows_def by metis
qed

lemma ingest_grows:
  assumes "codecs_ok cx" and "file_ok cx db"
    and "cli_ingest (cx_parse cx) (cx_enc cx) txt db = (out, db')"
  shows "grows cx db db'"
proof -
  obtain db1 where db1: "cli_open db = (True, db1)" "db_user_version db1 = 2" "bare db1"
    "sqlite_log_ok (cx_dec cx) (cx_jget cx) db1" "file_log cx db1 = file_log cx db"
    by (rule file_ok_open [OF assms(2)])
  show ?thesis
  proof (cases "cx_parse cx txt")
    case (Inl e)
    then have "db' = db1" using assms(3) db1(1) by (simp add: cli_ingest_def ingest_def)
    then show ?thesis using grows_opened [OF assms(2) db1(1)] by simp
  next
    case (Inr m)
    then have "message_storable (cx_enc cx) (cx_dec cx) (cx_jget cx) m"
      using assms(1) by (simp add: codecs_ok_def)
    then obtain db2 where db2: "file_append (cx_enc cx) m (True, db1) = (True, db2)" "db_user_version db2 = 2"
      "bare db2" "sqlite_log_ok (cx_dec cx) (cx_jget cx) db2" "file_log cx db2 = log_append m (file_log cx db1)"
      by (rule file_append_ok [OF db1(2-4)])
    have "db' = db2" using assms(3) db1(1) db2(1) Inr by (simp add: cli_ingest_def ingest_def)
    moreover have "file_log cx db2 = fold log_append [m] (file_log cx db)" using db2(5) db1(5) by simp
    ultimately show ?thesis using file_okI [OF db2(2-4)] unfolding grows_def by blast
  qed
qed

lemma github_grows:
  assumes "codecs_ok cx" and "file_ok cx db"
    and "cli_github dbg http dec_issues dec_comments (cx_enc cx) env rs spec db = (out, db')"
  shows "grows cx db db'"
proof -
  obtain db1 where db1: "cli_open db = (True, db1)" "db_user_version db1 = 2" "bare db1"
    "sqlite_log_ok (cx_dec cx) (cx_jget cx) db1" "file_log cx db1 = file_log cx db"
    by (rule file_ok_open [OF assms(2)])
  let ?src = "fst (rest_source_new (run_github_base_url rs) (env ''GITHUB_TOKEN''))"
  obtain r lf where call: "github_ingest_rest dbg http dec_issues dec_comments (file_append (cx_enc cx))
      ?src spec (True, db1) = (r, lf)" by (metis prod.collapse)
  have left: "db' = snd lf"
    using assms(3) call db1(1) by (auto simp: cli_github_def Let_def split: sum.splits)
  show ?thesis
  proof (cases r)
    case (Inl e)
    then have "lf = (True, db1)" using call github_ingest_rest_error by metis
    then show ?thesis using left grows_opened [OF assms(2) db1(1)] by simp
  next
    case (Inr ids)
    then obtain items where "lf = snd (ingest_items (file_append (cx_enc cx)) items (True, db1))"
      using call by (auto simp: github_ingest_rest_def case_prod_unfold Let_def split: sum.splits)
    then have "lf = fold (file_append (cx_enc cx)) (map to_message items) (True, db1)"
      by (simp add: ingest_items_eq fold_map)
    moreover have "\<forall>m\<in>set (map to_message items). message_storable (cx_enc cx) (cx_dec cx) (cx_jget cx) m"
      using assms(1) by (simp add: codecs_ok_def)
    ultimately obtain db2 where "lf = (True, db2)" "file_ok cx db2"
      "file_log cx db2 = fold log_append (map to_message items) (file_log cx db1)"
      using file_appends_ok [OF db1(2-4)] by metis
    then show ?thesis using left db1(5) unfolding grows_def by auto
  qed
qed

text \<open>No command creates a cache table, and the log only grows.\<close>

lemma cli_step_grows:
  assumes "codecs_ok cx" and "file_ok cx db" and "cli_step cx ex db db'"
  shows "grows cx db db'"
proof -
  obtain db1 where db1: "cli_open db = (True, db1)" "0 \<le> db_user_version db" "bare db"
    by (rule file_ok_open [OF assms(2)])
  have opened: "grows cx db db1" by (rule grows_opened [OF assms(2) db1(1)])
  show ?thesis
    using assms(3)
  proof cases
    case step_queue
    then show ?thesis using grows_opened [OF assms(2)] by blast
  next
    case step_ingest
    then show ?thesis using ingest_grows [OF assms(1,2)] by blast
  next
    case step_github
    then show ?thesis using github_grows [OF assms(1,2)] by blast
  next
    case step_replay
    then show ?thesis using cli_replay_bare [OF db1(2,1,3)] opened by (metis fst_conv snd_conv)
  next
    case step_warmup
    then show ?thesis using cli_warmup_bare(1) [OF db1(2,1,3)] opened by (metis fst_conv snd_conv)
  next
    case step_verify
    then show ?thesis using cli_verify_bare [OF db1(2,1,3)] opened by (metis fst_conv snd_conv)
  next
    case step_inspect
    then show ?thesis using cli_inspect_bare(1) [OF db1(2,1,3)] opened by (metis fst_conv snd_conv)
  next
    case step_work
    then show ?thesis using cli_work_bare [OF db1(2,1,3)] opened by (metis fst_conv snd_conv)
  qed
qed

section \<open>Runs of commands\<close>

lemma cli_run_grows:
  assumes "cli_run cx ex db db'" and "codecs_ok cx" and "file_ok cx db"
  shows "grows cx db db'"
  using assms
proof induction
  case (run_refl db)
  have "file_log cx db = fold log_append [] (file_log cx db)" by simp
  with run_refl show ?case unfolding grows_def by blast
next
  case (run_step db db1 db2)
  from run_step.IH [OF run_step.prems] obtain ms
    where one: "file_ok cx db1" "file_log cx db1 = fold log_append ms (file_log cx db)"
    by (auto simp: grows_def)
  from cli_step_grows [OF run_step.prems(1) one(1) run_step.hyps(2)] obtain ns
    where two: "file_ok cx db2" "file_log cx db2 = fold log_append ns (file_log cx db1)"
    by (auto simp: grows_def)
  have "file_log cx db2 = fold log_append (ms @ ns) (file_log cx db)" using one(2) two(2) by simp
  with two(1) show ?case unfolding grows_def by blast
qed

text \<open>Ids keep their place in the log, and no message is ever dropped from it.\<close>

lemma log_appends_prefix: "\<exists>new. map env_id (fold log_append ms l) = map env_id l @ new"
proof (induction ms arbitrary: l)
  case (Cons m ms)
  obtain new where new: "map env_id (fold log_append ms (log_append m l)) = map env_id (log_append m l) @ new"
    using Cons.IH by blast
  then show ?case by (auto simp: log_ids_append)
qed simp

lemma cli_run_log_prefix:
  assumes "cli_run cx ex db db'" and "codecs_ok cx" and "file_ok cx db"
  shows "\<exists>new. map env_id (file_log cx db') = map env_id (file_log cx db) @ new"
  using cli_run_grows [OF assms] log_appends_prefix by (auto simp: grows_def)

text \<open>
  On every file the commands can produce, a replay of a log that holds anything panics, an
  inspection of a stored message panics, and no warm-up is ever served.
\<close>

lemma reachable_panics:
  assumes "cli_run cx ex db_empty db" and "codecs_ok cx" and "file_log cx db \<noteq> []"
  shows "run_strategy rs = ''projection'' \<Longrightarrow> \<forall>k. at_least_once (d k) \<Longrightarrow>
      fst (cli_replay ex (cx_dec cx) rs d (db, s)) = Panicked"
    and "fst (cli_warmup ex (cx_dec cx) (cx_jget cx) rs d c (db, s)) \<in> {Failed, Panicked}"
    and "m \<in> set (file_log cx db) \<Longrightarrow>
      fst (cli_inspect ex (cx_dec cx) (cx_trace cx) rs cap (env_id m) (db, s)) = Panicked"
proof -
  have ok: "file_ok cx db"
    using cli_run_grows [OF assms(1,2)] by (simp add: grows_def file_ok_def)
  obtain db1 where db1: "cli_open db = (True, db1)" "sqlite_log_ok (cx_dec cx) (cx_jget cx) db1"
    "file_log cx db1 = file_log cx db" "0 \<le> db_user_version db" "bare db"
    by (rule file_ok_open [OF ok])
  have all: "sqlite_all (cx_dec cx) db1 = Some (file_log cx db)"
    using file_log_eq [OF db1(2)] db1(3) by simp
  show "fst (cli_replay ex (cx_dec cx) rs d (db, s)) = Panicked"
    if "run_strategy rs = ''projection''" "\<forall>k. at_least_once (d k)"
    by (rule cli_replay_panics [OF db1(4,1,5) all file_log_wf [OF ok] assms(3) that])
  show "fst (cli_warmup ex (cx_dec cx) (cx_jget cx) rs d c (db, s)) \<in> {Failed, Panicked}"
    by (rule cli_warmup_bare(2) [OF db1(4,1,5)])
  show "fst (cli_inspect ex (cx_dec cx) (cx_trace cx) rs cap (env_id m) (db, s)) = Panicked"
    if m: "m \<in> set (file_log cx db)"
  proof -
    have "log_find (env_id m) (file_log cx db) = Some m"
      using m by (simp add: log_find_iff [OF file_log_wf [OF ok]])
    then have "sqlite_get (cx_dec cx) db1 (env_id m) = Some (Some m)"
      using sqlite_get_ok [OF db1(2) all] by simp
    then show ?thesis by (rule cli_inspect_bare(2) [OF db1(4,1,5)])
  qed
qed

section \<open>Replay on a file that has the table\<close>

text \<open>
  On a file whose cache table exists and is sound, as one that the cache was opened on first, the
  mock provider's replay reports every conversation, leaves nothing unprojected, and the file
  answers for each of them.
\<close>

lemma derivations_conversations:
  assumes "set cs \<subseteq> set (conversations ms)"
  shows "map cd_conversation (List.map_filter (derivation_for ms (mock_stores lc ms)) cs) = cs"
  using assms
proof (induction cs)
  case (Cons c cs)
  obtain x where x: "derivation_for ms (mock_stores lc ms) c = Some x"
    using mock_stores_derivation [of c ms lc] Cons.prems by auto
  then have "cd_conversation x = c" by (auto simp: derivation_for_def Let_def split: option.splits)
  with x Cons show ?case by (simp add: List.map_filter_simps)
qed (simp add: List.map_filter_simps)

text \<open>Filling the cache touches no other table.\<close>

lemma populate_file_frame:
  "db_user_version (snd (snd (populate_loop (file_put enc) file_reclaim hasher stores v groups cs lf))) =
      db_user_version (snd lf) \<and>
    db_messages (snd (snd (populate_loop (file_put enc) file_reclaim hasher stores v groups cs lf))) =
      db_messages (snd lf)"
proof (induction cs arbitrary: lf)
  case (Cons c cs)
  have put: "db_user_version (snd (file_put enc lf v c x d)) = db_user_version (snd lf) \<and>
      db_messages (snd (file_put enc lf v c x d)) = db_messages (snd lf)" for lf x d
    by (auto simp: file_put_def sqlite_derived_put_def Let_def split: option.splits bool.splits)
  have reclaim: "db_user_version (snd (file_reclaim lf c v x)) = db_user_version (snd lf) \<and>
      db_messages (snd (file_reclaim lf c v x)) = db_messages (snd lf)" for lf x
    by (simp add: file_reclaim_def sqlite_derived_reclaim_def sqlite_derived_prune_def Let_def split: option.split)
  show ?case using Cons by (simp add: Let_def case_prod_unfold put reclaim split: option.split)
qed simp

lemma cli_replay_reads:
  assumes "0 \<le> db_user_version db" and "cli_open db = (True, db')" and "sqlite_all dec db' = Some ms"
    and "run_provider rs = ProviderMock" and "run_strategy rs = ''projection''"
    and "\<forall>k. at_least_once (d k)" and "log_wf ms"
    and "sqlite_derived_ok (ex_dec_derivation ex) db'"
    and "\<forall>c x. derivation_for ms (mock_stores (ex_lower ex) ms) c = Some x \<longrightarrow>
      ex_dec_derivation ex (ex_enc_derivation ex x) = Some (returned x)"
  defines "version \<equiv> derivation_version ''projection'' (StepVersion ''mock:v1'')"
  obtains out db7 where "cli_replay ex dec rs d (db, s) = (Done out, (db7, s))"
    and "map sx_conversation (ro_contexts out) = default_conversation_ids ms" and "ro_unprojected out = []"
    and "\<And>c. c \<in> set (default_conversation_ids ms) \<Longrightarrow>
      sqlite_derived_get (ex_dec_derivation ex) db7 version c (content_hash (ex_hasher ex) ms c) =
        Some (map_option returned (derivation_for ms (mock_stores (ex_lower ex) ms) c))"
    and "db_user_version db7 = db_user_version db'" and "db_messages db7 = db_messages db'"
proof -
  let ?stores = "mock_stores (ex_lower ex) ms"
  let ?put = "\<lambda>db v c x d. the (sqlite_derived_put (ex_enc_derivation ex) db v c x d)"
  let ?pop = "populate_cache ?put sqlite_derived_reclaim (ex_hasher ex) ms ?stores db' version"
  have init: "derived_cache_init db' = (True, db')"
    by (rule versioned_skips(3) [OF cli_open_eq(2) [OF assms(1,2)]])
  have opened: "open_derivation ex rs db' =
      (Some (replay_run (reference_context (ex_lower ex) (mock_step (ex_lower ex))), version), db')"
    unfolding open_derivation_def assms(4,5) build_strategy_mock derivation_version_mock
    by (simp add: init derivation_version_mock version_def)
  have sto: "sqlite_reading.reads_run (ex_dec_derivation ex) (ex_enc_derivation ex) returned ?stores
      (\<lambda>c. Some (default_messages_for ms c))"
    by (rule sqlite_reading.reads_runI [OF assms(9)])
  have pop: "populate_cache (file_put (ex_enc_derivation ex)) file_reclaim (ex_hasher ex) ms ?stores
      (True, db') version = (fst ?pop, (True, snd ?pop))"
    unfolding populate_cache_eq by (rule populate_no_panic [OF assms(8) sto])
  define out where "out = \<lparr>ro_contexts =
      map (\<lambda>x. session_context_from x (version_str version) (run_router rs)) (fst ?pop), ro_unprojected = []\<rparr>"
  have run: "cli_replay ex dec rs d (db, s) = (Done out, (snd ?pop, s))"
    by (simp add: cli_replay_def assms(2,3) opened mock_replay [OF assms(6,7)] replay_command_def pop Let_def
        mock_unprojected [OF assms(7)] out_def finished_def exit_unprojected_def fail_if_unprojected_def)
  have "sx_conversation (session_context_from x v r) = cd_conversation x" for x v r
    by (simp add: session_context_from_def Let_def)
  then have convs: "map sx_conversation (ro_contexts out) = default_conversation_ids ms"
    using derivations_conversations [of "conversations ms" ms "ex_lower ex"]
    by (simp add: out_def populate_returns comp_def conversations_eq)
  have "sqlite_derived_get (ex_dec_derivation ex) (snd ?pop) version c (content_hash (ex_hasher ex) ms c) =
      Some (map_option returned (derivation_for ms ?stores c))" if "c \<in> set (default_conversation_ids ms)" for c
  proof -
    have c: "c \<in> set (conversations ms)" using that by (simp add: conversations_eq)
    obtain x where x: "derivation_for ms ?stores c = Some x" using mock_stores_derivation [OF c] by auto
    have ok: "sqlite_derived_ok (ex_dec_derivation ex) (snd ?pop)"
      by (rule sqlite_reading.populate_reads_ok [OF assms(8,9)])
    have "the (sqlite_derived_get (ex_dec_derivation ex) (snd ?pop) version c (content_hash (ex_hasher ex) ms c)) = Some (returned x)"
      by (rule sqlite_reading.populate_reads [OF assms(8,9) x c])
    then show ?thesis
      using sqlite_derived_get_total [OF ok, of version c "content_hash (ex_hasher ex) ms c"] x
      by (cases "sqlite_derived_get (ex_dec_derivation ex) (snd ?pop) version c (content_hash (ex_hasher ex) ms c)") simp_all
  qed
  moreover have "db_user_version (snd ?pop) = db_user_version db'" "db_messages (snd ?pop) = db_messages db'"
    using populate_file_frame [of "ex_enc_derivation ex" "ex_hasher ex" ?stores version _ _ "(True, db')"] pop
    unfolding populate_cache_eq by (metis snd_conv)+
  ultimately show thesis using that [OF run convs] by (simp add: out_def)
qed

text \<open>With a codec that reads every derivation back as it was.\<close>

lemma cli_replay_done:
  assumes "0 \<le> db_user_version db" and "cli_open db = (True, db')" and "sqlite_all dec db' = Some ms"
    and "run_provider rs = ProviderMock" and "run_strategy rs = ''projection''"
    and "\<forall>k. at_least_once (d k)" and "log_wf ms"
    and "sqlite_derived_ok (ex_dec_derivation ex) db'"
    and "\<forall>c x. derivation_for ms (mock_stores (ex_lower ex) ms) c = Some x \<longrightarrow>
      ex_dec_derivation ex (ex_enc_derivation ex x) = Some x"
  obtains out db7 where "cli_replay ex dec rs d (db, s) = (Done out, (db7, s))"
    and "map sx_conversation (ro_contexts out) = default_conversation_ids ms" and "ro_unprojected out = []"
    and "\<And>c. c \<in> set (default_conversation_ids ms) \<Longrightarrow>
      sqlite_derived_get (ex_dec_derivation ex) db7 (derivation_version ''projection'' (StepVersion ''mock:v1''))
        c (content_hash (ex_hasher ex) ms c) = Some (derivation_for ms (mock_stores (ex_lower ex) ms) c)"
proof (rule cli_replay_reads [where returned = "\<lambda>x. x", OF assms, of s])
qed (use that in \<open>simp add: option.map_ident\<close>)

end
