(* ===== verification/Verify.thy ===== *)
theory Verify
  imports Main Prelude F64 Runtime Model MessageLog Stores Skill HintDev Routing Mock ScopeWarmup
    Derivation Jobs Replay Derived Submission Sqlite SqliteLog SqliteCaches Github Llm Commands Cli CliRun
    Session
begin

text \<open>
  Verification compares a stored derivation with a fresh one by the derived \<open>PartialEq\<close>, which is
  not reflexive on a NaN. With the reference ports no float of a derivation is a NaN, so a
  derivation always equals itself, and \<open>verify\<close> after a replay reports no divergence.
\<close>

section \<open>Parts of a derivation equal themselves\<close>

lemma list_all2_reflI: "(\<And>x. x \<in> set xs \<Longrightarrow> eq x x) \<Longrightarrow> list_all2 eq xs xs"
  by (simp add: list_all2_same)

lemma expert_candidate_eq_refl: "score_ok e \<Longrightarrow> expert_candidate_eq e e"
  by (auto simp: expert_candidate_eq_def score_ok_def skill_score_get_def intro!: f64_eq_refl
      dest: f64_within_not_nan)

text \<open>
  A well-formed derivation: every confidence, score and weight is in the unit interval, the
  reviewers of a hint are ranked, and the human hint is the best of them.
\<close>

definition routing_hint_ok :: "routing_hint \<Rightarrow> bool" where
  "routing_hint_ok h \<longleftrightarrow>
     (\<forall>e\<in>set (hint_reviewers h). score_ok e) \<and> ranked (hint_reviewers h) \<and>
     hint_human_hint h = (case hint_reviewers h of [] \<Rightarrow> None | e # _ \<Rightarrow> Some e)"

definition session_developers_ok :: "session_developers \<Rightarrow> bool" where
  "session_developers_ok s \<longleftrightarrow> (\<forall>d\<in>set (sd_developers s). \<forall>w\<in>set (ds_topics d). topic_weight_ok w)"

definition derivation_ok :: "conversation_derivation \<Rightarrow> bool" where
  "derivation_ok x \<longleftrightarrow>
     (\<forall>p\<in>set (cd_projections x). confidence_ok (proj_confidence p)) \<and>
     (\<forall>s. cd_scope x = Some s \<longrightarrow> confidence_ok (sc_confidence s)) \<and>
     (\<forall>s. cd_developers x = Some s \<longrightarrow> session_developers_ok s) \<and>
     (\<forall>h\<in>set (cd_hints x). routing_hint_ok h)"

lemma skill_hint_ok:
  assumes "\<forall>w\<in>set ws. \<forall>c\<in>set (own_candidates w). score_ok c"
  shows "routing_hint_ok (skill_hint p ws)"
proof -
  note hint = skill_hint_correct [OF assms, of p]
  have "reviewers_for p ws = {} \<longleftrightarrow> hint_reviewers (skill_hint p ws) = []" by (simp flip: hint(5))
  then show ?thesis
    using hint(2,3,6) by (cases "hint_reviewers (skill_hint p ws)") (simp_all add: routing_hint_ok_def)
qed

lemma snapshot_build_ok:
  assumes "\<forall>w\<in>set ws. \<forall>c\<in>set (own_candidates w). score_ok c"
  shows "session_developers_ok (snapshot_build c qs ws)"
  using snapshot_topics_ok [OF assms] by (auto simp: session_developers_ok_def snapshot_developer set_ds_topics)

lemma routing_hint_eq_refl:
  assumes "routing_hint_ok h"
  shows "routing_hint_eq h h"
proof -
  have reviewers: "\<forall>e\<in>set (hint_reviewers h). expert_candidate_eq e e"
    using assms by (simp add: routing_hint_ok_def expert_candidate_eq_refl)
  moreover have "e \<in> set (hint_reviewers h)" if "hint_human_hint h = Some e" for e
    using that assms by (auto simp: routing_hint_ok_def split: list.splits)
  ultimately show ?thesis
    unfolding routing_hint_eq_def by (auto intro!: list_all2_reflI option_eq_refl)
qed

lemma session_developers_eq_refl:
  assumes "session_developers_ok s"
  shows "session_developers_eq s s"
proof -
  have "topic_weight_eq w w" if "d \<in> set (sd_developers s)" "w \<in> set (ds_topics d)" for d w
    using assms that
    by (auto simp: session_developers_ok_def topic_weight_eq_def topic_weight_ok_def intro!: f64_eq_refl
        dest!: bspec f64_within_not_nan)
  then show ?thesis
    by (auto simp: session_developers_eq_def developer_snapshot_eq_def intro!: list_all2_reflI)
qed

lemma scope_eq_refl: "confidence_ok (sc_confidence s) \<Longrightarrow> scope_eq s s"
  by (simp add: scope_eq_def confidence_eq_refl)

lemma derivation_ok_eq: "derivation_ok x \<Longrightarrow> derivation_eq x x"
  unfolding derivation_ok_def derivation_eq_def
  by (auto intro!: list_all2_reflI option_eq_refl projection_eq_refl scope_eq_refl session_developers_eq_refl
      routing_hint_eq_refl)

section \<open>Derivations of the reference ports\<close>

lemma spec_skills_ok:
  assumes "\<forall>m\<in>set ms. confidence_ok (proj_confidence (f m))" and "log_wf ms"
    and "rs_skills (phases_spec (reference_context lc projector) ms (projections_of f ms)) t = Some w"
  shows "\<forall>c\<in>set (own_candidates w). score_ok c"
proof -
  let ?ks = "List.map_filter (contribution_of (projections_of f ms)) (skill_entries ms)"
  have "contribution_ok k" if "k \<in> set ?ks" for k
    using that assms(1) find_Some_mem
    by (fastforce simp: set_map_filter contribution_of_def skill_entries_def contribution_ok_def
        projection_store_get_def projections_of_def log_find_def)
  then have "ownership_ok w" if "w \<in> set (si_ownerships (skill_build ?ks))" for w
    using skill_ownership_ok(1) that by blast
  moreover have "w \<in> set (si_ownerships (skill_build ?ks))"
    using assms(3) by (auto simp: phases_spec_def Let_def reference_context_def dest: map_of_SomeD)
  ultimately show ?thesis by (auto simp: ownership_ok_def)
qed

lemma reference_derivation_ok:
  assumes "\<forall>m\<in>set ms. confidence_ok (proj_confidence (f m))" and "log_wf ms" and "length ms \<le> 2 ^ 53"
    and "derivation_for ms (phases_spec (reference_context lc projector) ms (projections_of f ms)) c = Some x"
  shows "derivation_ok x"
proof -
  let ?r = "phases_spec (reference_context lc projector) ms (projections_of f ms)"
  let ?P = "projections_of f ms"
  note skills = spec_skills_ok [OF assms(1,2), of lc projector]
  have P: "confidence_ok (proj_confidence p)" if "?P i = Some p" for i p
    using that assms(1) find_Some_mem by (fastforce simp: projections_of_def log_find_def)
  have ownerships: "\<forall>w\<in>set (List.map_filter (rs_skills ?r) ts). \<forall>c\<in>set (own_candidates w). score_ok c" for ts
    using skills by (auto simp: set_map_filter)
  have found: "derivation_from_messages ?r c (default_messages_for ms c) = Some x"
    using assms(4) by (simp add: derivation_for_eq)
  have rs: "rs_projections ?r = ?P" by (simp add: phases_spec_def Let_def)
  have "confidence_ok (proj_confidence p)" if "p \<in> set (cd_projections x)" for p
    using found that P by (auto simp: derivation_from_messages_def set_map_filter rs projection_store_get_def
        split: option.splits)
  moreover have "confidence_ok (sc_confidence s)" if "cd_scope x = Some s" for s
  proof -
    have "rs_scopes ?r c = Some s"
      using found that by (auto simp: derivation_from_messages_def scope_store_get_def split: option.splits)
    then have s: "s = scope_project lc c (stored_projections ?P (conversation_ids_of ms c))"
      by (auto simp: phases_spec_def Let_def table_apply reference_context_def split: if_splits)
    have "length (stored_projections ?P (conversation_ids_of ms c)) \<le> length ms"
      using length_filter_le [of _ ms] length_filter_le
      by (auto simp: stored_projections_def conversation_ids_of_def default_messages_for_def List.map_filter_def
          intro: order_trans)
    moreover have "\<forall>p\<in>set (stored_projections ?P (conversation_ids_of ms c)). confidence_ok (proj_confidence p)"
      using P by (auto simp: stored_projections_def set_map_filter projection_store_get_def)
    ultimately show ?thesis
      unfolding s using assms(3) by (intro scope_confidence_unit) simp_all
  qed
  moreover have "session_developers_ok s" if "cd_developers x = Some s" for s
  proof -
    have "rs_developers ?r c = Some s"
      using found that by (auto simp: derivation_from_messages_def developer_store_get_def split: option.splits)
    then obtain qs ts where "s = snapshot_build c qs (List.map_filter (rs_skills ?r) ts)"
      by (auto simp: phases_spec_def Let_def table_apply reference_context_def split: if_splits)
    then show ?thesis using snapshot_build_ok [OF ownerships] by simp
  qed
  moreover have "routing_hint_ok h" if h: "h \<in> set (cd_hints x)" for h
  proof -
    obtain i where "rs_hints ?r i = Some h"
      using found h by (auto simp: derivation_from_messages_def set_map_filter routing_hint_store_get_def split: option.splits)
    then obtain p where "h = skill_hint p (List.map_filter (skill_store_get (rs_skills ?r)) (proj_topics p))"
      by (auto simp: phases_spec_def Let_def hint_for_def reference_context_def)
    moreover have "skill_store_get (rs_skills ?r) = rs_skills ?r" by (rule ext) (simp add: skill_store_get_def)
    ultimately show ?thesis using skill_hint_ok [OF ownerships] by simp
  qed
  ultimately show ?thesis unfolding derivation_ok_def by blast
qed

section \<open>Reading a derivation back\<close>

text \<open>
  What a stored derivation is read back as. Every field but the floats is text, and comes back as it
  was written. A number is written in decimal and parsed again, which \<open>serde_json\<close> promises to invert
  only with its feature \<open>float_roundtrip\<close>; the workspace builds without it, so \<open>rd w\<close>, what the number
  \<open>w\<close> is parsed as, is arbitrary. \<open>Confidence\<close> and \<open>SkillScore\<close> are deserialised through \<open>From<f64>\<close>
  and clamp what was parsed; the weight of a topic is a plain number.
\<close>

definition read_confidence :: "(f64 \<Rightarrow> f64) \<Rightarrow> confidence \<Rightarrow> confidence" where
  "read_confidence rd c = confidence_new (rd (confidence_get c))"

definition read_skill_score :: "(f64 \<Rightarrow> f64) \<Rightarrow> skill_score \<Rightarrow> skill_score" where
  "read_skill_score rd s = skill_score_new (rd (skill_score_get s))"

definition read_projection :: "(f64 \<Rightarrow> f64) \<Rightarrow> projection \<Rightarrow> projection" where
  "read_projection rd p = p\<lparr>proj_confidence := read_confidence rd (proj_confidence p)\<rparr>"

definition read_scope :: "(f64 \<Rightarrow> f64) \<Rightarrow> scope \<Rightarrow> scope" where
  "read_scope rd s = s\<lparr>sc_confidence := read_confidence rd (sc_confidence s)\<rparr>"

definition read_candidate :: "(f64 \<Rightarrow> f64) \<Rightarrow> expert_candidate \<Rightarrow> expert_candidate" where
  "read_candidate rd e = e\<lparr>ec_score := read_skill_score rd (ec_score e)\<rparr>"

definition read_hint :: "(f64 \<Rightarrow> f64) \<Rightarrow> routing_hint \<Rightarrow> routing_hint" where
  "read_hint rd h = h\<lparr>hint_reviewers := map (read_candidate rd) (hint_reviewers h),
     hint_human_hint := map_option (read_candidate rd) (hint_human_hint h)\<rparr>"

definition read_developer :: "(f64 \<Rightarrow> f64) \<Rightarrow> developer_snapshot \<Rightarrow> developer_snapshot" where
  "read_developer rd d = d\<lparr>ds_topics := map (\<lambda>w. w\<lparr>tw_weight := rd (tw_weight w)\<rparr>) (ds_topics d)\<rparr>"

definition read_developers :: "(f64 \<Rightarrow> f64) \<Rightarrow> session_developers \<Rightarrow> session_developers" where
  "read_developers rd s = s\<lparr>sd_developers := map (read_developer rd) (sd_developers s)\<rparr>"

definition read_derivation :: "(f64 \<Rightarrow> f64) \<Rightarrow> conversation_derivation \<Rightarrow> conversation_derivation" where
  "read_derivation rd x = x\<lparr>cd_projections := map (read_projection rd) (cd_projections x),
     cd_scope := map_option (read_scope rd) (cd_scope x),
     cd_developers := map_option (read_developers rd) (cd_developers x),
     cd_hints := map (read_hint rd) (cd_hints x)\<rparr>"

text \<open>The numbers of a derivation: those that are clamped when they are read, and the plain ones.\<close>

definition hint_scores :: "routing_hint \<Rightarrow> f64 list" where
  "hint_scores h = map (skill_score_get \<circ> ec_score)
     (hint_reviewers h @ (case hint_human_hint h of None \<Rightarrow> [] | Some e \<Rightarrow> [e]))"

definition derivation_scores :: "conversation_derivation \<Rightarrow> f64 list" where
  "derivation_scores x =
     map (confidence_get \<circ> proj_confidence) (cd_projections x) @
     (case cd_scope x of None \<Rightarrow> [] | Some s \<Rightarrow> [confidence_get (sc_confidence s)]) @
     concat (map hint_scores (cd_hints x))"

definition derivation_weights :: "conversation_derivation \<Rightarrow> f64 list" where
  "derivation_weights x =
     (case cd_developers x of None \<Rightarrow> []
      | Some s \<Rightarrow> concat (map (map tw_weight \<circ> ds_topics) (sd_developers s)))"

definition survives :: "(f64 \<Rightarrow> f64) \<Rightarrow> conversation_derivation \<Rightarrow> bool" where
  "survives rd x \<longleftrightarrow>
     (\<forall>v\<in>set (derivation_scores x). f64_eq (f64_clamp (rd v) f64_zero f64_one) v) \<and>
     (\<forall>w\<in>set (derivation_weights x). f64_eq (rd w) w)"

lemmas read_defs = read_derivation_def read_projection_def read_scope_def read_hint_def read_candidate_def
  read_developers_def read_developer_def read_confidence_def read_skill_score_def

lemma option_eq_map: "option_eq eq (map_option f x) x \<longleftrightarrow> (\<forall>y. x = Some y \<longrightarrow> eq (f y) y)"
  by (cases x) simp_all

text \<open>The comparison of \<open>verify\<close> sees exactly whether the numbers came back.\<close>

lemma derivation_eq_read: "derivation_eq (read_derivation rd x) x \<longleftrightarrow> survives rd x"
proof -
  let ?clamped = "\<lambda>v. f64_eq (f64_clamp (rd v) f64_zero f64_one) v"
  have confidence: "confidence_eq (read_confidence rd c) c \<longleftrightarrow> ?clamped (confidence_get c)" for c
    by (simp add: confidence_eq_def read_confidence_def confidence_new_def confidence_get_def)
  have candidate: "expert_candidate_eq (read_candidate rd e) e \<longleftrightarrow> ?clamped (skill_score_get (ec_score e))" for e
    by (simp add: expert_candidate_eq_def read_candidate_def read_skill_score_def skill_score_new_def skill_score_get_def)
  have hint: "routing_hint_eq (read_hint rd h) h \<longleftrightarrow> (\<forall>v\<in>set (hint_scores h). ?clamped v)" for h
    by (auto simp: routing_hint_eq_def read_hint_def hint_scores_def list_all2_map1 list_all2_same option_eq_map
        candidate split: option.split)
  have projection: "projection_eq (read_projection rd p) p \<longleftrightarrow> ?clamped (confidence_get (proj_confidence p))" for p
    by (simp add: projection_eq_def read_projection_def confidence)
  have scope: "scope_eq (read_scope rd s) s \<longleftrightarrow> ?clamped (confidence_get (sc_confidence s))" for s
    by (simp add: scope_eq_def read_scope_def confidence)
  have developer: "developer_snapshot_eq (read_developer rd d) d \<longleftrightarrow> (\<forall>w\<in>set (ds_topics d). f64_eq (rd (tw_weight w)) (tw_weight w))" for d
    by (simp add: developer_snapshot_eq_def read_developer_def list_all2_map1 list_all2_same topic_weight_eq_def)
  have developers: "session_developers_eq (read_developers rd s) s \<longleftrightarrow>
      (\<forall>d\<in>set (sd_developers s). \<forall>w\<in>set (ds_topics d). f64_eq (rd (tw_weight w)) (tw_weight w))" for s
    by (simp add: session_developers_eq_def read_developers_def list_all2_map1 list_all2_same developer)
  show ?thesis
    by (cases "cd_scope x"; cases "cd_developers x")
      (auto simp: derivation_eq_def read_derivation_def list_all2_map1 list_all2_same
        projection scope hint developers survives_def derivation_scores_def derivation_weights_def)
qed

text \<open>Where every number is in the unit interval, as with the reference ports, exact parsing suffices.\<close>

lemma survives_exact:
  assumes "derivation_ok x" and "\<forall>w. f64_unit w \<longrightarrow> rd w = w"
  shows "survives rd x"
proof -
  have eq: "f64_eq v v" if "f64_unit v" for v using that by (intro f64_eq_refl) (rule f64_within_not_nan)
  have human: "score_ok e" if "h \<in> set (cd_hints x)" "hint_human_hint h = Some e" for h e
    using that assms(1) by (auto simp: derivation_ok_def routing_hint_ok_def split: list.splits)
  have "f64_unit v" if "v \<in> set (derivation_scores x)" for v
    using that assms(1) human
    by (auto simp: derivation_scores_def hint_scores_def derivation_ok_def confidence_ok_def routing_hint_ok_def score_ok_def
        split: option.splits)
  moreover have "f64_unit w" if "w \<in> set (derivation_weights x)" for w
    using that assms(1)
    by (cases "cd_developers x") (auto simp: derivation_weights_def derivation_ok_def session_developers_ok_def topic_weight_ok_def)
  ultimately show ?thesis using assms(2) eq by (simp add: survives_def f64_clamp_id)
qed

text \<open>With exact parsing a derivation of the reference ports is read back as it was.\<close>

lemma read_derivation_exact:
  assumes "derivation_ok x" and exact: "\<forall>w. f64_unit w \<longrightarrow> rd w = w"
  shows "read_derivation rd x = x"
proof -
  have confidence: "read_confidence rd c = c" if "confidence_ok c" for c
    using that exact by (cases c) (simp add: read_confidence_def confidence_ok_def confidence_get_def confidence_new_def f64_clamp_id)
  have candidate: "read_candidate rd e = e" if "score_ok e" for e
    using that exact
    by (cases "ec_score e") (simp add: read_candidate_def read_skill_score_def score_ok_def skill_score_get_def skill_score_new_def f64_clamp_id)
  have hint: "read_hint rd h = h" if h: "routing_hint_ok h" for h
  proof -
    have "map (read_candidate rd) (hint_reviewers h) = hint_reviewers h"
      using h by (intro map_idI candidate) (simp add: routing_hint_ok_def)
    moreover have "map_option (read_candidate rd) (hint_human_hint h) = hint_human_hint h"
      using h candidate by (auto simp: routing_hint_ok_def split: list.split)
    ultimately show ?thesis by (simp add: read_hint_def)
  qed
  have developer: "read_developer rd d = d" if "\<forall>w\<in>set (ds_topics d). topic_weight_ok w" for d
  proof -
    have "map (\<lambda>w. w\<lparr>tw_weight := rd (tw_weight w)\<rparr>) (ds_topics d) = ds_topics d"
      using that exact by (intro map_idI) (simp add: topic_weight_ok_def)
    then show ?thesis by (simp add: read_developer_def)
  qed
  have developers: "read_developers rd s = s" if s: "session_developers_ok s" for s
  proof -
    have "map (read_developer rd) (sd_developers s) = sd_developers s"
      using s by (intro map_idI developer) (simp add: session_developers_ok_def)
    then show ?thesis by (simp add: read_developers_def)
  qed
  have "map (read_projection rd) (cd_projections x) = cd_projections x"
    using assms(1) by (intro map_idI) (simp add: read_projection_def derivation_ok_def confidence)
  moreover have "map_option (read_scope rd) (cd_scope x) = cd_scope x"
    using assms(1) by (cases "cd_scope x") (simp_all add: read_scope_def derivation_ok_def confidence)
  moreover have "map_option (read_developers rd) (cd_developers x) = cd_developers x"
    using assms(1) by (cases "cd_developers x") (simp_all add: derivation_ok_def developers)
  moreover have "map (read_hint rd) (cd_hints x) = cd_hints x"
    using assms(1) by (intro map_idI hint) (simp add: derivation_ok_def)
  ultimately show ?thesis by (simp add: read_derivation_def)
qed

lemma mock_derivation_ok:
  assumes "log_wf ms" and "length ms \<le> 2 ^ 53" and "derivation_for ms (mock_stores lc ms) c = Some x"
  shows "derivation_ok x"
proof -
  have "\<forall>m\<in>set ms. confidence_ok (proj_confidence (mock_run lc m))" by (intro ballI mock_confidence_ok)
  from reference_derivation_ok [OF this assms(1,2)] assms(3) show ?thesis unfolding mock_stores_def by blast
qed

lemma mock_derivation_eq:
  "log_wf ms \<Longrightarrow> length ms \<le> 2 ^ 53 \<Longrightarrow> derivation_for ms (mock_stores lc ms) c = Some x \<Longrightarrow> derivation_eq x x"
  by (rule derivation_ok_eq) (rule mock_derivation_ok)

section \<open>Verification after a replay\<close>

text \<open>
  On the file a successful mock replay left, \<open>verify\<close> with the same strategy finds a conversation
  verified exactly when the numbers of its derivation survived being written and read, and exits with
  an error exactly when some did not.
\<close>

lemma cli_verify_reports:
  assumes "2 \<le> db_user_version db" and "sqlite_all dec db = Some ms" and "log_wf ms"
    and "run_provider rs = ProviderMock" and "run_strategy rs = ''projection''"
    and "\<forall>k. at_least_once (d k)"
    and "\<forall>c\<in>set (default_conversation_ids ms).
      sqlite_derived_get (ex_dec_derivation ex) db (derivation_version ''projection'' (StepVersion ''mock:v1''))
        c (content_hash (ex_hasher ex) ms c) =
        Some (map_option (read_derivation rd) (derivation_for ms (mock_stores (ex_lower ex) ms) c))"
  defines "kept \<equiv> \<lambda>c. survives rd (the (derivation_for ms (mock_stores (ex_lower ex) ms) c))"
  defines "records \<equiv> map (\<lambda>c. \<lparr>vr_conversation = c, vr_outcome = if kept c then ''verified'' else ''diverged''\<rparr>)
    (default_conversation_ids ms)"
  shows "cli_verify ex dec rs d None (db, s) =
    ((if \<forall>c\<in>set (default_conversation_ids ms). kept c then Done records else DoneWithError records), (db, s))"
proof -
  let ?stores = "mock_stores (ex_lower ex) ms"
  let ?v = "derivation_version ''projection'' (StepVersion ''mock:v1'')"
  let ?stored = "sqlite_derived_get (ex_dec_derivation ex) db"
  let ?get = "\<lambda>_ v c x. case ?stored v c x of Some r \<Rightarrow> r | None \<Rightarrow> None"
  note skips = versioned_skips [OF assms(1)]
  have opened: "open_derivation ex rs db =
      (Some (replay_run (reference_context (ex_lower ex) (mock_step (ex_lower ex))), ?v), db)"
    unfolding open_derivation_def assms(4,5) build_strategy_mock derivation_version_mock
    by (simp add: skips(3) derivation_version_mock)
  have run: "replay_run (reference_context (ex_lower ex) (mock_step (ex_lower ex))) d ms (db, s) = (?stores, (db, s))"
    by (rule mock_replay [OF assms(6,3)])
  have hit: "?stored ?v c (content_hash_of (ex_hasher ex) (default_messages_for ms c)) =
      Some (Some (read_derivation rd x))"
    if "derivation_for ms ?stores c = Some x" "c \<in> set (default_conversation_ids ms)" for c x
    using bspec [OF assms(7) that(2)] that(1) by (simp add: content_hash_eq [symmetric])
  have fresh: "fst (populate_cache derived_put derived_reclaim (ex_hasher ex) ms ?stores derived_new ?v) =
      List.map_filter (derivation_for ms ?stores) (default_conversation_ids ms)"
    by (simp add: populate_returns conversations_eq)
  have each: "map (\<lambda>x. \<lparr>vr_conversation = cd_conversation x,
        vr_outcome = (case ?get db ?v (cd_conversation x)
            (content_hash_of (ex_hasher ex) (default_messages_for ms (cd_conversation x))) of
          None \<Rightarrow> ''not_cached'' | Some y \<Rightarrow> if derivation_eq y x then ''verified'' else ''diverged'')\<rparr>)
      (List.map_filter (derivation_for ms ?stores) cs) =
    map (\<lambda>c. \<lparr>vr_conversation = c, vr_outcome = if kept c then ''verified'' else ''diverged''\<rparr>) cs"
    if "set cs \<subseteq> set (default_conversation_ids ms)" for cs
    using that
  proof (induction cs)
    case (Cons c cs)
    obtain x where x: "derivation_for ms ?stores c = Some x"
      using mock_stores_derivation [of c ms "ex_lower ex"] Cons.prems by (auto simp: conversations_eq)
    have "cd_conversation x = c" using x by (auto simp: derivation_for_def Let_def split: option.splits)
    then show ?case using Cons x hit [OF x] by (simp add: List.map_filter_simps derivation_eq_read kept_def)
  qed (simp add: List.map_filter_simps)
  have records: "verify_command ?get (ex_hasher ex) (\<lambda>_ _ s. (?stores, s)) d ?v ms (db, s) = (records, (db, s))"
    using each [of "default_conversation_ids ms"] fresh
    by (simp add: verify_command_def Let_def case_prod_unfold records_def)
  have clean: "\<not> (\<exists>r\<in>set records. ?stored ?v (vr_conversation r) (content_hash (ex_hasher ex) ms (vr_conversation r)) = None)"
    using assms(7) by (auto simp: records_def)
  have "(0 < length (filter (\<lambda>r. vr_outcome r = ''diverged'') records)) = (\<not> (\<forall>c\<in>set (default_conversation_ids ms). kept c))"
    by (auto simp: records_def filter_empty_conv)
  then show ?thesis
    using clean by (simp add: cli_verify_def skips(1,2) opened assms(2) run records Let_def)
qed

end
