(* ===== verification/Samples.thy ===== *)
theory Samples
  imports Main Prelude F64 Runtime Model MessageLog Stores Skill HintDev Routing Mock ScopeWarmup
    Derivation Jobs Replay Derived Submission Sqlite SqliteLog SqliteCaches Github Llm Commands Cli CliRun
begin

text \<open>
  Concrete data: a log of three messages in two conversations, a codec that keeps the laws the
  durable log asks of serde and SQLite, a hash that tells the sampled messages apart, and the
  settings of a run. They show that the hypotheses of the library's properties can be met.
\<close>

section \<open>Messages\<close>

definition sample_message :: "string \<Rightarrow> string \<Rightarrow> string \<Rightarrow> string \<Rightarrow> message_envelope" where
  "sample_message i c a body =
     \<lparr>env_id = MessageId i, env_source = Manual,
      env_author = \<lparr>au_id = AuthorId a, au_display_name = a\<rparr>,
      env_conversation = \<lparr>conv_id = ConversationId c, conv_thread = None\<rparr>, env_body = body\<rparr>"

definition sample_log :: "message_envelope list" where
  "sample_log =
     [sample_message ''m1'' ''c1'' ''al'' ''should we use jwt for auth?'',
      sample_message ''m2'' ''c2'' ''bob'' ''the auth build is broken'',
      sample_message ''m3'' ''c1'' ''bob'' ''the jwt looks fine'']"

lemma sample_log_wf: "log_wf sample_log"
  by (simp add: sample_log_def sample_message_def log_wf_def)

lemma sample_message_fields [simp]:
  "env_id (sample_message i c a b) = MessageId i" "conversation_of (sample_message i c a b) = ConversationId c"
  "env_body (sample_message i c a b) = b"
  by (simp_all add: sample_message_def conversation_of_def)

lemma sample_log_conversations: "default_conversation_ids sample_log = [ConversationId ''c1'', ConversationId ''c2'']"
  by (simp add: sample_log_def default_conversation_ids_def)

lemma sample_log_conversation_set:
  "conversation_of ` set sample_log = {ConversationId ''c1'', ConversationId ''c2''}"
  unfolding set_default_conversation_ids [symmetric] sample_log_conversations by simp

lemma sample_log_keys: "inj_on (message_id_str \<circ> env_id) (set sample_log)"
  using sample_log_wf by (auto simp: log_wf_def distinct_map inj_on_def message_id.expand)

lemma in_order_once: "\<forall>k :: nat. at_least_once ((\<lambda>_. in_order) k)"
  by (simp add: at_least_once_in_order)

text \<open>A fourth message, in the second conversation and about the topic of the first message.\<close>

definition sample_newcomer :: message_envelope where
  "sample_newcomer = sample_message ''m4'' ''c2'' ''carol'' ''auth once again''"

lemma sample_newcomer_wf: "log_wf (sample_log @ [sample_newcomer])"
  by (simp add: sample_newcomer_def sample_log_def sample_message_def log_wf_def)

lemma sample_keywords:
  "filter (str_contains (ascii_lower ''should we use jwt for auth?'')) topic_keywords = [''auth'']"
  "filter (str_contains (ascii_lower ''the auth build is broken'')) topic_keywords = [''auth'']"
  "filter (str_contains (ascii_lower ''the jwt looks fine'')) topic_keywords = []"
  "filter (str_contains (ascii_lower ''auth once again'')) topic_keywords = [''ai'', ''auth'']"
  by code_simp+

lemma sample_topics:
  "proj_topics (mock_run ascii_lower (sample_message i c a ''should we use jwt for auth?'')) = [Topic ''auth'']"
  "proj_topics (mock_run ascii_lower (sample_message i c a ''the auth build is broken'')) = [Topic ''auth'']"
  "proj_topics (mock_run ascii_lower (sample_message i c a ''the jwt looks fine'')) = []"
  "proj_topics (mock_run ascii_lower sample_newcomer) = [Topic ''ai'', Topic ''auth'']"
  by (simp_all add: mock_run_def sample_newcomer_def sample_keywords Let_def del: str_contains_def)

lemma sample_author [simp]: "au_id (env_author (sample_message i c a b)) = AuthorId a"
  by (simp add: sample_message_def)

section \<open>A codec\<close>

text \<open>Every character is written after a plus sign, and a full stop ends a string.\<close>

definition put_str :: "string \<Rightarrow> string" where
  "put_str s = concat (map (\<lambda>c. [CHR ''+'', c]) s) @ ''.''"

fun get_str :: "string \<Rightarrow> (string \<times> string) option" where
  "get_str (a # c # r) =
     (if a = CHR ''.'' then Some ([], c # r)
      else map_option (\<lambda>(s, rest). (c # s, rest)) (get_str r))"
| "get_str [a] = (if a = CHR ''.'' then Some ([], []) else None)"
| "get_str [] = None"

lemma get_put_str [simp]: "get_str (put_str s @ rest) = Some (s, rest)"
proof (induction s)
  case Nil
  then show ?case by (cases rest) (simp_all add: put_str_def)
next
  case (Cons c s)
  then show ?case by (simp add: put_str_def)
qed

definition source_tag :: "source \<Rightarrow> string" where
  "source_tag s = (case s of Discord \<Rightarrow> ''d'' | Slack \<Rightarrow> ''s'' | SourceGitHub \<Rightarrow> ''g'' | Manual \<Rightarrow> ''m'')"

definition sample_enc :: "message_envelope \<Rightarrow> string" where
  "sample_enc m =
     put_str (conversation_id_str (conversation_of m)) @ put_str (message_id_str (env_id m)) @
     put_str (source_tag (env_source m)) @ put_str (author_id_str (au_id (env_author m))) @
     put_str (au_display_name (env_author m)) @
     put_str (case conv_thread (env_conversation m) of None \<Rightarrow> '''' | Some t \<Rightarrow> CHR ''t'' # thread_id_str t) @
     put_str (env_body m)"

fun get_strs :: "nat \<Rightarrow> string \<Rightarrow> string list option" where
  "get_strs 0 s = (if s = [] then Some [] else None)"
| "get_strs (Suc n) s = (case get_str s of None \<Rightarrow> None | Some (x, r) \<Rightarrow> map_option ((#) x) (get_strs n r))"

definition source_of_tag :: "string \<Rightarrow> source" where
  "source_of_tag t = (if t = ''d'' then Discord else if t = ''s'' then Slack else if t = ''g'' then SourceGitHub else Manual)"

definition message_of_strs :: "string list \<Rightarrow> message_envelope option" where
  "message_of_strs xs =
     (case xs of
        [c, i, src, a, dn, t, b] \<Rightarrow> Some
          \<lparr>env_id = MessageId i, env_source = source_of_tag src,
           env_author = \<lparr>au_id = AuthorId a, au_display_name = dn\<rparr>,
           env_conversation = \<lparr>conv_id = ConversationId c,
             conv_thread = (case t of [] \<Rightarrow> None | _ # s \<Rightarrow> Some (ThreadId s))\<rparr>,
           env_body = b\<rparr>
      | _ \<Rightarrow> None)"

definition sample_dec :: "string \<Rightarrow> message_envelope option" where
  "sample_dec s = Option.bind (get_strs 7 s) message_of_strs"

definition sample_jget :: json_extract where
  "sample_jget s = map_option (\<lambda>(c, _). Some c) (get_str s)"

lemma source_tag_round [simp]: "source_of_tag (source_tag s) = s"
  by (cases s) (simp_all add: source_tag_def source_of_tag_def)

lemma get_put_end [simp]: "get_str (put_str s) = Some (s, [])"
  using get_put_str [of s "[]"] by simp

lemma sample_storable: "message_storable sample_enc sample_dec sample_jget m"
proof -
  have strs: "get_strs 7 (sample_enc m) = Some
     [conversation_id_str (conversation_of m), message_id_str (env_id m), source_tag (env_source m),
      author_id_str (au_id (env_author m)), au_display_name (env_author m),
      (case conv_thread (env_conversation m) of None \<Rightarrow> '''' | Some t \<Rightarrow> CHR ''t'' # thread_id_str t), env_body m]"
    by (simp add: sample_enc_def eval_nat_numeral)
  have "message_of_strs
     [conversation_id_str (conversation_of m), message_id_str (env_id m), source_tag (env_source m),
      author_id_str (au_id (env_author m)), au_display_name (env_author m),
      (case conv_thread (env_conversation m) of None \<Rightarrow> '''' | Some t \<Rightarrow> CHR ''t'' # thread_id_str t), env_body m] = Some m"
    by (cases "conv_thread (env_conversation m)")
      (auto simp: message_of_strs_def conversation_of_def intro!: message_envelope.equality author.equality conversation.equality)
  with strs have "sample_dec (sample_enc m) = Some m" by (simp add: sample_dec_def)
  moreover have "sample_jget (sample_enc m) = Some (Some (conversation_id_str (conversation_of m)))"
    by (simp add: sample_jget_def sample_enc_def)
  ultimately show ?thesis by (simp add: message_storable_def)
qed

section \<open>Derivations\<close>

text \<open>The sampled log's derivations, each written as the id of its conversation.\<close>

definition sample_stores :: replay_stores where
  "sample_stores = mock_stores ascii_lower sample_log"

definition sample_enc_derivation :: "conversation_derivation \<Rightarrow> string" where
  "sample_enc_derivation x = conversation_id_str (cd_conversation x)"

definition sample_dec_derivation :: "string \<Rightarrow> conversation_derivation option" where
  "sample_dec_derivation t = derivation_for sample_log sample_stores (ConversationId t)"

lemma sample_derivation_storable:
  "\<forall>c x. derivation_for sample_log sample_stores c = Some x \<longrightarrow>
    sample_dec_derivation (sample_enc_derivation x) = Some x"
  by (auto simp: sample_enc_derivation_def sample_dec_derivation_def derivation_for_def Let_def split: option.splits)

lemma sample_derivation:
  assumes "c \<in> {ConversationId ''c1'', ConversationId ''c2''}"
  obtains x where "derivation_for sample_log sample_stores c = Some x" and "c \<in> set (conversations sample_log)"
proof -
  have "c \<in> set (conversations sample_log)"
    using assms by (auto simp: conversations_eq sample_log_conversations)
  then show thesis using mock_stores_derivation that unfolding sample_stores_def by blast
qed

section \<open>Settings\<close>

definition sample_hasher :: hash_function where
  "sample_hasher s = of_nat (length s)"

definition sample_externals :: "unit externals" where
  "sample_externals =
     \<lparr>ex_lower = ascii_lower, ex_hasher = sample_hasher, ex_render = (\<lambda>_. ''''), ex_dec_generate = (\<lambda>_. None),
      ex_dec_chat = (\<lambda>_. None), ex_dec_dto = (\<lambda>_. None), ex_post = (\<lambda>s _. (None, s)), ex_env = (\<lambda>_. None),
      ex_enc_projection = (\<lambda>_. ''''), ex_dec_projection = (\<lambda>_. None),
      ex_enc_derivation = sample_enc_derivation, ex_dec_derivation = sample_dec_derivation\<rparr>"

definition sample_arguments :: cli_args where
  "sample_arguments =
     \<lparr>cli_db = None, cli_queue_db = None, cli_broker = None, cli_queue_url = None, cli_provider = None,
      cli_format = None, cli_strategy = None, cli_config = None, cli_ollama_base_url = None,
      cli_ollama_model = None, cli_ollama_prompt_version = None, cli_openai_base_url = None,
      cli_openai_model = None, cli_github_base_url = None\<rparr>"

definition sample_settings :: run_settings where
  "sample_settings = resolve_settings sample_arguments config_default"

lemma sample_settings_simps [simp]:
  "run_provider sample_settings = ProviderMock" "run_strategy sample_settings = ''projection''"
  by (simp_all add: sample_settings_def resolve_settings_def sample_arguments_def config_default_def
      resolve_provider_def resolve_strategy_def or_else_def unwrap_or_def default_strategy_def)


lemma sample_externals_simps [simp]:
  "ex_lower sample_externals = ascii_lower" "ex_hasher sample_externals = sample_hasher"
  "ex_enc_derivation sample_externals = sample_enc_derivation"
  "ex_dec_derivation sample_externals = sample_dec_derivation"
  by (simp_all add: sample_externals_def)

section \<open>Files\<close>

text \<open>A file on which every store was opened, whose log is the sampled one.\<close>

definition sample_rows :: "message_row list" where
  "sample_rows = map2 (\<lambda>i m. \<lparr>mr_id = message_id_str (env_id m), mr_seq = i, mr_payload = sample_enc m\<rparr>)
     [1, 2, 3] sample_log"

definition sample_db :: sqlite_db where
  "sample_db =
     \<lparr>db_user_version = 2, db_messages = Some sample_rows, db_messages_v2 = None, db_derived = Some [],
      db_projections = Some [], db_traces = Some []\<rparr>"

lemma sample_db_ok: "sqlite_log_ok sample_dec sample_jget sample_db"
  and sample_db_all: "sqlite_all sample_dec sample_db = Some sample_log"
proof -
  have row: "row_message sample_dec sample_jget \<lparr>mr_id = message_id_str (env_id m), mr_seq = i, mr_payload = sample_enc m\<rparr> m"
    for m i
    using sample_storable [of m] by (simp add: row_message_def message_storable_def)
  have rows: "db_messages sample_db = Some sample_rows" by (simp add: sample_db_def)
  have asc: "sorted_wrt (<) (map mr_seq sample_rows)" by (simp add: sample_rows_def sample_log_def)
  have all2: "list_all2 (row_message sample_dec sample_jget) sample_rows sample_log"
    by (simp add: sample_rows_def sample_log_def row [of "sample_message i c a b" for i c a b, simplified])
  show "sqlite_log_ok sample_dec sample_jget sample_db"
    by (rule sqlite_log_okI [OF rows _ asc all2]) (simp add: sample_rows_def sample_log_def)
  show "sqlite_all sample_dec sample_db = Some sample_log"
    by (rule sqlite_all_rows [OF rows asc all2])
qed

lemma sample_db_open: "cli_open sample_db = (True, sample_db)"
  by (rule versioned_skips(1)) (simp add: sample_db_def)

lemma sample_db_derived: "sqlite_derived_ok sample_dec_derivation sample_db"
  by (simp add: sample_db_def sqlite_derived_ok_def)

end
