(* ===== verification/Expertise.thy ===== *)
theory Expertise
  imports Main Prelude F64 Runtime Model MessageLog Stores Skill HintDev Routing Mock ScopeWarmup
    Derivation Jobs Replay Derived Submission Sqlite SqliteLog SqliteCaches Github Llm Commands Cli CliRun
    Session Verify
begin

text \<open>
  Expertise spans conversations: the skill stage reads the whole log, and the hint and snapshot
  stages read what it stored. Here the three stages of a replay are composed, and a hint or a
  snapshot is described by the messages of the log alone.
\<close>

section \<open>Contributions of a log\<close>

definition message_contribution :: "(message_envelope \<Rightarrow> projection) \<Rightarrow> message_envelope \<Rightarrow> skill_contribution" where
  "message_contribution f m =
     \<lparr>sk_author = au_id (env_author m), sk_display_name = au_display_name (env_author m),
      sk_topics = proj_topics (f m), sk_confidence = proj_confidence (f m)\<rparr>"

lemma projections_of_mem: "log_wf ms \<Longrightarrow> m \<in> set ms \<Longrightarrow> projections_of f ms (env_id m) = Some (f m)"
  using log_find_iff [of ms m] by (simp add: projections_of_def)

lemma log_contributions:
  assumes "log_wf ms"
  shows "List.map_filter (contribution_of (projections_of f ms)) (skill_entries ms) = map (message_contribution f) ms"
proof -
  have "List.map_filter (contribution_of (projections_of f ms)) (skill_entries ns) = map (message_contribution f) ns"
    if "set ns \<subseteq> set ms" for ns
    using that
    by (induction ns) (simp_all add: skill_entries_def List.map_filter_simps contribution_of_def
        projection_store_get_def projections_of_mem [OF assms] message_contribution_def)
  then show ?thesis by simp
qed

text \<open>Who wrote about a topic, anywhere in the log.\<close>

definition writers_on :: "(message_envelope \<Rightarrow> projection) \<Rightarrow> message_envelope list \<Rightarrow> topic \<Rightarrow> author_id set" where
  "writers_on f ms t = {au_id (env_author m) | m. m \<in> set ms \<and> t \<in> set (proj_topics (f m))}"

lemma writers_on_simps [simp]:
  "writers_on f [] t = {}"
  "writers_on f (m # ms) t =
    (if t \<in> set (proj_topics (f m)) then insert (au_id (env_author m)) (writers_on f ms t) else writers_on f ms t)"
  by (auto simp: writers_on_def)

lemma writers_on_append: "writers_on f (ms @ [m]) t = writers_on f ms t \<union> writers_on f [m] t"
  by (induction ms) auto

lemma mentioned_contributions:
  "mentioned (map (message_contribution f) ms) (author_id_str a) (topic_str t) \<longleftrightarrow> a \<in> writers_on f ms t"
proof -
  have "b = c" if "author_id_str b = author_id_str c" for b c
    using that by (cases b; cases c) simp
  then show ?thesis
    by (force simp: mentioned_def writers_on_def message_contribution_def topic_str_image)
qed

section \<open>The skill stage\<close>

lemma spec_skills:
  fixes lc :: "string \<Rightarrow> string" and projector :: "('s, message_envelope, projection) step"
  assumes "log_wf ms" and "\<forall>m\<in>set ms. confidence_ok (proj_confidence (f m))"
  defines "S \<equiv> rs_skills (phases_spec (reference_context lc projector) ms (projections_of f ms))"
  shows "S t = Some w \<Longrightarrow> own_topic w = t \<and> ec_author ` set (own_candidates w) = writers_on f ms t \<and> ownership_ok w"
    and "S t = None \<longleftrightarrow> writers_on f ms t = {}"
proof -
  let ?ks = "map (message_contribution f) ms"
  have S: "S = map_of (map (\<lambda>w. (own_topic w, w)) (si_ownerships (skill_build ?ks)))"
    by (simp add: S_def phases_spec_def Let_def reference_context_def log_contributions [OF assms(1)])
  have ok: "\<forall>k\<in>set ?ks. contribution_ok k"
    using assms(2) by (simp add: contribution_ok_def message_contribution_def)
  show "own_topic w = t \<and> ec_author ` set (own_candidates w) = writers_on f ms t \<and> ownership_ok w" if "S t = Some w"
  proof -
    have w: "w \<in> set (si_ownerships (skill_build ?ks))" "own_topic w = t"
      using map_of_SomeD [OF that [unfolded S]] by auto
    then show ?thesis
      using skill_ownership_ok [OF ok w(1)] by (simp add: mentioned_contributions)
  qed
  have "S t = None \<longleftrightarrow> t \<notin> skill_topics ?ks"
    using skill_ownership_topics(1) [of ?ks] by (auto simp: S map_of_eq_None_iff comp_def image_image)
  also have "\<dots> \<longleftrightarrow> writers_on f ms t = {}"
    by (auto simp: skill_topics_def writers_on_def message_contribution_def)
  finally show "S t = None \<longleftrightarrow> writers_on f ms t = {}" .
qed

section \<open>The hint stage\<close>

lemma spec_hint:
  assumes "log_wf ms" and "\<forall>m\<in>set ms. confidence_ok (proj_confidence (f m)) \<and> proj_message_id (f m) = env_id m"
    and "m \<in> set ms"
  shows "\<exists>h. rs_hints (phases_spec (reference_context lc projector) ms (projections_of f ms)) (env_id m) = Some h \<and>
    hint_message_id h = env_id m \<and> ranked (hint_reviewers h) \<and> distinct (map ec_author (hint_reviewers h)) \<and>
    ec_author ` set (hint_reviewers h) = (\<Union>t\<in>set (proj_topics (f m)). writers_on f ms t)"
proof -
  let ?r = "phases_spec (reference_context lc projector) ms (projections_of f ms)"
  let ?ws = "List.map_filter (rs_skills ?r) (proj_topics (f m))"
  have conf: "\<forall>m\<in>set ms. confidence_ok (proj_confidence (f m))" using assms(2) by blast
  note skills = spec_skills [OF assms(1) conf, of lc projector]
  have get: "skill_store_get (rs_skills ?r) = rs_skills ?r" by (rule ext) (simp add: skill_store_get_def)
  have hint: "rs_hints ?r (env_id m) = Some (skill_hint (f m) ?ws)"
    using projections_of_mem [OF assms(1,3), of f]
    by (simp add: phases_spec_def Let_def hint_for_def projection_store_get_def reference_context_def skill_store_get_def [abs_def])
  have scores: "\<forall>w\<in>set ?ws. \<forall>c\<in>set (own_candidates w). score_ok c"
    using skills(1) by (auto simp: set_map_filter ownership_ok_def)
  have "reviewers_for (f m) ?ws = (\<Union>t\<in>set (proj_topics (f m)). writers_on f ms t)"
  proof (intro set_eqI iffI)
    fix a assume "a \<in> reviewers_for (f m) ?ws"
    then obtain t w c where "t \<in> set (proj_topics (f m))" "rs_skills ?r t = Some w" "c \<in> set (own_candidates w)" "a = ec_author c"
      by (auto simp: reviewers_for_def set_map_filter)
    then show "a \<in> (\<Union>t\<in>set (proj_topics (f m)). writers_on f ms t)" using skills(1) by blast
  next
    fix a assume "a \<in> (\<Union>t\<in>set (proj_topics (f m)). writers_on f ms t)"
    then obtain t where t: "t \<in> set (proj_topics (f m))" "a \<in> writers_on f ms t" by blast
    then obtain w where w: "rs_skills ?r t = Some w" using skills(2) [of t] by fastforce
    then have "own_topic w = t" "a \<in> ec_author ` set (own_candidates w)" using skills(1) t(2) by auto
    moreover have "w \<in> set ?ws" using w t(1) by (auto simp: set_map_filter)
    ultimately show "a \<in> reviewers_for (f m) ?ws" using t(1) by (auto simp: reviewers_for_def)
  qed
  then show ?thesis
    using hint skill_hint_correct [OF scores, of "f m"] assms(2,3) by simp
qed

text \<open>The same for the mock projector, whose answers always qualify, and for a derivation.\<close>

lemma mock_hint:
  assumes "log_wf ms" and "m \<in> set ms"
  shows "\<exists>h. rs_hints (mock_stores lc ms) (env_id m) = Some h \<and>
    hint_message_id h = env_id m \<and>
    ec_author ` set (hint_reviewers h) = (\<Union>t\<in>set (proj_topics (mock_run lc m)). writers_on (mock_run lc) ms t)"
proof -
  have "\<forall>m\<in>set ms. confidence_ok (proj_confidence (mock_run lc m)) \<and> proj_message_id (mock_run lc m) = env_id m"
    by (intro ballI conjI mock_confidence_ok) simp
  from spec_hint [OF assms(1) this assms(2), of lc "mock_step lc"] show ?thesis
    unfolding mock_stores_def by - (elim exE conjE, intro exI conjI, assumption+)
qed

lemma derivation_hints:
  assumes "derivation_for ms r c = Some x" and "m \<in> set ms" and "conversation_of m = c" and "rs_hints r (env_id m) = Some h"
  shows "h \<in> set (cd_hints x)"
  using assms by (force simp: derivation_for_def Let_def messages_in_def set_map_filter routing_hint_store_get_def
      split: option.splits)

section \<open>The snapshot stage\<close>

lemma stored_projections_log:
  assumes "log_wf ms"
  shows "stored_projections (projections_of f ms) (conversation_ids_of ms c) = map f (default_messages_for ms c)"
proof -
  have "stored_projections (projections_of f ms) (map env_id ns) = map f ns" if "set ns \<subseteq> set ms" for ns
    using that
    by (induction ns) (simp_all add: stored_projections_def List.map_filter_simps projection_store_get_def
        projections_of_mem [OF assms])
  then show ?thesis by (simp add: conversation_ids_of_def default_messages_for_def)
qed

lemma spec_snapshot:
  fixes lc :: "string \<Rightarrow> string" and projector :: "('s, message_envelope, projection) step"
  assumes "log_wf ms" and "\<forall>m\<in>set ms. confidence_ok (proj_confidence (f m))"
    and "c \<in> conversation_of ` set ms"
  shows "\<exists>sd. rs_developers (phases_spec (reference_context lc projector) ms (projections_of f ms)) c = Some sd \<and>
    ds_author ` set (sd_developers sd) = {au_id (env_author m) | m. m \<in> set ms \<and> conversation_of m = c} \<and>
    (\<forall>d\<in>set (sd_developers sd). tw_topic ` set (ds_topics d) =
       {t. ds_author d \<in> writers_on f ms t \<and>
         (\<exists>m\<in>set ms. conversation_of m = c \<and> t \<in> set (proj_topics (f m)))})"
proof -
  let ?r = "phases_spec (reference_context lc projector) ms (projections_of f ms)"
  let ?ts = "first_seen {} (session_topics (projections_of f ms) (conversation_ids_of ms c))"
  let ?ws = "List.map_filter (rs_skills ?r) ?ts"
  let ?qs = "or_empty (participants_by_conversation ms c)"
  note skills = spec_skills [OF assms(1,2), of lc projector]
  have dev: "rs_developers ?r c = Some (snapshot_build c ?qs ?ws)"
    using assms(3) by (simp add: phases_spec_def Let_def reference_context_def table_apply)
  have ts: "set ?ts = {t. \<exists>m\<in>set ms. conversation_of m = c \<and> t \<in> set (proj_topics (f m))}"
    by (auto simp: set_first_seen session_topics_def stored_projections_log [OF assms(1)] default_messages_for_def)
  have ok: "\<forall>w\<in>set ?ws. ownership_ok w" using skills(1) by (auto simp: set_map_filter)
  then have dist: "\<forall>w\<in>set ?ws. distinct (map ec_author (own_candidates w))" by (simp add: ownership_ok_def)
  have owned: "tw_topic ` set (owned_topics ?ws q) = {t \<in> set ?ts. pt_author q \<in> writers_on f ms t}" for q
  proof (intro set_eqI iffI)
    fix t assume "t \<in> tw_topic ` set (owned_topics ?ws q)"
    then obtain tw where tw: "tw \<in> set (owned_topics ?ws q)" "t = tw_topic tw" by auto
    then obtain w e where w: "w \<in> set ?ws" "own_topic w = t" "e \<in> set (own_candidates w)" "ec_author e = pt_author q"
      unfolding owned_topics_iff [OF dist] by auto
    from w(1) obtain u where "u \<in> set ?ts" "rs_skills ?r u = Some w" by (auto simp: set_map_filter)
    then show "t \<in> {t \<in> set ?ts. pt_author q \<in> writers_on f ms t}" using skills(1) [of u w] w(2-) by force
  next
    fix t assume t: "t \<in> {t \<in> set ?ts. pt_author q \<in> writers_on f ms t}"
    then obtain w where w: "rs_skills ?r t = Some w" using skills(2) [of t] by fastforce
    then have own: "own_topic w = t" "pt_author q \<in> ec_author ` set (own_candidates w)" using skills(1) t by auto
    then obtain e where "e \<in> set (own_candidates w)" "ec_author e = pt_author q" by auto
    moreover have "w \<in> set ?ws" using w t by (auto simp: set_map_filter)
    ultimately have "\<lparr>tw_topic = t, tw_weight = skill_score_get (ec_score e)\<rparr> \<in> set (owned_topics ?ws q)"
      unfolding owned_topics_iff [OF dist] using own(1) by blast
    then show "t \<in> tw_topic ` set (owned_topics ?ws q)" by force
  qed
  have "tw_topic ` set (ds_topics d) =
      {t. ds_author d \<in> writers_on f ms t \<and> (\<exists>m\<in>set ms. conversation_of m = c \<and> t \<in> set (proj_topics (f m)))}"
    if "d \<in> set (sd_developers (snapshot_build c ?qs ?ws))" for d
  proof -
    obtain q where q: "d = snapshot_of ?ws q" using \<open>d \<in> _\<close> by (auto simp: snapshot_developer)
    show ?thesis unfolding q set_ds_topics owned ts by (auto simp: snapshot_of_def)
  qed
  moreover have "ds_author ` set (sd_developers (snapshot_build c ?qs ?ws)) =
      {au_id (env_author m) | m. m \<in> set ms \<and> conversation_of m = c}"
    by (auto simp: snapshot_participants participants_of default_messages_for_def)
  ultimately show ?thesis using dev by (intro exI conjI ballI)
qed

lemma spec_skills_index:
  assumes "log_wf ms"
    and "rs_skills (phases_spec (reference_context lc projector) ms (projections_of f ms)) t = Some w"
  shows "w \<in> set (si_ownerships (skill_build (map (message_contribution f) ms)))" and "own_topic w = t"
proof -
  have "map_of (map (\<lambda>w. (own_topic w, w)) (si_ownerships (skill_build (map (message_contribution f) ms)))) t = Some w"
    using assms(2) by (simp add: phases_spec_def Let_def reference_context_def log_contributions [OF assms(1)])
  from map_of_SomeD [OF this]
  show "w \<in> set (si_ownerships (skill_build (map (message_contribution f) ms)))" "own_topic w = t" by auto
qed

text \<open>The weight of a topic in the snapshot of one of its writers is the writer's score in the index.\<close>

lemma spec_topic_weight:
  fixes lc :: "string \<Rightarrow> string" and projector :: "('s, message_envelope, projection) step"
  assumes "log_wf ms" and "\<forall>m\<in>set ms. confidence_ok (proj_confidence (f m))"
    and "m \<in> set ms" and "t \<in> set (proj_topics (f m))"
  defines "r \<equiv> phases_spec (reference_context lc projector) ms (projections_of f ms)"
  obtains sd d w e where "rs_developers r (conversation_of m) = Some sd" and "d \<in> set (sd_developers sd)"
    and "w \<in> set (si_ownerships (skill_build (map (message_contribution f) ms)))" and "own_topic w = t"
    and "e \<in> set (own_candidates w)" and "ec_author e = au_id (env_author m)" and "score_ok e"
    and "\<lparr>tw_topic = t, tw_weight = skill_score_get (ec_score e)\<rparr> \<in> set (ds_topics d)"
proof -
  let ?c = "conversation_of m"
  let ?ts = "first_seen {} (session_topics (projections_of f ms) (conversation_ids_of ms ?c))"
  let ?ws = "List.map_filter (rs_skills r) ?ts"
  let ?qs = "or_empty (participants_by_conversation ms ?c)"
  note skills = spec_skills [OF assms(1,2), of lc projector, folded r_def]
  have dev: "rs_developers r ?c = Some (snapshot_build ?c ?qs ?ws)"
    using assms(3) by (simp add: r_def phases_spec_def Let_def reference_context_def table_apply)
  have ok: "\<forall>w\<in>set ?ws. ownership_ok w" using skills(1) by (auto simp: set_map_filter)
  then have dist: "\<forall>w\<in>set ?ws. distinct (map ec_author (own_candidates w))" by (simp add: ownership_ok_def)
  have t: "t \<in> set ?ts"
    using assms(3,4) by (auto simp: set_first_seen session_topics_def stored_projections_log [OF assms(1)] default_messages_for_def)
  have writer: "au_id (env_author m) \<in> writers_on f ms t" using assms(3,4) by (auto simp: writers_on_def)
  then obtain w where w: "rs_skills r t = Some w" using skills(2) [of t] by fastforce
  then obtain e where e: "e \<in> set (own_candidates w)" "ec_author e = au_id (env_author m)"
    using skills(1) [OF w] writer by (metis (no_types, lifting) imageE)
  have ws: "w \<in> set ?ws" using w t by (auto simp: set_map_filter)
  have score: "score_ok e" using bspec [OF ok ws] e(1) by (simp add: ownership_ok_def)
  note index = spec_skills_index [OF assms(1) w [unfolded r_def]]
  have "ds_author ` set (sd_developers (snapshot_build ?c ?qs ?ws)) =
      {au_id (env_author m) | m. m \<in> set ms \<and> conversation_of m = ?c}"
    by (auto simp: snapshot_participants participants_of default_messages_for_def)
  then have "au_id (env_author m) \<in> ds_author ` set (sd_developers (snapshot_build ?c ?qs ?ws))" using assms(3) by auto
  then obtain q where q: "q \<in> set ?qs" "pt_author q = au_id (env_author m)"
    by (auto simp: snapshot_developer snapshot_of_def)
  have d: "snapshot_of ?ws q \<in> set (sd_developers (snapshot_build ?c ?qs ?ws))" using q(1) by (auto simp: snapshot_developer)
  have "\<lparr>tw_topic = t, tw_weight = skill_score_get (ec_score e)\<rparr> \<in> set (ds_topics (snapshot_of ?ws q))"
    unfolding set_ds_topics owned_topics_iff [OF dist] using ws e q(2) index(2) by auto
  from that [OF dev d index e(1,2) score this] show thesis .
qed

section \<open>A cached context does not see other conversations\<close>

text \<open>An append to another conversation changes neither the hash nor the messages of this one.\<close>

lemma other_conversation_frame:
  assumes "conversation_of m \<noteq> c"
  shows "default_messages_for (ms @ [m]) c = default_messages_for ms c" and "messages_in (ms @ [m]) c = messages_in ms c"
proof -
  show "default_messages_for (ms @ [m]) c = default_messages_for ms c"
    using assms by (simp add: default_messages_for_def conversation_of_def)
  then show "messages_in (ms @ [m]) c = messages_in ms c" by (simp add: messages_in_eq conversation_ids_of_def)
qed

context derived_cache begin

lemma warmup_after_append_elsewhere:
  assumes "ok cache" and "strategy d all s = (stores, s1)"
    and "\<forall>c x. derivation_for all stores c = Some x \<longrightarrow> storable x"
    and "c \<in> set (conversations all)" and "derivation_for all stores c = Some x"
    and "replay_command put reclaim hasher strategy d version router all (cache, s) = (out, (cache', s1))"
    and "conversation_of m \<noteq> c"
  shows "warmup_command get put reclaim hasher strategy' d' version router (all @ [m]) c (cache', t) =
    warmup_command get put reclaim hasher strategy' d' version router all c (cache', t)"
  using warmup_after_replay(2) [OF assms(1-6), of strategy' d' t]
    populate_get [OF assms(1,3,5,4), of hasher version] assms(2,6)
  by (simp add: warmup_command_def other_conversation_frame [OF assms(7)] replay_command_def Let_def case_prod_unfold
      content_hash_eq split: option.split)

end

end
