(* ===== verification/Opening.thy ===== *)
theory Opening
  imports Main Prelude Model MessageLog Sqlite SqliteLog
begin

text \<open>
  Several processes on one database file. Each runs the openings of a command, batch by batch
  (\<open>migrate\<close> in \<open>crates/mirrorlane-storage/src/sqlite_common.rs\<close>), and then appends messages; SQLite
  serialises the batches and statements, so a run is one sequence of events in which the processes
  take turns, and a process may vanish between any two of them. The version of the file is read
  before the batches run, so a slow process migrates by a version that is out of date.
\<close>

section \<open>One process\<close>

type_synonym schema = "statement list list"

text \<open>
  \<open>Opening stores\<close> has the stores still to open; \<open>Migrating current i steps stores\<close> is in the loop of
  \<open>migrate\<close>, at the \<open>i\<close>th step, after reading \<open>current\<close>.
\<close>

datatype process =
    Gone
  | Opening "schema list"
  | Migrating int nat schema "schema list"
  | Ready

fun tick :: "process \<Rightarrow> sqlite_db \<Rightarrow> process \<times> sqlite_db" where
  "tick Gone db = (Gone, db)"
| "tick (Opening []) db = (Ready, db)"
| "tick (Opening (steps # stores)) db = (Migrating (db_user_version db) 0 steps stores, db)"
| "tick (Migrating current i [] stores) db = (Opening stores, db)"
| "tick (Migrating current i (step # steps) stores) db =
     (if int i < current then (Migrating current (Suc i) steps stores, db)
      else case execute_batch (step @ [set_user_version (int i + 1)]) db of
             None \<Rightarrow> (Gone, db)
           | Some db' \<Rightarrow> (Migrating current (Suc i) steps stores, db'))"
| "tick Ready db = (Ready, db)"

text \<open>The number of ticks a process has left until it is ready.\<close>

fun todo :: "process \<Rightarrow> nat" where
  "todo Gone = 0"
| "todo (Opening stores) = Suc (sum_list (map (\<lambda>steps. length steps + 2) stores))"
| "todo (Migrating current i steps stores) =
     Suc (length steps) + Suc (sum_list (map (\<lambda>steps. length steps + 2) stores))"
| "todo Ready = 0"

fun ticks :: "nat \<Rightarrow> process \<Rightarrow> sqlite_db \<Rightarrow> process \<times> sqlite_db" where
  "ticks 0 p db = (p, db)"
| "ticks (Suc n) p db = (let (p', db') = tick p db in ticks n p' db')"

lemma ticks_add: "ticks (m + n) p db = (let (p', db') = ticks m p db in ticks n p' db')"
  by (induction m arbitrary: p db) (auto simp: Let_def split: prod.split)

lemma ticks_Ready [simp]: "ticks n Ready db = (Ready, db)"
  by (induction n) simp_all

lemma ticks_Gone [simp]: "ticks n Gone db = (Gone, db)"
  by (induction n) simp_all

text \<open>A process left alone does what \<open>migrate\<close> does.\<close>

lemma ticks_migrate_loop:
  assumes "migrate_loop i current steps db = (True, db')"
  shows "ticks (Suc (length steps)) (Migrating current i steps stores) db = (Opening stores, db')"
  using assms by (induction steps arbitrary: i db) (auto split: if_splits option.splits)

lemma ticks_migrate_loop_fails:
  assumes "migrate_loop i current steps db = (False, db')"
  shows "ticks (Suc (length steps)) (Migrating current i steps stores) db = (Gone, db')"
  using assms by (induction steps arbitrary: i db) (auto split: if_splits option.splits)

lemma ticks_migrate:
  "migrate steps db = (b, db') \<Longrightarrow>
    ticks (length steps + 2) (Opening (steps # stores)) db = ((if b then Opening stores else Gone), db')"
  using ticks_migrate_loop [of 0 _ steps db db' stores] ticks_migrate_loop_fails [of 0 _ steps db db' stores]
  by (cases b) (simp_all add: migrate_def del: ticks.simps(2) add: ticks.simps(2) [of "Suc (length steps)"])

text \<open>So a process left alone opens a file the way \<open>main\<close> opens it: the log, then the traces.\<close>

lemma ticks_open:
  assumes "message_store_init db = (True, db1)" and "trace_store_init db1 = (b, db2)"
  shows "ticks 7 (Opening [message_steps, [[create_traces]]]) db = ((if b then Opening [] else Gone), db2)"
proof -
  have one: "ticks 4 (Opening [message_steps, [[create_traces]]]) db = (Opening [[[create_traces]]], db1)"
    using ticks_migrate [OF assms(1) [unfolded message_store_init_def], of "[[[create_traces]]]"]
    by (simp add: length_message_steps)
  have two: "ticks 3 (Opening [[[create_traces]]]) db1 = ((if b then Opening [] else Gone), db2)"
    using ticks_migrate [OF assms(2) [unfolded trace_store_init_def], of "[]"]
    by (simp add: numeral_3_eq_3 del: ticks.simps tick.simps)
  have "ticks (4 + 3) (Opening [message_steps, [[create_traces]]]) db = ((if b then Opening [] else Gone), db2)"
    unfolding ticks_add one by (simp add: two)
  then show ?thesis by simp
qed

section \<open>Several processes\<close>

record world =
  w_file :: sqlite_db
  w_processes :: "nat \<Rightarrow> process"

definition world_start :: world where
  "world_start = \<lparr>w_file = db_empty, w_processes = (\<lambda>_. Gone)\<rparr>"

text \<open>
  \<open>Start p stores\<close> is a new process that opens the given stores, \<open>Crash\<close> the end of one, in whatever
  state: it is killed, it has done its work, or a batch of it gives up waiting for SQLite's lock, is
  rolled back, and the opening fails. An append that panics is the end of the process too.
\<close>

datatype event =
    Start nat "schema list"
  | Tick nat
  | Append nat message_envelope
  | Crash nat

fun happen :: "(message_envelope \<Rightarrow> string) \<Rightarrow> event \<Rightarrow> world \<Rightarrow> world" where
  "happen enc (Start p stores) w =
     (if w_processes w p = Gone then w\<lparr>w_processes := (w_processes w)(p := Opening stores)\<rparr> else w)"
| "happen enc (Tick p) w =
     (let (q, db) = tick (w_processes w p) (w_file w) in
      \<lparr>w_file = db, w_processes = (w_processes w)(p := q)\<rparr>)"
| "happen enc (Append p m) w =
     (if w_processes w p = Ready then
        (case sqlite_append enc m (w_file w) of
           None \<Rightarrow> w\<lparr>w_processes := (w_processes w)(p := Gone)\<rparr>
         | Some db \<Rightarrow> w\<lparr>w_file := db\<rparr>)
      else w)"
| "happen enc (Crash p) w = w\<lparr>w_processes := (w_processes w)(p := Gone)\<rparr>"

fun history :: "(message_envelope \<Rightarrow> string) \<Rightarrow> event list \<Rightarrow> world \<Rightarrow> world" where
  "history enc [] w = w"
| "history enc (e # es) w = history enc es (happen enc e w)"

lemma history_append: "history enc (es @ fs) w = history enc fs (history enc es w)"
  by (induction es arbitrary: w) simp_all

text \<open>The messages that were appended along a history, as the appending processes saw it.\<close>

fun appended :: "(message_envelope \<Rightarrow> string) \<Rightarrow> event list \<Rightarrow> world \<Rightarrow> message_envelope list" where
  "appended enc [] w = []"
| "appended enc (e # es) w =
     (case e of Append p m \<Rightarrow> if w_processes w p = Ready then [m] else [] | _ \<Rightarrow> []) @
     appended enc es (happen enc e w)"

text \<open>
  What the commands open: the message log first, then other stores, the log perhaps once more.
\<close>

definition side_schemas :: "schema set" where
  "side_schemas = {[[create_traces]], [[create_derived]], [[create_projections]]}"

definition command_stores :: "schema list \<Rightarrow> bool" where
  "command_stores stores \<longleftrightarrow>
     (\<exists>rest. stores = message_steps # rest \<and> set rest \<subseteq> insert message_steps side_schemas)"

definition event_ok :: "(message_envelope \<Rightarrow> bool) \<Rightarrow> event \<Rightarrow> bool" where
  "event_ok storable e =
     (case e of Start p stores \<Rightarrow> command_stores stores | Append p m \<Rightarrow> storable m | _ \<Rightarrow> True)"

section \<open>The invariant\<close>

text \<open>
  Before the first batch the file has no log, and its version is zero. From then on the log is
  there and stays, holding exactly \<open>ms\<close> under the sequence numbers one to \<open>length ms\<close>; the tables of
  the other stores are never created, since their one step is taken for done.
\<close>

definition no_side_tables :: "sqlite_db \<Rightarrow> bool" where
  "no_side_tables db \<longleftrightarrow> db_derived db = None \<and> db_projections db = None \<and> db_traces db = None"

definition file_holds ::
  "(string \<Rightarrow> message_envelope option) \<Rightarrow> json_extract \<Rightarrow> message_envelope list \<Rightarrow> sqlite_db \<Rightarrow> bool" where
  "file_holds dec jget ms db \<longleftrightarrow>
     db_messages_v2 db = None \<and> no_side_tables db \<and>
     (case db_messages db of
        None \<Rightarrow> db_user_version db = 0 \<and> ms = []
      | Some rows \<Rightarrow> db_user_version db \<in> {1, 2} \<and> distinct (map mr_id rows) \<and>
          map mr_seq rows = map int [1..<Suc (length rows)] \<and> list_all2 (row_message dec jget) rows ms)"

definition has_log :: "sqlite_db \<Rightarrow> bool" where
  "has_log db \<longleftrightarrow> db_messages db \<noteq> None"

fun process_ok :: "sqlite_db \<Rightarrow> process \<Rightarrow> bool" where
  "process_ok db Gone = True"
| "process_ok db (Opening stores) =
     (command_stores stores \<or> has_log db \<and> set stores \<subseteq> insert message_steps side_schemas)"
| "process_ok db (Migrating current i steps stores) =
     (set stores \<subseteq> insert message_steps side_schemas \<and> 0 \<le> current \<and> (1 \<le> current \<longrightarrow> has_log db) \<and>
      (steps = drop i message_steps \<and> (1 \<le> i \<longrightarrow> has_log db) \<or>
       has_log db \<and> 1 \<le> current \<and> (\<exists>S\<in>side_schemas. steps = drop i S)))"
| "process_ok db Ready = has_log db"

lemma process_ok_mono: "process_ok db p \<Longrightarrow> (has_log db \<Longrightarrow> has_log db') \<Longrightarrow> process_ok db' p"
  by (cases p) auto

lemma file_holds_start: "file_holds dec jget [] db_empty"
  by (simp add: file_holds_def db_empty_def no_side_tables_def)

text \<open>The two batches of the log.\<close>

lemma seqs_ascending: "map mr_seq rows = map int [1..<Suc n] \<Longrightarrow> sorted_wrt (<) (map mr_seq rows)"
  by (simp add: sorted_wrt_map del: upt_Suc)

lemma first_batch:
  assumes "file_holds dec jget ms db"
  obtains db' where "execute_batch (message_steps ! 0 @ [set_user_version 1]) db = Some db'"
    and "file_holds dec jget ms db'" and "has_log db'"
proof (cases "db_messages db")
  case None
  let ?db = "db\<lparr>db_messages := Some [], db_user_version := 1\<rparr>"
  show thesis
    by (rule that [of ?db])
      (use assms None in \<open>simp_all add: message_steps_def create_messages_def set_user_version_def
        file_holds_def no_side_tables_def has_log_def\<close>)
next
  case (Some rows)
  let ?db = "db\<lparr>db_user_version := 1\<rparr>"
  show thesis
    by (rule that [of ?db])
      (use assms Some in \<open>simp_all add: message_steps_def create_messages_def set_user_version_def
        file_holds_def no_side_tables_def has_log_def del: upt_Suc\<close>)
qed

lemma second_batch:
  assumes "file_holds dec jget ms db" and "has_log db"
  obtains db' where "execute_batch (message_steps ! 1 @ [set_user_version 2]) db = Some db'"
    and "file_holds dec jget ms db'" and "has_log db'"
proof -
  obtain rows where rows: "db_messages db = Some rows" using assms(2) by (auto simp: has_log_def)
  have seqs: "map mr_seq rows = map int [1..<Suc (length rows)]" and ids: "distinct (map mr_id rows)"
    and all2: "list_all2 (row_message dec jget) rows ms" and new: "db_messages_v2 db = None"
    using assms(1) by (simp_all add: file_holds_def rows del: upt_Suc)
  note r = ids seqs_ascending [OF seqs] all2
  note renumbered = renumbered_rows [OF r(2,3)]
  have len: "length (renumbered rows) = length rows" using renumbered(1) by (metis length_map)
  let ?db = "db\<lparr>db_messages := Some (renumbered rows), db_user_version := 2\<rparr>"
  show thesis
  proof (rule that [of ?db])
    show "execute_batch (message_steps ! 1 @ [set_user_version 2]) db = Some ?db"
      unfolding execute_batch_append using message_store_rebuild [OF r(1) rows new]
      by (simp add: message_steps_def set_user_version_def)
    show "file_holds dec jget ms ?db"
      using assms(1) r(1) renumbered(1,2) renumbered_seqs [of rows] len
      by (simp add: file_holds_def no_side_tables_def del: upt_Suc)
  qed (simp add: has_log_def)
qed

section \<open>Every event keeps it\<close>

lemma tick_ok:
  assumes "file_holds dec jget ms db" and "process_ok db p" and "tick p db = (q, db')"
  shows "file_holds dec jget ms db'" and "process_ok db' q" and "has_log db \<Longrightarrow> has_log db'"
    and "p \<noteq> Gone \<Longrightarrow> q \<noteq> Gone" and "todo q = todo p - 1"
proof -
  have all: "file_holds dec jget ms db' \<and> process_ok db' q \<and> (has_log db \<longrightarrow> has_log db') \<and>
    (p \<noteq> Gone \<longrightarrow> q \<noteq> Gone) \<and> todo q = todo p - 1"
  proof (cases p)
    case Gone
    then show ?thesis using assms by simp
  next
    case Ready
    then show ?thesis using assms by simp
  next
    case (Opening stores)
    show ?thesis
    proof (cases stores)
      case Nil
      then show ?thesis using assms Opening by (auto simp: command_stores_def)
    next
      case (Cons steps rest)
      have "0 \<le> db_user_version db" "1 \<le> db_user_version db \<longleftrightarrow> has_log db"
        using assms(1) by (auto simp: file_holds_def has_log_def split: option.splits)
      moreover have "\<exists>S\<in>side_schemas. steps = drop 0 S" if "steps \<in> side_schemas" using that by auto
      ultimately show ?thesis
        using assms Opening Cons by (auto simp: command_stores_def)
    qed
  next
    case (Migrating current i steps stores)
    show ?thesis
    proof (cases steps)
      case Nil
      have "has_log db" using assms(2) Migrating Nil by (auto simp: message_steps_def)
      then show ?thesis using assms Migrating Nil by auto
    next
      case (Cons step rest)
      have drops: "steps = drop i S \<Longrightarrow> rest = drop (Suc i) S" for S using Cons by (metis drop_Suc list.sel(3) tl_drop)
      show ?thesis
      proof (cases "int i < current")
        case True
        then have "has_log db" using assms(2) Migrating by auto
        with True drops show ?thesis using assms Migrating Cons by auto
      next
        case False
        then have "\<not> (1 \<le> current \<and> (\<exists>S\<in>side_schemas. steps = drop i S))"
          using Cons by (auto simp: side_schemas_def)
        then have own: "steps = drop i message_steps" and log: "1 \<le> i \<longrightarrow> has_log db"
          using assms(2) Migrating by auto
        have i: "i < 2" using own Cons by (cases "i < 2") (simp_all add: length_message_steps)
        then have "step": "step = message_steps ! i" using own Cons
          by (metis length_message_steps Cons_nth_drop_Suc list.sel(1))
        obtain db1 where db1: "execute_batch (step @ [set_user_version (int i + 1)]) db = Some db1"
          "file_holds dec jget ms db1" "has_log db1"
        proof (cases "i = 0")
          case True
          then show thesis using first_batch [OF assms(1)] that "step" by auto
        next
          case False
          then have "i = 1" using i by simp
          then show thesis using second_batch [OF assms(1)] log that "step" by auto
        qed
        have "tick p db = (Migrating current (Suc i) rest stores, db1)"
          using False by (simp add: Migrating Cons db1(1))
        then have "q = Migrating current (Suc i) rest stores" "db' = db1" using assms(3) by simp_all
        moreover have "set stores \<subseteq> insert message_steps side_schemas" "0 \<le> current"
          using assms(2) Migrating by simp_all
        ultimately show ?thesis using db1(2,3) drops [OF own] by (simp add: Migrating Cons)
      qed
    qed
  qed
  then show "file_holds dec jget ms db'" "process_ok db' q" "has_log db \<Longrightarrow> has_log db'"
    "p \<noteq> Gone \<Longrightarrow> q \<noteq> Gone" "todo q = todo p - 1" by blast+
qed

text \<open>One event: the file holds what was appended, and no process is left behind.\<close>

definition world_ok ::
  "(string \<Rightarrow> message_envelope option) \<Rightarrow> json_extract \<Rightarrow> message_envelope list \<Rightarrow> world \<Rightarrow> bool" where
  "world_ok dec jget ms w \<longleftrightarrow> file_holds dec jget ms (w_file w) \<and> (\<forall>p. process_ok (w_file w) (w_processes w p))"

lemma world_ok_start: "world_ok dec jget [] world_start"
  by (simp add: world_ok_def world_start_def file_holds_start)

lemma next_seq_gap_free:
  assumes "map mr_seq rows = map int [1..<Suc (length rows)]"
  shows "next_seq rows = int (Suc (length rows))"
proof (cases "rows = []")
  case False
  then have "Max (set (map mr_seq rows)) = int (length rows)"
    unfolding assms by (intro Max_eqI) (auto simp: image_iff Bex_def Suc_le_eq simp del: upt_Suc)
  with False show ?thesis by (simp add: next_seq_def)
qed (simp add: next_seq_def)

lemma append_holds:
  assumes "file_holds dec jget ms db" and "has_log db" and "message_storable enc dec jget m"
  obtains db' where "sqlite_append enc m db = Some db'" and "file_holds dec jget (log_append m ms) db'"
    and "has_log db'"
proof -
  obtain rows where rows: "db_messages db = Some rows" using assms(2) by (auto simp: has_log_def)
  have seqs: "map mr_seq rows = map int [1..<Suc (length rows)]" and ids: "distinct (map mr_id rows)"
    and all2: "list_all2 (row_message dec jget) rows ms"
    using assms(1) by (simp_all add: file_holds_def rows del: upt_Suc)
  let ?i = "message_id_str (env_id m)"
  have mem: "?i \<in> set (map mr_id rows) \<longleftrightarrow> env_id m \<in> env_id ` set ms"
    unfolding rows_ids [OF all2] by (auto intro: message_id.expand)
  show thesis
  proof (cases "?i \<in> set (map mr_id rows)")
    case True
    let ?rows = "map (\<lambda>r. if mr_id r = ?i then r\<lparr>mr_payload := enc m\<rparr> else r) rows"
    have keys: "map mr_id ?rows = map mr_id rows" "map mr_seq ?rows = map mr_seq rows"
      unfolding map_map by (auto intro: map_cong)
    have new: "list_all2 (row_message dec jget) ?rows (log_append m ms)"
      by (rule rows_replace [OF assms(3) all2 ids]) (use True mem in blast)
    show thesis
    proof (rule that [of "db\<lparr>db_messages := Some ?rows\<rparr>"])
      show "sqlite_append enc m db = Some (db\<lparr>db_messages := Some ?rows\<rparr>)"
        using True by (simp add: sqlite_append_def rows Let_def)
      show "file_holds dec jget (log_append m ms) (db\<lparr>db_messages := Some ?rows\<rparr>)"
        using assms(1) ids seqs keys new by (simp add: file_holds_def no_side_tables_def rows del: upt_Suc map_map)
    qed (simp add: has_log_def)
  next
    case False
    have "next_seq rows = int (Suc (length rows))" by (rule next_seq_gap_free [OF seqs])
    then have new_seqs: "map mr_seq (rows @ [\<lparr>mr_id = ?i, mr_seq = next_seq rows, mr_payload = enc m\<rparr>]) =
        map int [1..<Suc (Suc (length rows))]"
      using seqs by simp
    let ?rows = "rows @ [\<lparr>mr_id = ?i, mr_seq = next_seq rows, mr_payload = enc m\<rparr>]"
    have new: "list_all2 (row_message dec jget) ?rows (log_append m ms)"
      using rows_append_new [OF assms(3) all2] False mem by (simp add: log_append_new)
    show thesis
    proof (rule that [of "db\<lparr>db_messages := Some ?rows\<rparr>"])
      show "sqlite_append enc m db = Some (db\<lparr>db_messages := Some ?rows\<rparr>)"
        using False by (simp add: sqlite_append_def rows Let_def)
      show "file_holds dec jget (log_append m ms) (db\<lparr>db_messages := Some ?rows\<rparr>)"
        using assms(1) ids False new_seqs new by (simp add: file_holds_def no_side_tables_def rows del: upt_Suc)
    qed (simp add: has_log_def)
  qed
qed

lemma happen_ok:
  assumes "world_ok dec jget ms w" and "event_ok (message_storable enc dec jget) e"
  shows "world_ok dec jget (fold log_append (appended enc [e] w) ms) (happen enc e w)"
    and "(case e of Crash q \<Rightarrow> q \<noteq> p | _ \<Rightarrow> True) \<Longrightarrow> w_processes w p \<noteq> Gone \<Longrightarrow>
      w_processes (happen enc e w) p \<noteq> Gone \<and>
      todo (w_processes (happen enc e w) p) = todo (w_processes w p) - (if e = Tick p then 1 else 0)"
proof -
  note holds = assms(1) [unfolded world_ok_def, THEN conjunct1]
  note procs = assms(1) [unfolded world_ok_def, THEN conjunct2, rule_format]
  have "world_ok dec jget (fold log_append (appended enc [e] w) ms) (happen enc e w) \<and>
    ((case e of Crash q \<Rightarrow> q \<noteq> p | _ \<Rightarrow> True) \<longrightarrow> w_processes w p \<noteq> Gone \<longrightarrow>
      w_processes (happen enc e w) p \<noteq> Gone \<and>
      todo (w_processes (happen enc e w) p) = todo (w_processes w p) - (if e = Tick p then 1 else 0))"
  proof (cases e)
    case (Start q stores)
    then have "command_stores stores" using assms(2) by (simp add: event_ok_def)
    then show ?thesis using holds procs by (simp add: Start world_ok_def)
  next
    case (Tick q)
    obtain r db where t: "tick (w_processes w q) (w_file w) = (r, db)" by (metis prod.collapse)
    note ok = tick_ok [OF holds procs t]
    have "process_ok db (w_processes w k)" for k by (rule process_ok_mono [OF procs ok(3)])
    then show ?thesis using ok by (auto simp: Tick t world_ok_def)
  next
    case (Append q m)
    show ?thesis
    proof (cases "w_processes w q = Ready")
      case True
      then have log: "has_log (w_file w)" using procs [of q] by simp
      have m: "message_storable enc dec jget m" using assms(2) Append by (simp add: event_ok_def)
      obtain db where db: "sqlite_append enc m (w_file w) = Some db" "file_holds dec jget (log_append m ms) db" "has_log db"
        by (rule append_holds [OF holds log m])
      have "process_ok db (w_processes w k)" for k by (rule process_ok_mono [OF procs db(3)])
      then show ?thesis using True db by (simp add: Append world_ok_def)
    next
      case False
      then show ?thesis using assms(1) by (simp add: Append)
    qed
  next
    case (Crash q)
    then show ?thesis using holds procs by (simp add: world_ok_def)
  qed
  then show "world_ok dec jget (fold log_append (appended enc [e] w) ms) (happen enc e w)"
    and "(case e of Crash q \<Rightarrow> q \<noteq> p | _ \<Rightarrow> True) \<Longrightarrow> w_processes w p \<noteq> Gone \<Longrightarrow>
      w_processes (happen enc e w) p \<noteq> Gone \<and>
      todo (w_processes (happen enc e w) p) = todo (w_processes w p) - (if e = Tick p then 1 else 0)" by blast+
qed

section \<open>Histories\<close>

lemma history_ok:
  assumes "world_ok dec jget ms w" and "\<forall>e\<in>set es. event_ok (message_storable enc dec jget) e"
  shows "world_ok dec jget (fold log_append (appended enc es w) ms) (history enc es w)"
  using assms
proof (induction es arbitrary: w ms)
  case (Cons e es)
  have "world_ok dec jget (fold log_append (appended enc [e] w) ms) (happen enc e w)"
    by (rule happen_ok(1)) (use Cons.prems in simp_all)
  from Cons.IH [OF this] Cons.prems(2) show ?case by simp
qed simp

text \<open>
  What the others do neither hinders nor undoes the opening of a process: it is ready as soon as it
  has had its own turns.
\<close>

definition turns :: "nat \<Rightarrow> event list \<Rightarrow> nat" where
  "turns p es = length (filter (\<lambda>e. e = Tick p) es)"

lemma history_progress:
  assumes "world_ok dec jget ms w" and "\<forall>e\<in>set es. event_ok (message_storable enc dec jget) e"
    and "Crash p \<notin> set es" and "w_processes w p \<noteq> Gone"
  shows "w_processes (history enc es w) p \<noteq> Gone"
    and "todo (w_processes (history enc es w) p) = todo (w_processes w p) - turns p es"
proof -
  have "w_processes (history enc es w) p \<noteq> Gone \<and>
      todo (w_processes (history enc es w) p) = todo (w_processes w p) - turns p es"
    using assms
  proof (induction es arbitrary: w ms)
    case (Cons e es)
    have e: "event_ok (message_storable enc dec jget) e" using Cons.prems(2) by simp
    have crash: "case e of Crash q \<Rightarrow> q \<noteq> p | _ \<Rightarrow> True" using Cons.prems(3) by (auto split: event.split)
    note one = happen_ok(2) [OF Cons.prems(1) e crash Cons.prems(4)]
    from Cons.IH [OF happen_ok(1) [OF Cons.prems(1) e] _ _ one [THEN conjunct1]] Cons.prems(2,3) one
    show ?case by (simp add: turns_def)
  qed (simp add: turns_def)
  then show "w_processes (history enc es w) p \<noteq> Gone"
    and "todo (w_processes (history enc es w) p) = todo (w_processes w p) - turns p es" by blast+
qed

lemma todo_ready: "p \<noteq> Gone \<Longrightarrow> todo p = 0 \<longleftrightarrow> p = Ready"
  by (cases p) simp_all

end
