(* ===== verification/Interleaving.thy ===== *)
theory Interleaving
  imports Main Prelude Model Derivation Replay Derived Sqlite SqliteCaches
begin

text \<open>
  Two runs on one cache. \<open>populate_cache\<close> (\<open>crates/mirrorlane-worker/src/derived.rs\<close>) is taken apart
  into the statements it issues, a write and a reclaim for each conversation; each of them is one
  SQL statement, so runs of several processes interleave at them.
\<close>

section \<open>The statements of a run\<close>

datatype cache_statement =
    PutDerived step_version conversation_id string conversation_derivation
  | ReclaimSuperseded conversation_id step_version string

fun exec_statement ::
  "('c \<Rightarrow> step_version \<Rightarrow> conversation_id \<Rightarrow> string \<Rightarrow> conversation_derivation \<Rightarrow> 'c) \<Rightarrow>
   ('c \<Rightarrow> conversation_id \<Rightarrow> step_version \<Rightarrow> string \<Rightarrow> 'c) \<Rightarrow> cache_statement \<Rightarrow> 'c \<Rightarrow> 'c" where
  "exec_statement put reclaim (PutDerived v c x d) cache = put cache v c x d"
| "exec_statement put reclaim (ReclaimSuperseded c v x) cache = reclaim cache c v x"

fun statement_conversation :: "cache_statement \<Rightarrow> conversation_id" where
  "statement_conversation (PutDerived v c x d) = c"
| "statement_conversation (ReclaimSuperseded c v x) = c"

fun loop_statements ::
  "hash_function \<Rightarrow> replay_stores \<Rightarrow> step_version \<Rightarrow> (conversation_id \<rightharpoonup> message_envelope list) \<Rightarrow>
   conversation_id list \<Rightarrow> cache_statement list" where
  "loop_statements hasher stores version groups [] = []"
| "loop_statements hasher stores version groups (c # cs) =
     (let messages = or_empty (groups c) in
      (case derivation_from_messages stores c messages of
         None \<Rightarrow> []
       | Some d \<Rightarrow>
           (let content = content_hash_of hasher messages in
            [PutDerived version c content d, ReclaimSuperseded c version content])) @
      loop_statements hasher stores version groups cs)"

definition populate_statements ::
  "hash_function \<Rightarrow> message_envelope list \<Rightarrow> replay_stores \<Rightarrow> step_version \<Rightarrow> cache_statement list" where
  "populate_statements hasher all stores version =
     (let (order, groups) = group_loop (\<lambda>m. m) all ([], Map.empty) in
      loop_statements hasher stores version groups order)"

text \<open>A run on its own executes them in order.\<close>

lemma populate_executes:
  "snd (populate_cache put reclaim hasher all stores cache version) =
    fold (exec_statement put reclaim) (populate_statements hasher all stores version) cache"
proof -
  have "snd (populate_loop put reclaim hasher stores version groups cs cache) =
      fold (exec_statement put reclaim) (loop_statements hasher stores version groups cs) cache" for groups cs cache
    by (induction cs arbitrary: cache) (auto simp: Let_def case_prod_unfold split: option.split)
  then show ?thesis by (simp add: populate_cache_def populate_statements_def case_prod_unfold Let_def)
qed

lemma populate_statements_eq:
  "populate_statements hasher all stores version =
    concat (map (\<lambda>c. case derivation_for all stores c of
        None \<Rightarrow> []
      | Some d \<Rightarrow> [PutDerived version c (content_hash hasher all c) d,
                   ReclaimSuperseded c version (content_hash hasher all c)]) (conversations all))"
proof -
  have loop: "loop_statements hasher stores version groups cs =
      concat (map (\<lambda>c. case derivation_from_messages stores c (or_empty (groups c)) of
        None \<Rightarrow> []
      | Some d \<Rightarrow> [PutDerived version c (content_hash_of hasher (or_empty (groups c))) d,
                   ReclaimSuperseded c version (content_hash_of hasher (or_empty (groups c)))]) cs)" for groups cs
    by (induction cs) (auto simp: Let_def split: option.split)
  show ?thesis
    unfolding populate_statements_def group_messages_eq
    by (simp add: loop conversations_eq derivation_for_eq content_hash_eq or_empty_def)
      (rule arg_cong [where f = concat], rule map_cong, simp_all add: default_messages_empty content_hash_eq or_empty_def split: option.split)
qed

section \<open>Any order is sound\<close>

context derived_cache begin

definition statement_storable :: "cache_statement \<Rightarrow> bool" where
  "statement_storable st = (case st of PutDerived v c x d \<Rightarrow> storable d | ReclaimSuperseded c v x \<Rightarrow> True)"

text \<open>
  Whatever the order, and whichever statements were never reached, an answer is one that was there
  or one that was written under its key.
\<close>

lemma statements_sound:
  assumes "ok cache" and "\<forall>st\<in>set sts. statement_storable st"
  shows "ok (fold (exec_statement put reclaim) sts cache)"
    and "get (fold (exec_statement put reclaim) sts cache) v c x = Some d \<Longrightarrow>
      get cache v c x = Some d \<or> PutDerived v c x d \<in> set sts"
proof -
  have "ok (fold (exec_statement put reclaim) sts cache) \<and>
    (get (fold (exec_statement put reclaim) sts cache) v c x = Some d \<longrightarrow>
      get cache v c x = Some d \<or> PutDerived v c x d \<in> set sts)"
    using assms
  proof (induction sts arbitrary: cache)
    case (Cons st sts)
    show ?case
    proof (cases st)
      case (PutDerived v' c' x' d')
      then have "storable d'" using Cons.prems(2) by (simp add: statement_storable_def)
      with Cons.IH [of "put cache v' c' x' d'"] Cons.prems PutDerived show ?thesis
        by (auto simp: ok_put get_put split: if_splits)
    next
      case (ReclaimSuperseded c' v' x')
      with Cons.IH [of "reclaim cache c' v' x'"] Cons.prems show ?thesis
        using reclaim_shrinks [OF Cons.prems(1)] by (auto simp: ok_reclaim)
    qed
  qed simp
  then show "ok (fold (exec_statement put reclaim) sts cache)"
    and "get (fold (exec_statement put reclaim) sts cache) v c x = Some d \<Longrightarrow>
      get cache v c x = Some d \<or> PutDerived v c x d \<in> set sts" by blast+
qed

text \<open>Statements on other conversations do not matter to a conversation.\<close>

lemma statements_other:
  assumes "ok cache" and "\<forall>st\<in>set sts. statement_storable st"
    and "\<forall>st\<in>set sts. statement_conversation st \<noteq> c"
  shows "get (fold (exec_statement put reclaim) sts cache) v c x = get cache v c x"
  using assms
proof (induction sts arbitrary: cache)
  case (Cons st sts)
  show ?case
  proof (cases st)
    case (PutDerived v' c' x' d')
    then have "storable d'" "c \<noteq> c'" using Cons.prems by (auto simp: statement_storable_def)
    with Cons.IH [of "put cache v' c' x' d'"] Cons.prems PutDerived show ?thesis by (simp add: ok_put get_put)
  next
    case (ReclaimSuperseded c' v' x')
    then have "get (reclaim cache c' v' x') v c x = get cache v c x"
      using Cons.prems by (intro reclaim_keeps) auto
    with Cons.IH [of "reclaim cache c' v' x'"] Cons.prems ReclaimSuperseded show ?thesis by (simp add: ok_reclaim)
  qed
qed simp

lemma populate_statements_storable:
  "\<forall>c d. derivation_for all stores c = Some d \<longrightarrow> storable d \<Longrightarrow>
    \<forall>st\<in>set (populate_statements hasher all stores version). statement_storable st"
  by (auto simp: populate_statements_eq statement_storable_def split: option.splits)

end

section \<open>A conversation's statements\<close>

lemma populate_puts:
  "PutDerived v c x d \<in> set (populate_statements hasher all stores version) \<longleftrightarrow>
    c \<in> set (conversations all) \<and> derivation_for all stores c = Some d \<and> v = version \<and> x = content_hash hasher all c"
  by (auto simp: populate_statements_eq split: option.splits)

lemma populate_splits:
  assumes "c \<in> set (conversations all)" and "derivation_for all stores c = Some d"
  obtains before after where "populate_statements hasher all stores version =
      before @ [PutDerived version c (content_hash hasher all c) d,
                ReclaimSuperseded c version (content_hash hasher all c)] @ after"
    and "\<forall>st\<in>set before. statement_conversation st \<noteq> c" and "\<forall>st\<in>set after. statement_conversation st \<noteq> c"
proof -
  let ?f = "\<lambda>c. case derivation_for all stores c of
      None \<Rightarrow> []
    | Some d \<Rightarrow> [PutDerived version c (content_hash hasher all c) d,
                 ReclaimSuperseded c version (content_hash hasher all c)]"
  have own: "\<forall>st\<in>set (?f c'). statement_conversation st = c'" for c' by (auto split: option.splits)
  have "distinct (conversations all)" by (simp add: conversations_eq)
  then obtain cs ds where cs: "conversations all = cs @ c # ds" "c \<notin> set cs" "c \<notin> set ds"
    using split_list [OF assms(1)] by (metis Un_iff distinct.simps(2) distinct_append disjoint_iff list.set_intros(1))
  show thesis
  proof (rule that [of "concat (map ?f cs)" "concat (map ?f ds)"])
    show "populate_statements hasher all stores version =
        concat (map ?f cs) @ [PutDerived version c (content_hash hasher all c) d,
          ReclaimSuperseded c version (content_hash hasher all c)] @ concat (map ?f ds)"
      by (simp add: populate_statements_eq cs(1) assms(2))
    show "\<forall>st\<in>set (concat (map ?f cs)). statement_conversation st \<noteq> c" using own cs(2) by fastforce
    show "\<forall>st\<in>set (concat (map ?f ds)). statement_conversation st \<noteq> c" using own cs(3) by fastforce
  qed
qed

section \<open>Interleavings\<close>

lemma shuffles_prepend_left: "zs \<in> shuffles xs ys \<Longrightarrow> ws @ zs \<in> shuffles (ws @ xs) ys"
  by (induction ws) (simp_all add: Cons_in_shuffles_leftI)

lemma shuffles_prepend_right: "zs \<in> shuffles xs ys \<Longrightarrow> ws @ zs \<in> shuffles xs (ws @ ys)"
  by (induction ws) (simp_all add: Cons_in_shuffles_rightI)

text \<open>The second list is run in the middle of the first.\<close>

lemma shuffles_inside: "xs @ ys @ zs \<in> shuffles (xs @ zs) ys"
proof -
  have "ys @ zs \<in> shuffles zs (ys @ [])" by (rule shuffles_prepend_right) simp
  then show ?thesis using shuffles_prepend_left by simp
qed

section \<open>Two processes on one table\<close>

definition sqlite_exec :: "(conversation_derivation \<Rightarrow> string) \<Rightarrow> cache_statement \<Rightarrow> sqlite_db \<Rightarrow> sqlite_db" where
  "sqlite_exec enc =
     exec_statement (\<lambda>db v c x d. the (sqlite_derived_put enc db v c x d)) sqlite_derived_reclaim"

text \<open>
  A lookup after a conversation's two statements, and after a whole run: the entry written, and
  nothing else.
\<close>

lemma reclaim_leaves:
  assumes "sqlite_derived_ok dec db"
  shows "the (sqlite_derived_get dec (sqlite_derived_reclaim db c v x) v' c x') =
    (if (v', x') = (v, x) then the (sqlite_derived_get dec db v c x) else None)"
  using sqlite_derived_reclaim_lookup(2) [OF assms, of c v x v' c x'] by auto

lemma get_eqI:
  "sqlite_derived_ok dec db \<Longrightarrow> the (sqlite_derived_get dec db v c x) = r \<Longrightarrow> sqlite_derived_get dec db v c x = Some r"
  using sqlite_derived_get_total by (metis option.collapse)

lemma run_leaves:
  fixes hasher all c
  defines "x \<equiv> content_hash hasher all c"
  assumes ok: "sqlite_derived_ok dec db"
    and storable: "\<forall>c d. derivation_for all stores c = Some d \<longrightarrow> dec (enc d) = Some d"
    and c: "c \<in> set (conversations all)" "derivation_for all stores c = Some d"
  shows "sqlite_derived_ok dec (fold (sqlite_exec enc) (populate_statements hasher all stores v) db)"
    and "sqlite_derived_get dec (fold (sqlite_exec enc) (populate_statements hasher all stores v) db) v' c x' =
      Some (if (v', x') = (v, x) then Some d else None)"
proof -
  let ?S = "populate_statements hasher all stores v"
  have run: "fold (sqlite_exec enc) ?S db =
      snd (populate_cache (\<lambda>db v c x d. the (sqlite_derived_put enc db v c x d)) sqlite_derived_reclaim hasher all stores db v)"
    unfolding sqlite_exec_def by (rule populate_executes [symmetric])
  show okS: "sqlite_derived_ok dec (fold (sqlite_exec enc) ?S db)"
    unfolding run by (rule sqlite_derived.populate_ok [OF ok storable])
  have sto: "\<forall>st\<in>set ?S. sqlite_derived.statement_storable dec enc st"
    by (rule sqlite_derived.populate_statements_storable) (use storable in simp)
  obtain before after where s: "?S = (before @ [PutDerived v c x d]) @ ReclaimSuperseded c v x # after"
    and after: "\<forall>st\<in>set after. statement_conversation st \<noteq> c"
    using populate_splits [OF c, of hasher v] unfolding x_def by (metis append.assoc append_Cons append_Nil)
  let ?db1 = "fold (sqlite_exec enc) (before @ [PutDerived v c x d]) db"
  have ok1: "sqlite_derived_ok dec ?db1"
    unfolding sqlite_exec_def by (rule sqlite_derived.statements_sound(1) [OF ok]) (use sto s in simp)
  have "fold (sqlite_exec enc) ?S db = fold (sqlite_exec enc) after (sqlite_derived_reclaim ?db1 c v x)"
    unfolding s fold_append comp_apply by (simp add: sqlite_exec_def)
  then have "the (sqlite_derived_get dec (fold (sqlite_exec enc) ?S db) v' c x') =
      the (sqlite_derived_get dec (sqlite_derived_reclaim ?db1 c v x) v' c x')"
    using sqlite_derived.statements_other [OF sqlite_derived_reclaim_lookup(1) [OF ok1], of after enc c c v x v' x'] sto s after
    by (simp add: sqlite_exec_def)
  moreover have "the (sqlite_derived_get dec (fold (sqlite_exec enc) ?S db) v c x) = Some d"
    unfolding run x_def by (rule sqlite_derived.populate_get [OF ok storable c(2,1)])
  ultimately have "the (sqlite_derived_get dec (fold (sqlite_exec enc) ?S db) v' c x') =
      (if (v', x') = (v, x) then Some d else None)"
    using reclaim_leaves [OF ok1, of c v x v' x'] by (auto split: if_splits)
  then show "sqlite_derived_get dec (fold (sqlite_exec enc) ?S db) v' c x' = Some (if (v', x') = (v, x) then Some d else None)"
    by (rule get_eqI [OF okS])
qed

text \<open>
  If a run is interrupted between the two statements of a conversation by another whole run, each
  reclaims the entry of the other, and none is left.
\<close>

lemma race_loses_entry:
  assumes "sqlite_derived_ok dec db"
    and "\<forall>c d. derivation_for all1 stores1 c = Some d \<longrightarrow> dec (enc d) = Some d"
    and "\<forall>c d. derivation_for all2 stores2 c = Some d \<longrightarrow> dec (enc d) = Some d"
    and "c \<in> set (conversations all1)" and "derivation_for all1 stores1 c = Some d1"
    and "c \<in> set (conversations all2)" and "derivation_for all2 stores2 c = Some d2"
    and "(v1, content_hash hasher all1 c) \<noteq> (v2, content_hash hasher all2 c)"
  shows "\<exists>sts \<in> shuffles (populate_statements hasher all1 stores1 v1) (populate_statements hasher all2 stores2 v2).
    \<forall>v x. sqlite_derived_get dec (fold (sqlite_exec enc) sts db) v c x = Some None"
proof -
  let ?x1 = "content_hash hasher all1 c" and ?S2 = "populate_statements hasher all2 stores2 v2"
  obtain before after where s1: "populate_statements hasher all1 stores1 v1 =
      (before @ [PutDerived v1 c ?x1 d1]) @ ReclaimSuperseded c v1 ?x1 # after"
    and after: "\<forall>st\<in>set after. statement_conversation st \<noteq> c"
    using populate_splits [OF assms(4,5), of hasher v1] by (metis append.assoc append_Cons append_Nil)
  have sto: "\<forall>st\<in>set (populate_statements hasher all1 stores1 v1). sqlite_derived.statement_storable dec enc st"
    by (rule sqlite_derived.populate_statements_storable) (use assms(2) in simp)
  let ?run = "fold (sqlite_exec enc)"
  let ?db1 = "?run (before @ [PutDerived v1 c ?x1 d1]) db"
  let ?sts = "(before @ [PutDerived v1 c ?x1 d1]) @ ?S2 @ (ReclaimSuperseded c v1 ?x1 # after)"
  have ok1: "sqlite_derived_ok dec ?db1"
    unfolding sqlite_exec_def by (rule sqlite_derived.statements_sound(1) [OF assms(1)]) (use sto s1 in simp)
  note other = run_leaves [OF ok1 assms(3,6,7), of hasher v2]
  note okr = sqlite_derived_reclaim_lookup(1) [OF other(1), of c v1 ?x1]
  have run: "?run ?sts db = ?run after (sqlite_derived_reclaim (?run ?S2 ?db1) c v1 ?x1)"
    unfolding fold_append comp_apply by (simp add: sqlite_exec_def)
  have sto_after: "\<forall>st\<in>set after. sqlite_derived.statement_storable dec enc st" using sto s1 by simp
  have ok: "sqlite_derived_ok dec (?run ?sts db)"
    unfolding run unfolding sqlite_exec_def
    by (rule sqlite_derived.statements_sound(1) [OF okr [unfolded sqlite_exec_def] sto_after])
  have "the (sqlite_derived_get dec (?run ?sts db) v c x) =
      the (sqlite_derived_get dec (sqlite_derived_reclaim (?run ?S2 ?db1) c v1 ?x1) v c x)" for v x
    unfolding run using sqlite_derived.statements_other [OF okr sto_after after, of v x] by (simp only: sqlite_exec_def)
  moreover have "the (sqlite_derived_get dec (sqlite_derived_reclaim (?run ?S2 ?db1) c v1 ?x1) v c x) = None" for v x
    unfolding reclaim_leaves [OF other(1)] other(2) using assms(8) by auto
  ultimately have "sqlite_derived_get dec (?run ?sts db) v c x = Some None" for v x by (intro get_eqI [OF ok]) simp
  moreover have "?sts \<in> shuffles (populate_statements hasher all1 stores1 v1) ?S2" unfolding s1 by (rule shuffles_inside)
  ultimately show ?thesis by blast
qed

section \<open>Statements of any number of runs\<close>

type_synonym cache_run = "message_envelope list \<times> replay_stores \<times> step_version"

definition run_statements :: "hash_function \<Rightarrow> cache_run list \<Rightarrow> cache_statement set" where
  "run_statements hasher runs =
     (\<Union>(all, stores, version)\<in>set runs. set (populate_statements hasher all stores version))"

lemma run_statements_puts:
  "PutDerived v c x d \<in> run_statements hasher runs \<longleftrightarrow>
    (\<exists>(all, stores, version)\<in>set runs. v = version \<and> x = content_hash hasher all c \<and>
       c \<in> set (conversations all) \<and> derivation_for all stores c = Some d)"
  unfolding run_statements_def UN_iff by (intro bex_cong refl) (auto simp: populate_puts)

lemma run_statements_storable:
  assumes "\<forall>(all, stores, version)\<in>set runs. \<forall>c d. derivation_for all stores c = Some d \<longrightarrow> dec (enc d) = Some d"
    and "st \<in> run_statements hasher runs"
  shows "sqlite_derived.statement_storable dec enc st"
proof -
  obtain all stores version where run: "(all, stores, version) \<in> set runs"
    and st: "st \<in> set (populate_statements hasher all stores version)"
    using assms(2) unfolding run_statements_def by blast
  have "\<forall>c d. derivation_for all stores c = Some d \<longrightarrow> dec (enc d) = Some d" using assms(1) run by blast
  from sqlite_derived.populate_statements_storable [OF this] st show ?thesis by blast
qed

end
