(* ===== verification/Working.thy ===== *)
theory Working
  imports Main Prelude F64 Runtime Model MessageLog Stores Skill HintDev Routing Mock ScopeWarmup
    Derivation Jobs Replay Derived Submission Sqlite SqliteLog SqliteCaches Github Llm Commands Cli CliRun
    Session
begin

text \<open>
  \<open>work\<close> against \<open>replay\<close>: the queue may hand out a submitted run any number of times, among runs
  of other strategies, and the file is in the end the one that a single replay leaves.
\<close>

section \<open>Filling a filled table\<close>

definition cache_row :: "(conversation_derivation \<Rightarrow> string) \<Rightarrow> step_version \<Rightarrow> conversation_id \<Rightarrow> string \<Rightarrow> conversation_derivation \<Rightarrow> derived_row" where
  "cache_row enc v c x d =
     \<lparr>dr_version = version_str v, dr_conversation = conversation_id_str c, dr_content = x, dr_payload = enc d\<rparr>"

definition conversation_rows :: "sqlite_db \<Rightarrow> conversation_id \<Rightarrow> derived_row list" where
  "conversation_rows db c =
     (case db_derived db of None \<Rightarrow> [] | Some rows \<Rightarrow> filter (\<lambda>r. dr_conversation r = conversation_id_str c) rows)"

definition holds_only :: "sqlite_db \<Rightarrow> conversation_id \<Rightarrow> derived_row \<Rightarrow> bool" where
  "holds_only db c r \<longleftrightarrow> conversation_rows db c \<noteq> [] \<and> set (conversation_rows db c) = {r}"

lemma holds_onlyI: "set (conversation_rows db c) = {r} \<Longrightarrow> holds_only db c r"
  by (auto simp: holds_only_def)

lemma cache_row_keys: "derived_row_is v c x (cache_row enc v c x d)"
  by (simp add: derived_row_is_def cache_row_def)

lemma only_member: "a \<in> A \<Longrightarrow> P a \<Longrightarrow> (\<And>x. x \<in> A \<Longrightarrow> P x \<Longrightarrow> x = a) \<Longrightarrow> {x \<in> A. P x} = {a}"
  by blast

text \<open>One delivery leaves the conversation with its one row, and other conversations alone.\<close>

lemma deliver_rows:
  assumes "db_derived db \<noteq> None"
  obtains db1 where "sqlite_derived_put enc db v c x d = Some db1"
    and "db_derived (sqlite_derived_reclaim db1 c v x) \<noteq> None"
    and "holds_only (sqlite_derived_reclaim db1 c v x) c (cache_row enc v c x d)"
    and "\<And>c'. c' \<noteq> c \<Longrightarrow> conversation_rows (sqlite_derived_reclaim db1 c v x) c' = conversation_rows db c'"
proof -
  obtain rows where rows: "db_derived db = Some rows" using assms by auto
  let ?is = "derived_row_is v c x"
  let ?put = "if \<exists>r\<in>set rows. ?is r then map (\<lambda>r. if ?is r then r\<lparr>dr_payload := enc d\<rparr> else r) rows
    else rows @ [cache_row enc v c x d]"
  let ?keep = "\<lambda>r. \<not> (dr_conversation r = conversation_id_str c \<and> \<not> (dr_version r = version_str v \<and> dr_content r = x))"
  let ?db1 = "db\<lparr>db_derived := Some ?put\<rparr>"
  have put: "sqlite_derived_put enc db v c x d = Some ?db1"
    by (simp add: sqlite_derived_put_def rows cache_row_def Let_def)
  have reclaim: "db_derived (sqlite_derived_reclaim ?db1 c v x) = Some (filter ?keep ?put)"
    by (simp add: sqlite_derived_reclaim_def sqlite_derived_prune_def Let_def)
  show thesis
  proof (rule that [OF put])
    show "db_derived (sqlite_derived_reclaim ?db1 c v x) \<noteq> None" unfolding reclaim by simp
    have is_row: "?is r \<Longrightarrow> r\<lparr>dr_payload := enc d\<rparr> = cache_row enc v c x d" for r
      by (simp add: derived_row_is_def cache_row_def)
    have own: "set (conversation_rows (sqlite_derived_reclaim ?db1 c v x) c) = {r \<in> set ?put. ?is r}"
      unfolding conversation_rows_def reclaim by (auto simp: derived_row_is_def)
    have "{r \<in> set ?put. ?is r} = {cache_row enc v c x d}"
    proof (cases "\<exists>r\<in>set rows. ?is r")
      case True
      let ?f = "\<lambda>r. if ?is r then r\<lparr>dr_payload := enc d\<rparr> else r"
      have upd: "?is (?f r) \<longleftrightarrow> ?is r" "?is r \<Longrightarrow> ?f r = cache_row enc v c x d" for r by (simp_all add: is_row cache_row_keys)
      obtain r where "r \<in> set rows" "?is r" using True by blast
      then have mem: "cache_row enc v c x d \<in> ?f ` set rows"
        by (intro image_eqI [where x = r]) (simp_all only: upd(2) if_True is_row)
      have uniq: "r' = cache_row enc v c x d" if r': "r' \<in> ?f ` set rows" "?is r'" for r'
      proof -
        obtain r0 where r0: "r' = ?f r0" using r'(1) by (rule imageE)
        then have "?is r0" using r'(2) upd(1) by (simp only:)
        then show ?thesis unfolding r0 by (rule upd(2))
      qed
      have "{r \<in> ?f ` set rows. ?is r} = {cache_row enc v c x d}"
        by (rule only_member [where P = ?is, OF mem cache_row_keys uniq])
      then show ?thesis by (simp only: if_P [OF True] set_map)
    next
      case False
      then have "{r \<in> set (rows @ [cache_row enc v c x d]). ?is r} = {cache_row enc v c x d}"
        using cache_row_keys by auto
      then show ?thesis by (simp only: if_not_P [OF False])
    qed
    from trans [OF own this] show "holds_only (sqlite_derived_reclaim ?db1 c v x) c (cache_row enc v c x d)"
      by (rule holds_onlyI)
    show "conversation_rows (sqlite_derived_reclaim ?db1 c v x) c' = conversation_rows db c'" if "c' \<noteq> c" for c'
    proof -
      have c: "conversation_id_str c' \<noteq> conversation_id_str c" using that by (auto dest: conversation_id.expand)
      have keep: "filter (\<lambda>r. dr_conversation r = conversation_id_str c') (filter ?keep rs) =
          filter (\<lambda>r. dr_conversation r = conversation_id_str c') rs" for rs
        using c by (auto intro: filter_cong)
      have upd: "filter (\<lambda>r. dr_conversation r = conversation_id_str c') (map (\<lambda>r. if ?is r then r\<lparr>dr_payload := enc d\<rparr> else r) rs) =
          filter (\<lambda>r. dr_conversation r = conversation_id_str c') rs" for rs
        using c by (induction rs) (auto simp: derived_row_is_def)
      have "filter (\<lambda>r. dr_conversation r = conversation_id_str c') ?put =
          filter (\<lambda>r. dr_conversation r = conversation_id_str c') rows"
      proof (cases "\<exists>r\<in>set rows. ?is r")
        case True
        show ?thesis by (simp only: if_P [OF True] upd)
      next
        case False
        show ?thesis using c by (simp only: if_not_P [OF False]) (simp add: cache_row_def)
      qed
      then show ?thesis by (simp only: conversation_rows_def reclaim rows option.case keep)
    qed
  qed
qed

text \<open>A delivery of what is there changes nothing.\<close>

lemma deliver_again:
  assumes "holds_only db c (cache_row enc v c x d)"
  shows "sqlite_derived_put enc db v c x d = Some db" and "sqlite_derived_reclaim db c v x = db"
proof -
  obtain rows where rows: "db_derived db = Some rows"
    and own: "filter (\<lambda>r. dr_conversation r = conversation_id_str c) rows \<noteq> []"
    and all: "\<And>r. r \<in> set rows \<Longrightarrow> dr_conversation r = conversation_id_str c \<Longrightarrow> r = cache_row enc v c x d"
    using assms by (auto simp: holds_only_def conversation_rows_def split: option.splits)
  have "\<exists>r\<in>set rows. derived_row_is v c x r"
    using own all cache_row_keys by (metis (mono_tags, lifting) filter_False)
  moreover have "map (\<lambda>r. if derived_row_is v c x r then r\<lparr>dr_payload := enc d\<rparr> else r) rows = rows"
  proof (rule map_idI)
    fix r assume "r \<in> set rows"
    then have "derived_row_is v c x r \<Longrightarrow> r = cache_row enc v c x d" using all by (simp add: derived_row_is_def)
    then show "(if derived_row_is v c x r then r\<lparr>dr_payload := enc d\<rparr> else r) = r" by (auto simp: cache_row_def)
  qed
  ultimately show "sqlite_derived_put enc db v c x d = Some db"
    using rows by (simp add: sqlite_derived_put_def Let_def)
  have "\<forall>r\<in>set rows. \<not> (dr_conversation r = conversation_id_str c \<and> \<not> (dr_version r = version_str v \<and> dr_content r = x))"
  proof (intro ballI notI, elim conjE)
    fix r assume "r \<in> set rows" "dr_conversation r = conversation_id_str c"
      and other: "\<not> (dr_version r = version_str v \<and> dr_content r = x)"
    then have "r = cache_row enc v c x d" using all by blast
    with other show False by (simp add: cache_row_def)
  qed
  then show "sqlite_derived_reclaim db c v x = db"
    using rows by (simp add: sqlite_derived_reclaim_def sqlite_derived_prune_def Let_def)
qed

text \<open>So a second run of the same derivations leaves the file as the first left it.\<close>

definition settled ::
  "(conversation_derivation \<Rightarrow> string) \<Rightarrow> hash_function \<Rightarrow> replay_stores \<Rightarrow> step_version \<Rightarrow>
   (conversation_id \<rightharpoonup> message_envelope list) \<Rightarrow> conversation_id list \<Rightarrow> sqlite_db \<Rightarrow> bool" where
  "settled enc hasher stores version groups cs db \<longleftrightarrow>
     (\<forall>c\<in>set cs. \<forall>d. derivation_from_messages stores c (or_empty (groups c)) = Some d \<longrightarrow>
        holds_only db c (cache_row enc version c (content_hash_of hasher (or_empty (groups c))) d))"

lemma populate_settled:
  assumes "settled enc hasher stores version groups cs db"
  shows "snd (populate_loop (file_put enc) file_reclaim hasher stores version groups cs (True, db)) = (True, db)"
  using assms
proof (induction cs)
  case (Cons c cs)
  have rest: "settled enc hasher stores version groups cs db" using Cons.prems by (simp add: settled_def)
  show ?case
  proof (cases "derivation_from_messages stores c (or_empty (groups c))")
    case None
    then show ?thesis using Cons.IH [OF rest] by (simp add: Let_def)
  next
    case (Some d)
    then have "holds_only db c (cache_row enc version c (content_hash_of hasher (or_empty (groups c))) d)"
      using Cons.prems by (simp add: settled_def)
    from deliver_again [OF this] show ?thesis
      using Some Cons.IH [OF rest] by (simp add: Let_def file_put_def file_reclaim_def case_prod_unfold)
  qed
qed simp

lemma populate_settles:
  assumes "distinct cs" and "db_derived db \<noteq> None"
  shows "\<exists>db'. snd (populate_loop (file_put enc) file_reclaim hasher stores version groups cs (True, db)) = (True, db') \<and>
    db_derived db' \<noteq> None \<and> settled enc hasher stores version groups cs db' \<and>
    (\<forall>c. c \<notin> set cs \<longrightarrow> conversation_rows db' c = conversation_rows db c)"
  using assms
proof (induction cs arbitrary: db)
  case (Cons c cs)
  show ?case
  proof (cases "derivation_from_messages stores c (or_empty (groups c))")
    case None
    then have "settled enc hasher stores version groups (c # cs) db' \<longleftrightarrow> settled enc hasher stores version groups cs db'" for db'
      by (simp add: settled_def)
    then show ?thesis using None Cons.IH [OF _ Cons.prems(2)] Cons.prems(1) by (auto simp: Let_def)
  next
    case (Some d)
    let ?x = "content_hash_of hasher (or_empty (groups c))"
    obtain db1 where db1: "sqlite_derived_put enc db version c ?x d = Some db1"
      and db2: "db_derived (sqlite_derived_reclaim db1 c version ?x) \<noteq> None"
        "holds_only (sqlite_derived_reclaim db1 c version ?x) c (cache_row enc version c ?x d)"
      and others: "\<And>c'. c' \<noteq> c \<Longrightarrow> conversation_rows (sqlite_derived_reclaim db1 c version ?x) c' = conversation_rows db c'"
      by (rule deliver_rows [OF Cons.prems(2), of enc version c ?x d]) blast
    obtain db' where run: "snd (populate_loop (file_put enc) file_reclaim hasher stores version groups cs
          (True, sqlite_derived_reclaim db1 c version ?x)) = (True, db')"
      and db': "db_derived db' \<noteq> None" "settled enc hasher stores version groups cs db'"
        "\<forall>c'. c' \<notin> set cs \<longrightarrow> conversation_rows db' c' = conversation_rows (sqlite_derived_reclaim db1 c version ?x) c'"
      using Cons.IH [OF _ db2(1)] Cons.prems(1) by auto
    have "holds_only db' c (cache_row enc version c ?x d)"
      using db2(2) db'(3) Cons.prems(1) by (simp add: holds_only_def)
    then have "settled enc hasher stores version groups (c # cs) db'"
      using db'(2) Some by (auto simp: settled_def)
    moreover have "snd (populate_loop (file_put enc) file_reclaim hasher stores version groups (c # cs) (True, db)) = (True, db')"
      using run by (simp add: Let_def Some file_put_def file_reclaim_def db1 case_prod_unfold)
    ultimately show ?thesis using db'(1,3) others by auto
  qed
qed (simp add: settled_def)

lemma populate_twice:
  assumes "db_derived db \<noteq> None"
  obtains db' where "snd (populate_cache (file_put enc) file_reclaim hasher all stores (True, db) version) = (True, db')"
    and "snd (populate_cache (file_put enc) file_reclaim hasher all stores (True, db') version) = (True, db')"
    and "db_messages db' = db_messages db"
proof -
  let ?groups = "\<lambda>c. Some (default_messages_for all c)" and ?cs = "default_conversation_ids all"
  obtain db' where db': "snd (populate_loop (file_put enc) file_reclaim hasher stores version ?groups ?cs (True, db)) = (True, db')"
    "settled enc hasher stores version ?groups ?cs db'"
    using populate_settles [OF _ assms, of ?cs enc hasher stores version ?groups] by auto
  show thesis
  proof (rule that [of db'])
    show "db_messages db' = db_messages db"
      using populate_file_frame [of enc hasher stores version ?groups ?cs "(True, db)"] db'(1) by simp
  qed (simp_all only: populate_cache_eq db'(1) populate_settled [OF db'(2)])
qed

section \<open>One job\<close>

definition job_end :: "(string \<Rightarrow> string) \<Rightarrow> strategy_run_request \<Rightarrow> handler_result" where
  "job_end dbg request =
     (if srun_strategy request \<in> {''projection'', ''empty''} then HOk
      else HErr (unknown_strategy_display dbg (UnknownStrategy (srun_strategy request))))"

lemma populate_empty:
  "snd (populate_cache (file_put enc) file_reclaim hasher all empty_stores file version) = file"
proof -
  have "snd (populate_loop (file_put enc) file_reclaim hasher empty_stores version groups cs file) = file" for groups cs
    by (induction cs) (simp_all add: Let_def derivation_from_messages_def empty_stores_def warmup_store_get_def store_new_def)
  then show ?thesis by (simp add: populate_cache_eq)
qed

lemma strategy_build_single: "strategy_build [(i, factory)] i ctx = Inr (factory ctx)"
  by (simp add: strategy_build_def)

lemma work_run_mock:
  fixes ex :: "'s externals" and s :: 's
  assumes "sqlite_all dec db = Some ms" and "\<forall>k. at_least_once (d k)" and "log_wf ms"
    and "snd (populate_cache (file_put (ex_enc_derivation ex)) file_reclaim (ex_hasher ex) ms (mock_stores (ex_lower ex) ms)
      (True, db) (derivation_version ''projection'' (StepVersion ''mock:v1''))) = (True, db')"
  shows "work_run ex dbg dec (reference_context (ex_lower ex) (mock_step (ex_lower ex))) d (db, s) request =
    (job_end dbg request, ((if srun_strategy request = ''projection'' then db' else db), s))"
proof -
  have v: "st_version (ctx_projector (reference_context lc (mock_step lc))) = StepVersion ''mock:v1''" for lc
    by (simp add: reference_context_def mock_step_def)
  consider (projection) "srun_strategy request = ''projection''" | (empty) "srun_strategy request = ''empty''"
    | (other) "srun_strategy request \<notin> {''projection'', ''empty''}" by auto
  then show ?thesis
  proof cases
    case projection
    then show ?thesis
      using mock_replay [OF assms(2,3), of "ex_lower ex" "(db, s)"] assms(4)
      by (simp add: work_run_def strategy_build_builtins assms(1) strategy_run_def strategy_build_single v job_end_def
          Let_def case_prod_unfold)
  next
    case empty
    then show ?thesis
      by (simp add: work_run_def strategy_build_builtins assms(1) strategy_run_def strategy_build_single v job_end_def
          Let_def case_prod_unfold empty_strategy_def populate_empty)
  next
    case other
    then show ?thesis by (simp add: work_run_def strategy_build_builtins job_end_def)
  qed
qed

section \<open>The queue\<close>

lemma cli_work_replays:
  fixes ex :: "'s externals" and s :: 's
  assumes "0 \<le> db_user_version db" and "cli_open db = (True, db')" and "sqlite_all dec db' = Some ms"
    and "run_provider rs = ProviderMock" and "log_wf ms"
    and "sqlite_derived_ok (ex_dec_derivation ex) db'"
    and "\<forall>(request, d)\<in>set jobs. \<forall>k. at_least_once (d k)"
    and "\<exists>(request, d)\<in>set jobs. srun_strategy request = ''projection''"
    and "run_strategy rs' = ''projection''" and "run_provider rs' = ProviderMock" and "\<forall>k. at_least_once (d' k)"
  shows "cli_work ex dbg dec rs True jobs True (db, s) =
    (Done (map (job_end dbg \<circ> fst) jobs), snd (cli_replay ex dec rs' d' (db, s)))"
proof -
  let ?version = "derivation_version ''projection'' (StepVersion ''mock:v1'')"
  let ?stores = "mock_stores (ex_lower ex) ms"
  let ?ctx = "reference_context (ex_lower ex) (mock_step (ex_lower ex)) :: (sqlite_db \<times> 's) strategy_context"
  let ?populate = "\<lambda>db. snd (populate_cache (file_put (ex_enc_derivation ex)) file_reclaim (ex_hasher ex) ms ?stores (True, db) ?version)"
  note v = cli_open_eq(2) [OF assms(1,2)]
  have "db_derived db' \<noteq> None" using assms(6) by (auto simp: sqlite_derived_ok_def split: option.splits)
  then obtain db7 where run: "?populate db' = (True, db7)" and again: "?populate db7 = (True, db7)"
    and msgs: "db_messages db7 = db_messages db'" by (rule populate_twice)
  have all7: "sqlite_all dec db7 = Some ms" using assms(3) msgs by (simp add: sqlite_all_def)
  have replay: "snd (cli_replay ex dec rs' d' (db, s)) = (db7, s)"
  proof -
    have opened: "open_derivation ex rs' db' = (Some (replay_run ?ctx, ?version), db')"
      unfolding open_derivation_def assms(9,10) build_strategy_mock derivation_version_mock
      by (simp add: versioned_skips(3) [OF v] derivation_version_mock)
    show ?thesis
      using run by (simp add: cli_replay_def assms(2,3) opened mock_replay [OF assms(11,5)] replay_command_def Let_def
        case_prod_unfold)
  qed
  have ctx: "strategy_context_for ex (run_provider rs) (run_llm rs) db' = Some (?ctx, db')"
    by (simp add: strategy_context_for_def projector_for_def llm_projector_for_def assms(4) reference_context_def)
  let ?step = "\<lambda>(request, d) (results, st). let (r, st') = work_run ex dbg dec ?ctx d st request in (results @ [r], st')"
  have step: "?step (request, d) (results, (f, s)) =
      (results @ [job_end dbg request], ((if srun_strategy request = ''projection'' then db7 else f), s))"
    if "f \<in> {db', db7}" "\<forall>k. at_least_once (d k)" for f request d results
    using that work_run_mock [OF assms(3) that(2) assms(5) run, of dbg s request]
      work_run_mock [OF all7 that(2) assms(5) again, of dbg s request] by auto
  have queue: "fold ?step js (results, (f, s)) = (results @ map (job_end dbg \<circ> fst) js,
      ((if \<exists>(request, d)\<in>set js. srun_strategy request = ''projection'' then db7 else f), s))"
    if "f \<in> {db', db7}" "\<forall>(request, d)\<in>set js. \<forall>k. at_least_once (d k)" for js results f
    using that
  proof (induction js arbitrary: results f)
    case (Cons j js)
    obtain request d where j: "j = (request, d)" by (metis prod.collapse)
    have d: "\<forall>k. at_least_once (d k)" using Cons.prems(2) j by simp
    have f: "(if srun_strategy request = ''projection'' then db7 else f) \<in> {db', db7}" using Cons.prems(1) by simp
    show ?case
      using Cons.IH [OF f] Cons.prems(2) step [OF Cons.prems(1) d] j by auto
  qed simp
  show ?thesis
    using queue [of db' jobs "[]"] assms(7,8) ctx
    by (simp add: cli_work_def assms(2) versioned_skips(2,3) [OF v] replay Let_def case_prod_unfold)
qed

end
