(* ===== verification/Rereading.thy ===== *)
theory Rereading
  imports Main Prelude F64 Runtime Model MessageLog Stores Skill HintDev Routing Mock ScopeWarmup
    Derivation Jobs Replay Derived Submission Sqlite SqliteLog SqliteCaches Github Llm Commands Cli CliRun
    Session Verify Expertise
begin

text \<open>
  A run reads the log twice. The strategy takes one snapshot of it at its start
  (\<open>run_phases\<close> in \<open>crates/mirrorlane-worker/src/replay.rs\<close>) and works on that alone; when it is
  done, \<open>populate_cache\<close> reads the log again to group the messages and hash them. With a model behind
  the projector minutes lie between the two, and another process may ingest meanwhile.
\<close>

section \<open>A replay with two readings\<close>

definition replay_command_reread ::
  "'c derived_put_fun \<Rightarrow> 'c derived_reclaim_fun \<Rightarrow> hash_function \<Rightarrow> 's replay_strategy \<Rightarrow> (nat \<Rightarrow> deliveries) \<Rightarrow>
   step_version \<Rightarrow> rule_router \<Rightarrow> message_envelope list \<Rightarrow> message_envelope list \<Rightarrow> 'c \<times> 's \<Rightarrow>
   replay_output \<times> ('c \<times> 's)" where
  "replay_command_reread put reclaim hasher strategy d version router before after st =
     (let (stores, s') = strategy d before (snd st);
          (derivations, cache') = populate_cache put reclaim hasher after stores (fst st) version;
          contexts = map (\<lambda>x. session_context_from x (version_str version) router) derivations in
      (\<lparr>ro_contexts = contexts, ro_unprojected = unprojected stores (map env_id after)\<rparr>, (cache', s')))"

lemma replay_command_reread_same:
  "replay_command_reread put reclaim hasher strategy d version router all all =
    replay_command put reclaim hasher strategy d version router all"
  by (rule ext) (simp add: replay_command_reread_def replay_command_def)

section \<open>A message in between\<close>

text \<open>A message is new, or replaces one of its conversation.\<close>

definition stays_put :: "message_envelope \<Rightarrow> message_envelope list \<Rightarrow> bool" where
  "stays_put m all \<longleftrightarrow> (\<forall>n\<in>set all. env_id n = env_id m \<longrightarrow> conversation_of n = conversation_of m)"

lemma messages_in_append:
  "stays_put m all \<Longrightarrow> messages_in (log_append m all) c =
    messages_in all c @ (if conversation_of m = c \<and> env_id m \<notin> env_id ` set all then [env_id m] else [])"
  by (induction all) (auto simp: stays_put_def messages_in_def)

lemma conversations_append:
  assumes "log_wf all" and "stays_put m all" and "conversation_of m \<in> set (conversations all)"
  shows "set (conversations (log_append m all)) = set (conversations all)"
proof -
  have "conversation_of ` set (log_append m all) = conversation_of ` set all"
    using assms(2,3) by (auto simp: set_log_append [OF assms(1)] conversations_eq stays_put_def image_iff)
  then show ?thesis by (simp add: conversations_eq)
qed

text \<open>Stores that do not know the new id give every conversation its old derivation.\<close>

lemma derivation_append:
  assumes "stays_put m all"
    and "env_id m \<notin> env_id ` set all \<Longrightarrow> rs_projections r (env_id m) = None \<and> rs_hints r (env_id m) = None"
  shows "derivation_for (log_append m all) r c = derivation_for all r c"
proof -
  have "List.map_filter (projection_store_get (rs_projections r)) (messages_in (log_append m all) c) =
      List.map_filter (projection_store_get (rs_projections r)) (messages_in all c)"
    and "List.map_filter (routing_hint_store_get (rs_hints r)) (messages_in (log_append m all) c) =
      List.map_filter (routing_hint_store_get (rs_hints r)) (messages_in all c)"
    using assms(2) by (auto simp: messages_in_append [OF assms(1)] List.map_filter_def projection_store_get_def
      routing_hint_store_get_def)
  then show ?thesis by (simp add: derivation_for_def Let_def split: option.split)
qed

section \<open>What a replay derives\<close>

lemma replay_answers_derive:
  assumes "\<forall>k. at_least_once (d k)" and "log_wf ms" and "answers projector s f ms"
  obtains r where "replay_run (reference_context lc projector) d ms s = (r, s)"
    and "dom (rs_projections r) = env_id ` set ms" and "dom (rs_hints r) = env_id ` set ms"
    and "\<forall>c\<in>set (conversations ms). \<exists>x. derivation_for ms r c = Some x \<and> cd_conversation x = c \<and>
      cd_projections x = map f (default_messages_for ms c)"
proof
  let ?r = "phases_spec (reference_context lc projector) ms (projections_of f ms)"
  have label: "\<forall>m\<in>set ms. proj_message_id (f m) = env_id m" using assms(3) by (simp add: answers_def)
  show "replay_run (reference_context lc projector) d ms s = (?r, s)"
    using reference.replay_eq [OF assms(1,2), of lc projector s f] assms(3) by (simp add: reference_context_def)
  show "dom (rs_projections ?r) = env_id ` set ms" "dom (rs_hints ?r) = env_id ` set ms"
    by (rule reference.spec_accounts [OF assms(2) label])+
  show "\<forall>c\<in>set (conversations ms). \<exists>x. derivation_for ms ?r c = Some x \<and> cd_conversation x = c \<and>
      cd_projections x = map f (default_messages_for ms c)"
    using spec_derivation [of _ ms "reference_context lc projector" "projections_of f ms"]
    unfolding stored_projections_log [OF assms(2)] by (rule ballI)
qed

section \<open>The cache afterwards\<close>

context derived_cache begin

lemma reread_publishes:
  assumes "ok cache" and "\<forall>c x. derivation_for before stores c = Some x \<longrightarrow> storable x"
    and same: "\<And>c. derivation_for after stores c = derivation_for before stores c"
    and c: "c \<in> set (conversations after)" "derivation_for before stores c = Some x"
    and run: "strategy d before s = (stores, s1)"
    and reread: "replay_command_reread put reclaim hasher strategy d version router before after (cache, s) = (out, (cache', s'))"
  shows "s' = s1" and "get cache' version c (content_hash hasher after c) = Some x"
    and "warmup_command get put reclaim hasher strategy' d' version router after c (cache', t) =
      (\<lparr>wo_context = Some (session_context_from x (version_str version) router),
        wo_unprojected = filter (\<lambda>i. i \<notin> set (map proj_message_id (cd_projections x))) (messages_in after c)\<rparr>,
       (cache', t))"
proof -
  have cache': "s' = s1" "cache' = snd (populate_cache put reclaim hasher after stores cache version)"
    using reread by (auto simp: replay_command_reread_def run Let_def case_prod_unfold)
  show "s' = s1" by (rule cache'(1))
  show hit: "get cache' version c (content_hash hasher after c) = Some x"
    unfolding cache'(2) by (rule populate_get [OF assms(1) _ _ c(1)]) (use assms(2) c(2) in \<open>simp_all add: same\<close>)
  then show "warmup_command get put reclaim hasher strategy' d' version router after c (cache', t) =
      (\<lparr>wo_context = Some (session_context_from x (version_str version) router),
        wo_unprojected = filter (\<lambda>i. i \<notin> set (map proj_message_id (cd_projections x))) (messages_in after c)\<rparr>,
       (cache', t))"
    by (simp add: warmup_command_def content_hash_eq [symmetric])
qed

end

text \<open>\<open>verify\<close> reports on a conversation by comparing the entry with what it derives itself.\<close>

lemma verify_reports:
  assumes "strategy d all s = (stores, s1)" and "c \<in> set (conversations all)" and "derivation_for all stores c = Some y"
    and "cd_conversation y = c" and "get cache version c (content_hash hasher all c) = Some x"
  shows "\<lparr>vr_conversation = c, vr_outcome = (if derivation_eq x y then ''verified'' else ''diverged'')\<rparr> \<in>
    set (fst (verify_command get hasher strategy d version all (cache, s)))"
proof -
  have "y \<in> set (List.map_filter (derivation_for all stores) (conversations all))"
    using assms(2,3) by (force simp: set_map_filter)
  then show ?thesis
    using assms(1,4,5) populate_returns [of derived_put derived_reclaim hasher all stores derived_new version]
    by (auto simp: verify_command_def case_prod_unfold Let_def content_hash_eq intro!: image_eqI [where x = y])
qed

end
