(* ===== verification/RoutedWork.thy ===== *)
theory RoutedWork
  imports Main Prelude F64 Model Stores Routing Mock Jobs Submission
begin

text \<open>
  The routing job over a registry whose Worklane target enqueues real jobs
  (\<open>crates/mirrorlane-worker/src/routed_work.rs\<close>). The queue is seen through \<open>live\<close>, which gives the live
  job of a lane and a uniqueness key. What the queue library documents of \<open>enqueue_unique\<close> is the law
  \<open>dedup_queue\<close>: an accepted enqueue leaves the live job of that lane and key alone if there is one,
  and otherwise makes the payload its job; no other job changes.
\<close>

type_synonym 'b enqueue_unique =
  "string \<Rightarrow> string \<Rightarrow> routed_work_payload \<Rightarrow> 'b \<Rightarrow> (string + unit) \<times> 'b"

type_synonym 'b live_jobs = "'b \<Rightarrow> string \<times> string \<rightharpoonup> routed_work_payload"

definition add_job :: "string \<times> string \<Rightarrow> 'p \<Rightarrow> (string \<times> string \<rightharpoonup> 'p) \<Rightarrow> (string \<times> string \<rightharpoonup> 'p)" where
  "add_job key p jobs = (case jobs key of None \<Rightarrow> jobs(key \<mapsto> p) | Some q \<Rightarrow> jobs)"

definition dedup_queue :: "'b enqueue_unique \<Rightarrow> 'b live_jobs \<Rightarrow> bool" where
  "dedup_queue enqueue live \<longleftrightarrow>
     (\<forall>lane key p b b'. enqueue lane key p b = (Inr (), b') \<longrightarrow> live b' = add_job (lane, key) p (live b))"

text \<open>A registry whose other consumers leave the queue alone.\<close>

definition worklane_registry :: "'b enqueue_unique \<Rightarrow> 'b live_jobs \<Rightarrow> 'b consumer_registry \<Rightarrow> bool" where
  "worklane_registry enqueue live registry \<longleftrightarrow>
     registry WorklaneJob = Some (worklane_consume enqueue) \<and>
     (\<forall>kind c w d p. kind \<noteq> WorklaneJob \<and> registry kind = Some c \<longrightarrow> live (snd (c w d p)) = live w)"

section \<open>Which jobs a routing request asks for\<close>

definition routed_key :: "message_id \<Rightarrow> string \<times> string" where
  "routed_key i = (routed_work_lane, unique_key i)"

lemma routed_key_inj [simp]: "routed_key i = routed_key j \<longleftrightarrow> i = j"
  by (simp add: routed_key_def unique_key_inj)

definition wanted_job :: "rule_router \<Rightarrow> projection_store \<Rightarrow> message_id \<Rightarrow> routed_work_payload option" where
  "wanted_job router projections i =
     (case projection_store_get projections i of
        None \<Rightarrow> None
      | Some p \<Rightarrow>
          if dec_target (fst (router_route router p)) = WorklaneJob
          then Some \<lparr>rwp_message_id = i, rwp_projection = p\<rparr> else None)"

definition add_wanted ::
  "rule_router \<Rightarrow> projection_store \<Rightarrow> message_id \<Rightarrow> (string \<times> string \<rightharpoonup> routed_work_payload) \<Rightarrow>
   (string \<times> string \<rightharpoonup> routed_work_payload)" where
  "add_wanted router projections i jobs =
     (case wanted_job router projections i of None \<Rightarrow> jobs | Some p \<Rightarrow> add_job (routed_key i) p jobs)"

section \<open>The routing job on the queue\<close>

lemma dispatch_live:
  assumes "dedup_queue enqueue live" and "worklane_registry enqueue live registry"
    and "registry_dispatch registry w d p = (Inr u, w')"
  shows "live w' =
    (if dec_target d = WorklaneJob
     then add_job (routed_key (dec_message_id d)) \<lparr>rwp_message_id = dec_message_id d, rwp_projection = p\<rparr> (live w)
     else live w)"
proof (cases "dec_target d = WorklaneJob")
  case True
  then have "worklane_consume enqueue w d p = (Inr u, w')"
    using assms(2,3) by (simp add: worklane_registry_def dispatch_registered)
  then have "enqueue routed_work_lane (unique_key (dec_message_id d))
      \<lparr>rwp_message_id = dec_message_id d, rwp_projection = p\<rparr> w = (Inr (), w')"
    by (auto simp: worklane_consume_def Let_def split: prod.splits sum.splits)
  with assms(1) have "live w' = add_job (routed_work_lane, unique_key (dec_message_id d))
      \<lparr>rwp_message_id = dec_message_id d, rwp_projection = p\<rparr> (live w)"
    unfolding dedup_queue_def by blast
  with True show ?thesis by (simp add: routed_key_def)
next
  case False
  show ?thesis
  proof (cases "registry (dec_target d)")
    case None
    with assms(3) False show ?thesis by (simp add: dispatch_unregistered)
  next
    case (Some c)
    then have "c w d p = (Inr u, w')" using assms(3) by (simp add: dispatch_registered)
    moreover have "live (snd (c w d p)) = live w"
      using assms(2) False Some unfolding worklane_registry_def by blast
    ultimately show ?thesis using False by simp
  qed
qed

text \<open>A routing job that succeeds adds the wanted jobs, one message after the other.\<close>

lemma route_loop_live:
  assumes "dedup_queue enqueue live" and "worklane_registry enqueue live registry" and "projections_sound projections"
    and "route_loop router projections registry (routes, traces, w) is = (HOk, (routes', traces', w'))"
  shows "live w' = fold (add_wanted router projections) is (live w)"
  using assms(4)
proof (induction "is" arbitrary: routes traces w)
  case (Cons j "is")
  show ?case
  proof (cases "projection_store_get projections j")
    case None
    with Cons show ?thesis by (simp add: add_wanted_def wanted_job_def)
  next
    case (Some p)
    then have j: "proj_message_id p = j"
      using assms(3) by (simp add: projections_sound_def projection_store_get_def)
    obtain decision trace where dt: "router_route router p = (decision, trace)" by fastforce
    then have id: "dec_message_id decision = j" using route_ids(1) [of router p] j by simp
    from Cons.prems Some dt obtain u w1 where w1: "registry_dispatch registry w decision p = (Inr u, w1)"
      and rest: "route_loop router projections registry
        (routing_store_upsert routes decision, routing_trace_store_upsert traces trace, w1) is =
        (HOk, (routes', traces', w'))"
      by (auto simp: Let_def split: prod.splits sum.splits)
    have "live w1 = add_wanted router projections j (live w)"
      using dispatch_live [OF assms(1,2) w1] Some dt id by (simp add: add_wanted_def wanted_job_def)
    with Cons.IH [OF rest] show ?thesis by simp
  qed
qed simp

lemma add_wanted_other: "key \<noteq> routed_key i \<Longrightarrow> add_wanted router projections i jobs key = jobs key"
  by (auto simp: add_wanted_def add_job_def split: option.split)

lemma add_wanted_own:
  "add_wanted router projections i jobs (routed_key i) =
    (case jobs (routed_key i) of None \<Rightarrow> wanted_job router projections i | Some q \<Rightarrow> Some q)"
  by (auto simp: add_wanted_def add_job_def split: option.split)

lemma fold_wanted_other:
  "\<forall>i\<in>set is. key \<noteq> routed_key i \<Longrightarrow> fold (add_wanted router projections) is jobs key = jobs key"
  by (induction "is" arbitrary: jobs) (simp_all add: add_wanted_other)

lemma fold_wanted_kept:
  "jobs key = Some q \<Longrightarrow> fold (add_wanted router projections) is jobs key = Some q"
proof (induction "is" arbitrary: jobs)
  case (Cons i "is")
  have "add_wanted router projections i jobs key = Some q"
    using Cons.prems add_wanted_other [of key i] by (cases "key = routed_key i") (simp_all add: add_wanted_own)
  then show ?case using Cons.IH [of "add_wanted router projections i jobs"] by simp
qed simp

lemma fold_wanted_own:
  assumes "i \<in> set is" and "jobs (routed_key i) = None"
  shows "fold (add_wanted router projections) is jobs (routed_key i) = wanted_job router projections i"
  using assms
proof (induction "is" arbitrary: jobs)
  case (Cons j "is")
  let ?jobs = "add_wanted router projections j jobs"
  show ?case
  proof (cases "wanted_job router projections i")
    case None
    have "?jobs (routed_key i) = None"
      using Cons.prems(2) None add_wanted_other [of "routed_key i" j] by (cases "i = j") (simp_all add: add_wanted_own)
    then show ?thesis
      using Cons.IH [of ?jobs] fold_wanted_other [of "is" "routed_key i" router projections ?jobs] None
      by (cases "i \<in> set is") auto
  next
    case (Some q)
    show ?thesis
    proof (cases "i = j")
      case True
      then have "?jobs (routed_key i) = Some q" using Cons.prems(2) Some by (simp add: add_wanted_own)
      then show ?thesis using fold_wanted_kept [of ?jobs "routed_key i" q] Some by simp
    next
      case False
      then have "?jobs (routed_key i) = None" using Cons.prems(2) add_wanted_other [of "routed_key i" j] by simp
      then show ?thesis using Cons.IH [of ?jobs] Cons.prems(1) False by simp
    qed
  qed
qed simp

text \<open>Messages that have their job, or want none, are left alone.\<close>

lemma fold_wanted_settled:
  assumes "\<forall>i\<in>set is. jobs (routed_key i) = None \<longrightarrow> wanted_job router projections i = None"
  shows "fold (add_wanted router projections) is jobs key = jobs key"
proof -
  have "add_wanted router projections i jobs = jobs" if "i \<in> set is" for i
  proof
    fix key
    show "add_wanted router projections i jobs key = jobs key"
      using assms that add_wanted_other [of key i] by (cases "key = routed_key i") (auto simp: add_wanted_own split: option.split)
  qed
  then have "fold (add_wanted router projections) is jobs = jobs" by (induction "is") simp_all
  then show ?thesis by simp
qed

lemma route_loop_succeeds:
  assumes "\<And>w d p. \<exists>w'. registry_dispatch registry w d p = (Inr (), w')"
  shows "\<exists>st'. route_loop router projections registry st is = (HOk, st')"
proof (induction "is" arbitrary: st)
  case (Cons i "is")
  obtain routes traces w where st: "st = (routes, traces, w)" by (metis prod.exhaust)
  show ?case
  proof (cases "projection_store_get projections i")
    case None
    then show ?thesis using Cons.IH [of st] by (simp add: st)
  next
    case (Some p)
    obtain decision trace where dt: "router_route router p = (decision, trace)" by fastforce
    obtain w' where "registry_dispatch registry w decision p = (Inr (), w')" using assms by blast
    then show ?thesis
      using Cons.IH [of "(routing_store_upsert routes decision, routing_trace_store_upsert traces trace, w')"] Some dt
      by (simp add: st)
  qed
next
  case Nil
  show ?case by (rule exI [of _ st]) (rule route_loop.simps(1))
qed

end
