(* ===== verification/Drift.thy ===== *)
theory Drift
  imports Main Prelude F64 Runtime Model MessageLog Stores Skill HintDev Routing Mock ScopeWarmup
    Derivation Jobs Replay Derived Submission Sqlite SqliteLog SqliteCaches Github Llm Commands Cli CliRun
    Session Verify Samples Expertise
begin

text \<open>
  A log on which \<open>verify\<close> depends on how decimals are parsed. In the first conversation \<open>al\<close> mentions
  \<open>auth\<close> once, with confidence 0.6, and \<open>bob\<close> twice, with 0.7 and 0.8. The score of \<open>al\<close> is 0.6 / 1.5,
  in binary64 the number just below 0.4, whose shortest decimal is 0.39999999999999997. A parser that
  is off by one unit in the last place there returns 0.4.
\<close>

definition drift_log :: "message_envelope list" where
  "drift_log =
     [sample_message ''m1'' ''c1'' ''al'' ''auth'', sample_message ''m2'' ''c1'' ''bob'' ''auth rust'',
      sample_message ''m3'' ''c1'' ''bob'' ''auth rust sdk'']"

definition drift_score :: f64 where
  "drift_score = FFin False (7205759403792793 / 18014398509481984)"

definition drift_read :: "f64 \<Rightarrow> f64" where
  "drift_read w = (if w = drift_score then FFin False (3602879701896397 / 9007199254740992) else w)"

definition drift_stores :: replay_stores where
  "drift_stores = mock_stores ascii_lower drift_log"

lemma drift_log_wf: "log_wf drift_log"
  by (simp add: drift_log_def sample_message_def log_wf_def)

lemma drift_conversations: "default_conversation_ids drift_log = [ConversationId ''c1'']"
  by (simp add: drift_log_def default_conversation_ids_def)

lemma drift_keywords:
  "filter (str_contains (ascii_lower ''auth'')) topic_keywords = [''auth'']"
  "filter (str_contains (ascii_lower ''auth rust'')) topic_keywords = [''rust'', ''auth'']"
  "filter (str_contains (ascii_lower ''auth rust sdk'')) topic_keywords = [''rust'', ''sdk'', ''auth'']"
  "filter (str_contains (ascii_lower ''auth'')) entity_keywords = []"
  "filter (str_contains (ascii_lower ''auth rust'')) entity_keywords = []"
  "filter (str_contains (ascii_lower ''auth rust sdk'')) entity_keywords = []"
  by code_simp+

text \<open>The numbers of the example, in binary64; 0.4 itself is the neighbour of the score.\<close>

lemma drift_confidence_1: "confidence_get (signal_confidence (Suc 0)) = FFin False (5404319552844595 / 9007199254740992)"
  by code_simp

lemma drift_confidence_2: "confidence_get (signal_confidence 2) = FFin False (3152519739159347 / 4503599627370496)"
  by code_simp

lemma drift_confidence_3: "confidence_get (signal_confidence 3) = FFin False (3602879701896397 / 4503599627370496)"
  by code_simp

lemma drift_sums:
  "f64_add f64_zero (FFin False (5404319552844595 / 9007199254740992)) = FFin False (5404319552844595 / 9007199254740992)"
  "f64_add (f64_add f64_zero (FFin False (3152519739159347 / 4503599627370496)))
    (FFin False (3602879701896397 / 4503599627370496)) = FFin False (3 / 2)"
  by code_simp+

lemma drift_quotient: "round_mag (5404319552844595 / 13510798882111488) = 7205759403792793 / 18014398509481984"
  by code_simp

lemma drift_neighbour: "f64_lit (4 / 10) = FFin False (3602879701896397 / 9007199254740992)"
  by code_simp

lemmas drift_numbers = drift_confidence_1 drift_confidence_2 drift_confidence_3 drift_sums

lemma drift_contributions:
  "map (message_contribution (mock_run ascii_lower)) drift_log =
   [\<lparr>sk_author = AuthorId ''al'', sk_display_name = ''al'', sk_topics = [Topic ''auth''], sk_confidence = signal_confidence (Suc 0)\<rparr>,
    \<lparr>sk_author = AuthorId ''bob'', sk_display_name = ''bob'', sk_topics = [Topic ''rust'', Topic ''auth''], sk_confidence = signal_confidence 2\<rparr>,
    \<lparr>sk_author = AuthorId ''bob'', sk_display_name = ''bob'', sk_topics = [Topic ''rust'', Topic ''sdk'', Topic ''auth''], sk_confidence = signal_confidence 3\<rparr>]"
  by (simp add: drift_log_def message_contribution_def mock_run_def sample_message_def drift_keywords Let_def numeral_2_eq_2 numeral_3_eq_3 del: mock_run_fields)

lemma drift_weights:
  defines "ks \<equiv> map (message_contribution (mock_run ascii_lower)) drift_log"
  shows "weight_spec ks ''al'' ''auth'' = Some (FFin False (5404319552844595 / 9007199254740992))"
    and "peak_weight ks ''auth'' = 3 / 2"
proof -
  show al: "weight_spec ks ''al'' ''auth'' = Some (FFin False (5404319552844595 / 9007199254740992))"
    by (simp add: ks_def drift_contributions weight_spec_def mentions_def drift_numbers)
  have bob: "weight_spec ks ''bob'' ''auth'' = Some (FFin False (3 / 2))"
    by (simp add: ks_def drift_contributions weight_spec_def mentions_def drift_numbers)
  have "List.map_filter (\<lambda>k. map_option f64_rat (weight_spec ks (author_id_str (sk_author k)) ''auth'')) ks =
      [5404319552844595 / 9007199254740992, 3 / 2, 3 / 2]"
    using al bob by (simp add: ks_def drift_contributions List.map_filter_simps F64.signed_def)
  then show "peak_weight ks ''auth'' = 3 / 2" by (simp add: peak_weight_def)
qed

lemma drift_diverges:
  assumes "derivation_for drift_log drift_stores (ConversationId ''c1'') = Some x"
  shows "\<not> survives drift_read x"
proof -
  let ?f = "mock_run ascii_lower" and ?m = "sample_message ''m1'' ''c1'' ''al'' ''auth''"
  let ?ks = "map (message_contribution ?f) drift_log"
  have conf: "\<forall>m\<in>set drift_log. confidence_ok (proj_confidence (?f m))" by (intro ballI mock_confidence_ok)
  have m: "?m \<in> set drift_log" by (simp add: drift_log_def)
  have t: "Topic ''auth'' \<in> set (proj_topics (?f ?m))" by (simp add: mock_run_def Let_def drift_keywords del: mock_run_fields)
  obtain sd d w e where sd: "rs_developers drift_stores (ConversationId ''c1'') = Some sd" "d \<in> set (sd_developers sd)"
    and w: "w \<in> set (si_ownerships (skill_build ?ks))" "own_topic w = Topic ''auth''" "e \<in> set (own_candidates w)"
    and e: "ec_author e = AuthorId ''al''" "score_ok e"
    and tw: "\<lparr>tw_topic = Topic ''auth'', tw_weight = skill_score_get (ec_score e)\<rparr> \<in> set (ds_topics d)"
    using spec_topic_weight [OF drift_log_wf conf m t, of ascii_lower "mock_step ascii_lower"]
    by (metis drift_stores_def mock_stores_def sample_message_fields(2) sample_author)
  have ks: "\<forall>k\<in>set ?ks. contribution_ok k"
    using conf by (simp add: contribution_ok_def message_contribution_def)
  have "f64_rat (skill_score_get (ec_score e)) = 7205759403792793 / 18014398509481984"
    by (rule skill_candidate [OF ks w(1,3)]) (simp add: w(2) e(1) drift_weights drift_quotient F64.signed_def)
  moreover have "weight_ok (skill_score_get (ec_score e))" using e(2) by (auto simp: score_ok_def intro: weight_ok_unit)
  moreover have "weight_ok drift_score"
    using representable_round_mag [of "5404319552844595 / 13510798882111488"]
    unfolding drift_quotient drift_score_def weight_ok_def f64_within_def
    by (intro exI [of _ False] exI [of _ "7205759403792793 / 18014398509481984"]) simp
  ultimately have score: "skill_score_get (ec_score e) = drift_score"
    by (intro f64_rat_inject) (simp_all add: drift_score_def F64.signed_def)
  have "cd_developers x = Some sd"
    using assms sd(1) by (auto simp: derivation_for_def Let_def developer_store_get_def split: option.splits)
  then have "drift_score \<in> set (derivation_weights x)"
    using sd(2) tw score by (force simp: derivation_weights_def)
  moreover have "\<not> f64_eq (drift_read drift_score) drift_score"
    by (simp add: drift_read_def) (simp add: drift_score_def f64_eq_def F64.signed_def cmp_of_def)
  ultimately show ?thesis by (auto simp: survives_def)
qed

text \<open>A file with that log, and a codec of derivations with that parser.\<close>

definition drift_dec_derivation :: "string \<Rightarrow> conversation_derivation option" where
  "drift_dec_derivation t = map_option (read_derivation drift_read) (derivation_for drift_log drift_stores (ConversationId t))"

definition drift_externals :: "unit externals" where
  "drift_externals = sample_externals\<lparr>ex_dec_derivation := drift_dec_derivation\<rparr>"

lemma drift_externals_simps [simp]:
  "ex_lower drift_externals = ascii_lower" "ex_enc_derivation drift_externals = sample_enc_derivation"
  "ex_dec_derivation drift_externals = drift_dec_derivation"
  by (simp_all add: drift_externals_def)

lemma drift_reads:
  "derivation_for drift_log drift_stores c = Some x \<Longrightarrow>
    drift_dec_derivation (sample_enc_derivation x) = Some (read_derivation drift_read x)"
  by (auto simp: sample_enc_derivation_def drift_dec_derivation_def derivation_for_def Let_def split: option.splits)

definition drift_rows :: "message_row list" where
  "drift_rows = map2 (\<lambda>i m. \<lparr>mr_id = message_id_str (env_id m), mr_seq = i, mr_payload = sample_enc m\<rparr>)
     [1, 2, 3] drift_log"

definition drift_db :: sqlite_db where
  "drift_db = sample_db\<lparr>db_messages := Some drift_rows\<rparr>"

lemma drift_db_all: "sqlite_all sample_dec drift_db = Some drift_log"
proof -
  have row: "row_message sample_dec sample_jget \<lparr>mr_id = message_id_str (env_id m), mr_seq = i, mr_payload = sample_enc m\<rparr> m"
    for m i
    using sample_storable [of m] by (simp add: row_message_def message_storable_def)
  have all2: "list_all2 (row_message sample_dec sample_jget) drift_rows drift_log"
    by (simp add: drift_rows_def drift_log_def row [of "sample_message i c a b" for i c a b, simplified])
  have "sorted_wrt (<) (map mr_seq drift_rows)" by (simp add: drift_rows_def drift_log_def)
  then show ?thesis by (intro sqlite_all_rows [OF _ _ all2]) (simp_all add: drift_db_def)
qed

lemma drift_db_facts:
  "0 \<le> db_user_version drift_db" "cli_open drift_db = (True, drift_db)" "sqlite_derived_ok dec drift_db"
proof -
  show "cli_open drift_db = (True, drift_db)" by (rule versioned_skips(1)) (simp add: drift_db_def sample_db_def)
qed (simp_all add: drift_db_def sample_db_def sqlite_derived_ok_def)

end
