(* ===== verification/Tests_Core.thy ===== *)
theory Tests_Core
  imports Main Prelude F64 Runtime Model MessageLog Stores Routing Mock Derivation
begin

text \<open>
  The unit tests of the runtime and the core crate, read as definitions over the model: a fixture is
  a function, a test is the truth of its assertions, \<open>assert_eq\<close> on a type with a float is the
  derived equality. Each test is then evaluated. Tests that print and parse JSON are not here,
  because serde is a parameter of the model.
\<close>

named_theorems test_simps \<open>fixtures and operations that the tests unfold\<close>

section \<open>Literals of the tests\<close>

lemma lit_values:
  "f64_lit (9 / 10) = FFin False (8106479329266893 / 9007199254740992)"
  "f64_lit (4 / 5) = FFin False (3602879701896397 / 4503599627370496)"
  "f64_lit (43 / 50) = FFin False (7746191359077253 / 9007199254740992)"
  "f64_lit (2 / 5) = FFin False (3602879701896397 / 9007199254740992)"
  "f64_lit (3 / 2) = FFin False (3 / 2)"
  "f64_lit (1 / 2) = FFin False (1 / 2)" "f64_lit 1 = FFin False 1"
  by code_simp+

lemmas score_simps [test_simps] = confidence_new_def confidence_get_def skill_score_new_def skill_score_get_def f64_clamp_def
  f64_lt_def f64_eq_def f64_zero_def f64_one_def F64.signed_def lit_values lit_tenth confidence_eq_def projection_eq_def
  expert_candidate_eq_def

section \<open>Runtime\<close>

text \<open>The probe doubles a number and counts its runs in its state.\<close>

definition counting_doubler :: "(nat, nat, nat) step" where
  "counting_doubler =
     \<lparr>st_kind = ''probe.doubler'', st_version = StepVersion ''v1'', st_run = (\<lambda>calls n. (Some (n * 2), Suc calls))\<rparr>"

definition panicking_step :: "('s, nat, nat) step" where
  "panicking_step =
     \<lparr>st_kind = ''probe.panicking'', st_version = StepVersion ''v1'', st_run = (\<lambda>s n. (None, s))\<rparr>"

definition doubler :: "('s, nat, nat) step" where
  "doubler =
     \<lparr>st_kind = ''probe.doubler'', st_version = StepVersion ''v1'', st_run = (\<lambda>s n. (Some (n * 2), s))\<rparr>"

definition test_panicking_inner_caches_nothing :: bool where
  "test_panicking_inner_caches_nothing =
     (let cached = cached_step cache_get cache_put show_nat panicking_step (StepVersion ''v1'');
          (result, (cache, s)) = st_run cached (cache_new, ()) 21 in
      result = None \<and> cache_len cache = 0)"

definition test_cache_get_put_version_miss :: bool where
  "test_cache_get_put_version_miss =
     (let v = StepVersion ''v1''; cache = cache_put cache_new ''k'' v ''key'' (42 :: nat) in
      cache_get cache ''k'' v ''key'' = Some 42 \<and> cache_get cache ''k'' (StepVersion ''v2'') ''key'' = None)"

definition test_inner_runs_only_on_a_miss :: bool where
  "test_inner_runs_only_on_a_miss =
     (let cached = cached_step cache_get cache_put show_nat counting_doubler (StepVersion ''v1'');
          (out1, st1) = st_run cached (cache_new, 0) 21;
          (out2, st2) = st_run cached st1 21 in
      out1 = Some 42 \<and> out2 = Some 42 \<and> snd st2 = 1)"

definition test_changed_version_recomputes :: bool where
  "test_changed_version_recomputes =
     (let (out1, st1) = st_run (cached_step cache_get cache_put show_nat counting_doubler (StepVersion ''v1'')) (cache_new, 0) 21;
          (out2, st2) = st_run (cached_step cache_get cache_put show_nat counting_doubler (StepVersion ''v2'')) st1 21 in
      snd st2 = 2)"

definition test_cached_wraps_a_trait_object :: bool where
  "test_cached_wraps_a_trait_object =
     (let cached = cached_step cache_get cache_put show_nat (dyn_step counting_doubler) (StepVersion ''v1'');
          (out1, st1) = st_run cached (cache_new, 0) 5;
          (out2, st2) = st_run cached st1 5 in
      out1 = Some 10 \<and> out2 = Some 10)"

definition test_domain_free_step_runs :: bool where
  "test_domain_free_step_runs =
     (fst (st_run doubler () 21) = Some 42 \<and> st_kind (doubler :: (unit, nat, nat) step) = ''probe.doubler'' \<and>
      st_version (doubler :: (unit, nat, nat) step) = StepVersion ''v1'')"

definition test_step_is_object_safe :: bool where
  "test_step_is_object_safe = (fst (st_run (dyn_step doubler) () 5) = Some 10)"

lemmas runtime_ops [test_simps] = Let_def cached_run_def cache_get_def cache_put_def cache_new_def cache_len_def
  dyn_step_def counting_doubler_def panicking_step_def doubler_def

lemma runtime_tests:
  test_panicking_inner_caches_nothing test_cache_get_put_version_miss test_inner_runs_only_on_a_miss
  test_changed_version_recomputes test_cached_wraps_a_trait_object test_domain_free_step_runs test_step_is_object_safe
  unfolding test_panicking_inner_caches_nothing_def test_cache_get_put_version_miss_def test_inner_runs_only_on_a_miss_def
    test_changed_version_recomputes_def test_cached_wraps_a_trait_object_def test_domain_free_step_runs_def test_step_is_object_safe_def
  by (simp_all add: test_simps)

section \<open>Stores\<close>

lemmas store_ops [test_simps] = store_new_def store_len_def projection_store_upsert_def projection_store_get_def
  scope_store_upsert_def scope_store_get_def warmup_store_upsert_def warmup_store_get_def skill_store_upsert_def
  skill_store_get_def routing_store_upsert_def routing_store_get_def routing_hint_store_upsert_def routing_hint_store_get_def
  developer_store_upsert_def developer_store_get_def

definition fx_projection :: "string \<Rightarrow> rat \<Rightarrow> projection" where
  "fx_projection i c =
     \<lparr>proj_message_id = MessageId i, proj_intent = Social, proj_topics = [], proj_entities = [],
      proj_confidence = confidence_new (f64_lit c)\<rparr>"

definition test_upsert_keyed_by_message_id :: bool where
  "test_upsert_keyed_by_message_id =
     (let store = projection_store_upsert (projection_store_upsert store_new (fx_projection ''m-1'' (1 / 10)))
            (fx_projection ''m-1'' (9 / 10)) in
      store_len store = 1 \<and>
      f64_eq (confidence_get (proj_confidence (the (projection_store_get store (MessageId ''m-1''))))) (f64_lit (9 / 10)))"

definition test_get_returns_stored_projection :: bool where
  "test_get_returns_stored_projection =
     (let p = fx_projection ''m-2'' (5 / 10); store = projection_store_upsert store_new p in
      option_eq projection_eq (projection_store_get store (MessageId ''m-2'')) (Some p))"

definition fx_scope :: "string \<Rightarrow> string \<Rightarrow> scope" where
  "fx_scope c reason =
     \<lparr>sc_conversation = ConversationId c, sc_load = [], sc_ignore = [], sc_reason = reason,
      sc_confidence = confidence_new f64_zero\<rparr>"

definition test_scope_upsert_keyed :: bool where
  "test_scope_upsert_keyed =
     (let store = scope_store_upsert (scope_store_upsert store_new (fx_scope ''c-1'' ''first'')) (fx_scope ''c-1'' ''second'') in
      store_len store = 1 \<and> sc_reason (the (scope_store_get store (ConversationId ''c-1''))) = ''second'')"

definition fx_document :: "string \<Rightarrow> string \<Rightarrow> warmup_document" where
  "fx_document c summary =
     \<lparr>wu_conversation = ConversationId c, wu_focus = [], wu_decisions = [], wu_open_questions = [], wu_tasks = [],
      wu_summary = summary\<rparr>"

definition test_warmup_resume_returns_stored :: bool where
  "test_warmup_resume_returns_stored =
     (let doc = fx_document ''c-1'' ''first''; store = warmup_store_upsert store_new doc in
      warmup_store_get store (ConversationId ''c-1'') = Some doc)"

definition test_warmup_upsert_keyed :: bool where
  "test_warmup_upsert_keyed =
     (let store = warmup_store_upsert (warmup_store_upsert store_new (fx_document ''c-1'' ''first'')) (fx_document ''c-1'' ''second'') in
      store_len store = 1 \<and> wu_summary (the (warmup_store_get store (ConversationId ''c-1''))) = ''second'')"

definition fx_ownership :: "string \<Rightarrow> rat \<Rightarrow> topic_ownership" where
  "fx_ownership t score =
     \<lparr>own_topic = Topic t, own_candidates =
       [\<lparr>ec_author = AuthorId ''u-1'', ec_display_name = ''Dev'', ec_score = skill_score_new (f64_lit score)\<rparr>]\<rparr>"

definition test_skill_upsert_keyed :: bool where
  "test_skill_upsert_keyed =
     (let store = skill_store_upsert (skill_store_upsert store_new (fx_ownership ''auth'' (4 / 10))) (fx_ownership ''auth'' (9 / 10)) in
      store_len store = 1 \<and>
      f64_eq (skill_score_get (ec_score (hd (own_candidates (the (skill_store_get store (Topic ''auth'')))))))
        (f64_lit (9 / 10)))"

definition fx_decision :: "string \<Rightarrow> string \<Rightarrow> routing_decision" where
  "fx_decision i reason =
     \<lparr>dec_message_id = MessageId i, dec_target = Human, dec_reason = reason, dec_escalated = False\<rparr>"

definition test_routing_upsert_keyed :: bool where
  "test_routing_upsert_keyed =
     (let store = routing_store_upsert (routing_store_upsert store_new (fx_decision ''m-1'' ''first'')) (fx_decision ''m-1'' ''second'') in
      store_len store = 1 \<and> dec_reason (the (routing_store_get store (MessageId ''m-1''))) = ''second'')"

definition fx_candidate :: "string \<Rightarrow> rat \<Rightarrow> expert_candidate" where
  "fx_candidate a score =
     \<lparr>ec_author = AuthorId a, ec_display_name = a, ec_score = skill_score_new (f64_lit score)\<rparr>"

definition fx_hint :: "string \<Rightarrow> string \<Rightarrow> routing_hint" where
  "fx_hint i reviewer =
     (let candidate = fx_candidate reviewer 1 in
      \<lparr>hint_message_id = MessageId i, hint_reviewers = [candidate], hint_human_hint = Some candidate\<rparr>)"

definition test_routing_hint_upsert_keyed :: bool where
  "test_routing_hint_upsert_keyed =
     (let store = routing_hint_store_upsert (routing_hint_store_upsert store_new (fx_hint ''m-1'' ''alice'')) (fx_hint ''m-1'' ''bob'') in
      store_len store = 1 \<and>
      option_eq expert_candidate_eq (hint_human_hint (the (routing_hint_store_get store (MessageId ''m-1'')))) (Some (fx_candidate ''bob'' 1)))"

definition fx_session_developers :: "string \<Rightarrow> string \<Rightarrow> session_developers" where
  "fx_session_developers c name =
     \<lparr>sd_conversation = ConversationId c,
      sd_developers = [\<lparr>ds_author = AuthorId ''u-1'', ds_display_name = name, ds_topics = []\<rparr>]\<rparr>"

definition test_developer_upsert_keyed :: bool where
  "test_developer_upsert_keyed =
     (let store = developer_store_upsert (developer_store_upsert store_new (fx_session_developers ''c-1'' ''first''))
            (fx_session_developers ''c-1'' ''second'') in
      store_len store = 1 \<and>
      ds_display_name (hd (sd_developers (the (developer_store_get store (ConversationId ''c-1''))))) = ''second'')"

lemmas store_fixtures [test_simps] = fx_projection_def fx_scope_def fx_document_def fx_ownership_def fx_decision_def
  fx_candidate_def fx_hint_def fx_session_developers_def

lemma store_tests:
  test_upsert_keyed_by_message_id test_get_returns_stored_projection test_scope_upsert_keyed test_warmup_resume_returns_stored
  test_warmup_upsert_keyed test_skill_upsert_keyed test_routing_upsert_keyed test_routing_hint_upsert_keyed test_developer_upsert_keyed
  unfolding test_upsert_keyed_by_message_id_def test_get_returns_stored_projection_def test_scope_upsert_keyed_def
    test_warmup_resume_returns_stored_def test_warmup_upsert_keyed_def test_skill_upsert_keyed_def test_routing_upsert_keyed_def
    test_routing_hint_upsert_keyed_def test_developer_upsert_keyed_def
  by (simp_all add: test_simps)

section \<open>The log, keys and versions\<close>

definition fx_message :: "string \<Rightarrow> string \<Rightarrow> string \<Rightarrow> message_envelope" where
  "fx_message i c body =
     \<lparr>env_id = MessageId i, env_source = Manual, env_author = \<lparr>au_id = AuthorId ''u-1'', au_display_name = ''Dev''\<rparr>,
      env_conversation = \<lparr>conv_id = ConversationId c, conv_thread = None\<rparr>, env_body = body\<rparr>"

definition test_same_id_twice_keeps_one :: bool where
  "test_same_id_twice_keeps_one =
     (let s = mem_log_append (fx_message ''m-1'' ''c-1'' ''second'') (mem_log_append (fx_message ''m-1'' ''c-1'' ''first'') mem_log_new) in
      mem_log_len s = 1 \<and> env_body (the (mem_log_get s (MessageId ''m-1''))) = ''second'')"

definition test_all_preserves_append_order :: bool where
  "test_all_preserves_append_order =
     (let s = fold mem_log_append [fx_message ''m-3'' ''c-1'' ''c'', fx_message ''m-1'' ''c-1'' ''a'', fx_message ''m-2'' ''c-1'' ''b'']
            mem_log_new in
      map (message_id_str \<circ> env_id) (mem_log_all s) = [''m-3'', ''m-1'', ''m-2''])"

definition test_conversation_reads_match_all :: bool where
  "test_conversation_reads_match_all =
     (let s = fold mem_log_append [fx_message ''m-1'' ''c-1'' ''a'', fx_message ''m-2'' ''c-2'' ''b'', fx_message ''m-3'' ''c-1'' ''c'']
            mem_log_new in
      mem_log_conversation_ids s = [ConversationId ''c-1'', ConversationId ''c-2''] \<and>
      map (message_id_str \<circ> env_id) (mem_log_messages_for s (ConversationId ''c-1'')) = [''m-1'', ''m-3''] \<and>
      mem_log_messages_for s (ConversationId ''absent'') = [])"

text \<open>The first test of \<open>cache.rs\<close> needs a hash that tells the two messages apart.\<close>

definition test_message_cache_key_covers_id_and_body :: "hash_function \<Rightarrow> bool" where
  "test_message_cache_key_covers_id_and_body hasher =
     (message_cache_key hasher (fx_message ''m-1'' ''c-1'' ''hello'') = message_cache_key hasher (fx_message ''m-1'' ''c-1'' ''hello'') \<and>
      message_cache_key hasher (fx_message ''m-1'' ''c-1'' ''hello'') \<noteq>
        message_cache_key hasher ((fx_message ''m-1'' ''c-1'' ''hello'')\<lparr>env_body := ''hello, edited''\<rparr>))"

definition test_projection_cache_misses_on_version :: "hash_function \<Rightarrow> bool" where
  "test_projection_cache_misses_on_version hasher =
     (let v1 = StepVersion ''v1''; key = message_cache_key hasher (fx_message ''m-1'' ''c-1'' ''hello'');
          cache = cache_put cache_new ''proj'' v1 key (fx_projection ''m-1'' (5 / 10)) in
      option_eq projection_eq (cache_get cache ''proj'' v1 key) (Some (fx_projection ''m-1'' (5 / 10))) \<and>
      cache_get cache ''proj'' (StepVersion ''v2'') key = None)"

definition test_version_varies_and_embeds_schema :: bool where
  "test_version_varies_and_embeds_schema =
     (let p1 = StepVersion ''p1''; p2 = StepVersion ''p2'' in
      version_str (derivation_version ''projection'' p1) \<noteq> version_str (derivation_version ''custom'' p1) \<and>
      version_str (derivation_version ''projection'' p1) \<noteq> version_str (derivation_version ''projection'' p2) \<and>
      take (length derivation_schema_version) (version_str (derivation_version ''projection'' p1)) = derivation_schema_version)"

definition fx_derivation :: "string \<Rightarrow> conversation_derivation" where
  "fx_derivation c =
     \<lparr>cd_conversation = ConversationId c, cd_projections = [], cd_scope = None, cd_warmup = fx_document c ''s'',
      cd_developers = None, cd_hints = []\<rparr>"

definition test_derived_cache_does_not_alias :: bool where
  "test_derived_cache_does_not_alias =
     (let version = StepVersion ''1:projection:v1''; conv = ConversationId ''github:acme/widgets'';
          cache = derived_put derived_new version conv ''hash'' (fx_derivation ''github:acme/widgets'') in
      derived_get cache (StepVersion ''1:projection'') (ConversationId ''v1:github:acme/widgets'') ''hash'' = None \<and>
      option_eq derivation_eq (derived_get cache version conv ''hash'') (Some (fx_derivation ''github:acme/widgets'')))"

lemmas log_ops [test_simps] = mem_log_append_def mem_log_new_def mem_log_len_def mem_log_get_def mem_log_all_def
  mem_log_conversation_ids_def mem_log_messages_for_def default_messages_for_def default_conversation_ids_def
  conversation_of_def derivation_version_def derivation_schema_version_def derived_get_def derived_put_def derived_new_def
  derived_key_def derivation_eq_def fx_message_def fx_derivation_def

lemma log_tests:
  test_same_id_twice_keeps_one test_all_preserves_append_order test_conversation_reads_match_all
  "test_projection_cache_misses_on_version hasher" test_version_varies_and_embeds_schema test_derived_cache_does_not_alias
  unfolding test_same_id_twice_keeps_one_def test_all_preserves_append_order_def test_conversation_reads_match_all_def
    test_projection_cache_misses_on_version_def test_version_varies_and_embeds_schema_def test_derived_cache_does_not_alias_def
  by (simp_all add: test_simps)

lemma cache_key_test:
  assumes "hasher (message_bytes (fx_message ''m-1'' ''c-1'' ''hello'')) \<noteq> hasher (message_bytes (fx_message ''m-1'' ''c-1'' ''hello, edited''))"
  shows "test_message_cache_key_covers_id_and_body hasher"
  using assms by (simp add: test_message_cache_key_covers_id_and_body_def message_cache_key_def hex16_inj fx_message_def)

section \<open>Scores and dispatch\<close>

definition test_confidence_is_clamped :: bool where
  "test_confidence_is_clamped =
     (f64_eq (confidence_get (confidence_new (f64_lit (15 / 10)))) (f64_lit 1) \<and>
      f64_eq (confidence_get (confidence_new (f64_mul (FFin True 1) (f64_lit (2 / 10))))) f64_zero \<and>
      f64_eq (confidence_get (confidence_new (f64_lit (86 / 100)))) (f64_lit (86 / 100)))"

definition test_skill_score_is_clamped :: bool where
  "test_skill_score_is_clamped =
     (f64_eq (skill_score_get (skill_score_new (f64_lit (15 / 10)))) (f64_lit 1) \<and>
      f64_eq (skill_score_get (skill_score_new (f64_mul (FFin True 1) (f64_lit (2 / 10))))) f64_zero \<and>
      f64_eq (skill_score_get (skill_score_new (f64_lit (5 / 10)))) (f64_lit (5 / 10)))"

definition fx_decision_to :: "consumer_kind \<Rightarrow> routing_decision" where
  "fx_decision_to target =
     \<lparr>dec_message_id = MessageId ''m-1'', dec_target = target, dec_reason = ''test'', dec_escalated = False\<rparr>"

definition fx_routed_projection :: projection where
  "fx_routed_projection =
     \<lparr>proj_message_id = MessageId ''m-1'', proj_intent = Task, proj_topics = [], proj_entities = [],
      proj_confidence = confidence_new (f64_lit (9 / 10))\<rparr>"

text \<open>A consumer that notes what it is given, and one that fails.\<close>

definition spy :: "message_id list consumer" where
  "spy seen decision projection = (Inr (), seen @ [dec_message_id decision])"

definition failing :: "'w consumer" where
  "failing w decision projection = (Inl (consumer_error_new ''boom''), w)"

definition test_dispatch_reaches_the_target :: bool where
  "test_dispatch_reaches_the_target =
     (let registry = registry_register registry_new Agent spy;
          (result, seen) = registry_dispatch registry [] (fx_decision_to Agent) fx_routed_projection in
      result = Inr () \<and> length seen = 1)"

definition test_dispatch_unregistered_is_a_noop :: bool where
  "test_dispatch_unregistered_is_a_noop =
     (let registry = registry_register registry_new Agent spy;
          (result, seen) = registry_dispatch registry [] (fx_decision_to Human) fx_routed_projection in
      result = Inr () \<and> seen = [])"

definition test_consumer_error_propagates :: bool where
  "test_consumer_error_propagates =
     (let registry = registry_register registry_new Agent failing in
      fst (registry_dispatch registry () (fx_decision_to Agent) fx_routed_projection) = Inl (consumer_error_new ''boom''))"

lemma minus_two_tenths: "f64_mul (FFin True 1) (f64_lit (1 / 5)) = FFin True (3602879701896397 / 18014398509481984)"
  by code_simp

lemmas dispatch_ops [test_simps] = dispatch_register registry_new_def dispatch_unregistered minus_two_tenths
  fx_decision_to_def spy_def failing_def

lemma score_and_dispatch_tests:
  test_confidence_is_clamped test_skill_score_is_clamped test_dispatch_reaches_the_target
  test_dispatch_unregistered_is_a_noop test_consumer_error_propagates
  unfolding test_confidence_is_clamped_def test_skill_score_is_clamped_def test_dispatch_reaches_the_target_def
    test_dispatch_unregistered_is_a_noop_def test_consumer_error_propagates_def
  by (simp_all add: test_simps)

end
