(* ===== verification/Tests_Provider.thy ===== *)
theory Tests_Provider
  imports Main Prelude F64 Runtime Model MessageLog Stores Skill HintDev Routing Mock ScopeWarmup Derivation Jobs Replay
    Derived Submission Sqlite SqliteLog SqliteCaches Github Llm Commands Cli CliRun Session Verify Tests_Core
begin

text \<open>
  The unit tests of the provider crate over the model, as in \<open>Tests_Core\<close>. The numbers of the
  scoring tests are computed in binary64.
\<close>

section \<open>Routing\<close>

definition fx_intent_projection :: "intent \<Rightarrow> rat \<Rightarrow> projection" where
  "fx_intent_projection i c =
     \<lparr>proj_message_id = MessageId ''m-1'', proj_intent = i, proj_topics = [Topic ''auth''],
      proj_entities = [Entity ''sqlite''], proj_confidence = confidence_new (f64_lit c)\<rparr>"

definition test_intent_selects_target :: bool where
  "test_intent_selects_target =
     (let (decision, trace) = router_route router_new (fx_intent_projection Task (9 / 10)) in
      dec_target decision = WorklaneJob \<and> \<not> dec_escalated decision)"

definition test_github_bound_intents :: bool where
  "test_github_bound_intents =
     list_all (\<lambda>i. let (decision, trace) = router_route router_new (fx_intent_projection i (9 / 10)) in
       dec_target decision = ConsumerGitHub \<and> \<not> dec_escalated decision) [Issue, Proposal]"

definition test_custom_rule_set_retargets :: bool where
  "test_custom_rule_set_retargets =
     (let router = router_with_rules [\<lparr>rule_intent = Issue, rule_target = Agent\<rparr>] (f64_lit (6 / 10)) Human;
          (decision, trace) = router_route router (fx_intent_projection Issue (9 / 10)) in
      dec_target decision = Agent)"

definition test_unmatched_intent_routes_to_default :: bool where
  "test_unmatched_intent_routes_to_default =
     (let router = router_with_rules [\<lparr>rule_intent = Issue, rule_target = ConsumerGitHub\<rparr>] (f64_lit (6 / 10)) Agent;
          (decision, trace) = router_route router (fx_intent_projection Task (9 / 10)) in
      dec_target decision = Agent \<and> \<not> dec_escalated decision)"

definition test_low_confidence_escalates :: bool where
  "test_low_confidence_escalates =
     (let (decision, trace) = router_route router_new (fx_intent_projection Decision (3 / 10)) in
      dec_target decision = Human \<and> dec_escalated decision)"

definition test_same_projection_routes_identically :: bool where
  "test_same_projection_routes_identically =
     (let p = fx_intent_projection Proposal (8 / 10) in
      fst (router_route router_new p) = fst (router_route router_new p) \<and>
      snd (router_route router_new p) = snd (router_route router_new p))"

definition test_recorder_dedups_redelivery :: bool where
  "test_recorder_dedups_redelivery =
     (let decision = fx_decision_to Agent; p = fx_intent_projection Proposal (8 / 10);
          (r1, c1) = recorder_consume recorder_new decision p;
          (r2, c2) = recorder_consume c1 decision p in
      r1 = Inr () \<and> r2 = Inr () \<and> recorder_len c2 = 1 \<and> recorder_received c2 Agent (MessageId ''m-1''))"

lemma lit_three_tenths: "f64_lit (3 / 10) = FFin False (5404319552844595 / 18014398509481984)"
  "f64_lit (3 / 5) = FFin False six_tenths" "f64_lit (7 / 10) = FFin False (3152519739159347 / 4503599627370496)"
  by code_simp+

lemmas routing_ops [test_simps] = router_route_def router_new_def router_with_rules_def default_rules_def target_for_def
  default_escalation_threshold_def recorder_consume_def recorder_new_def recorder_len_def recorder_received_def
  fx_intent_projection_def lit_three_tenths six_tenths_def

lemma routing_tests:
  test_intent_selects_target test_github_bound_intents test_custom_rule_set_retargets test_unmatched_intent_routes_to_default
  test_low_confidence_escalates test_same_projection_routes_identically test_recorder_dedups_redelivery
  unfolding test_intent_selects_target_def test_github_bound_intents_def test_custom_rule_set_retargets_def
    test_unmatched_intent_routes_to_default_def test_low_confidence_escalates_def test_same_projection_routes_identically_def
    test_recorder_dedups_redelivery_def
  by (simp_all add: test_simps)

section \<open>Projectors\<close>

text \<open>A projector that counts its calls in its state.\<close>

definition counting_projector :: "(nat, message_envelope, projection) step" where
  "counting_projector =
     \<lparr>st_kind = ''test.counting'', st_version = StepVersion ''counting:v1'',
      st_run = (\<lambda>calls m. (Some \<lparr>proj_message_id = env_id m, proj_intent = Social, proj_topics = [], proj_entities = [],
        proj_confidence = confidence_new (f64_lit (5 / 10))\<rparr>, Suc calls))\<rparr>"

definition test_projector_runs_only_on_a_miss :: "hash_function \<Rightarrow> bool" where
  "test_projector_runs_only_on_a_miss hasher =
     (let projector = caching_projector cache_get cache_put (message_cache_key hasher) counting_projector ''v1'';
          m = fx_message ''m-1'' ''c-1'' ''hello'';
          (first, st1) = st_run projector (cache_new, 0) m;
          (second, st2) = st_run projector st1 m in
      snd st2 = 1 \<and> first \<noteq> None \<and> option_eq projection_eq first second)"

definition test_projector_changed_version_recomputes :: "hash_function \<Rightarrow> bool" where
  "test_projector_changed_version_recomputes hasher =
     (let m = fx_message ''m-1'' ''c-1'' ''hello'';
          (first, st1) = st_run (caching_projector cache_get cache_put (message_cache_key hasher) counting_projector ''v1'') (cache_new, 0) m;
          (second, st2) = st_run (caching_projector cache_get cache_put (message_cache_key hasher) counting_projector ''v2'') st1 m in
      snd st2 = 2)"

definition test_same_message_projects_identically :: bool where
  "test_same_message_projects_identically =
     (let m = fx_message ''m-1'' ''c-1'' ''Should we use sqlite for the auth sdk refresh-token store?'' in
      projection_eq (mock_run ascii_lower m) (mock_run ascii_lower m))"

definition test_recognizes_intent_topics_and_entities :: bool where
  "test_recognizes_intent_topics_and_entities =
     (let p = mock_run ascii_lower (fx_message ''m-1'' ''c-1'' ''Should we use sqlite for the auth sdk refresh-token?'') in
      proj_intent p = Question \<and> Topic ''auth'' \<in> set (proj_topics p) \<and> Topic ''sdk'' \<in> set (proj_topics p) \<and>
      Entity ''sqlite'' \<in> set (proj_entities p) \<and> Entity ''refresh-token'' \<in> set (proj_entities p))"

lemma projector_tests:
  "test_projector_runs_only_on_a_miss hasher" "test_projector_changed_version_recomputes hasher"
  unfolding test_projector_runs_only_on_a_miss_def test_projector_changed_version_recomputes_def
  by (simp_all add: caching_projector_def counting_projector_def test_simps)

lemma mock_keywords_found:
  "str_contains (ascii_lower ''Should we use sqlite for the auth sdk refresh-token?'') ''?''"
  "str_contains (ascii_lower ''Should we use sqlite for the auth sdk refresh-token?'') ''auth''"
  "str_contains (ascii_lower ''Should we use sqlite for the auth sdk refresh-token?'') ''sdk''"
  "str_contains (ascii_lower ''Should we use sqlite for the auth sdk refresh-token?'') ''sqlite''"
  "str_contains (ascii_lower ''Should we use sqlite for the auth sdk refresh-token?'') ''refresh-token''"
  by code_simp+

lemma mock_tests: test_same_message_projects_identically test_recognizes_intent_topics_and_entities
  unfolding test_same_message_projects_identically_def test_recognizes_intent_topics_and_entities_def Let_def
  by (intro projection_eq_refl mock_confidence_ok)
    (simp add: mock_run_def Let_def fx_message_def mock_keywords_found detect_intent_def topic_keywords_def entity_keywords_def
      del: mock_run_fields)

section \<open>Scopes and warm-ups\<close>

definition fx_named_projection :: "string \<Rightarrow> string list \<Rightarrow> string list \<Rightarrow> rat \<Rightarrow> projection" where
  "fx_named_projection i topics entities c =
     \<lparr>proj_message_id = MessageId i, proj_intent = Question, proj_topics = map Topic topics,
      proj_entities = map Entity entities, proj_confidence = confidence_new (f64_lit c)\<rparr>"

definition test_same_projections_scope_identically :: bool where
  "test_same_projections_scope_identically =
     (let ps = [fx_named_projection ''m-1'' [''auth'', ''sdk''] [''refresh-token''] (9 / 10)] in
      scope_eq (scope_project ascii_lower (ConversationId ''c-1'') ps) (scope_project ascii_lower (ConversationId ''c-1'') ps))"

definition test_components_load_or_ignore :: bool where
  "test_components_load_or_ignore =
     (let s = scope_project ascii_lower (ConversationId ''c-1'')
            [fx_named_projection ''m-1'' [''auth'', ''sdk''] [''refresh-token''] (8 / 10)] in
      Component ''auth-sdk'' \<in> set (sc_load s) \<and> Component ''token-refresh'' \<in> set (sc_load s) \<and>
      Component ''web-ui'' \<in> set (sc_ignore s) \<and> list_all (\<lambda>c. c \<notin> set (sc_ignore s)) (sc_load s))"

definition test_empty_session_scope :: bool where
  "test_empty_session_scope =
     (let s = scope_project ascii_lower (ConversationId ''c-1'') [] in
      sc_load s = [] \<and> length (sc_ignore s) = length catalog \<and> f64_eq (confidence_get (sc_confidence s)) f64_zero)"

lemma components_named:
  "component_for ascii_lower ''auth'' = Some ''auth-sdk''" "component_for ascii_lower ''sdk'' = Some ''auth-sdk''"
  "component_for ascii_lower ''refresh-token'' = Some ''token-refresh''"
  by code_simp+

lemma representable_values:
  "representable (8106479329266893 / 9007199254740992)" "representable (1 / 2)"
  unfolding representable_def by code_simp+

lemma scope_tests: test_same_projections_scope_identically test_components_load_or_ignore test_empty_session_scope
proof -
  have unit: "confidence_ok (proj_confidence (fx_named_projection i ts es (9 / 10)))" for i ts es
    unfolding fx_named_projection_def projection.select_convs
    by (rule confidence_new_ok) (simp_all add: lit_values representable_values)
  show test_same_projections_scope_identically
    unfolding test_same_projections_scope_identically_def Let_def by (rule scope_eq_refl) (rule scope_confidence_unit; simp add: unit)
  show test_components_load_or_ignore test_empty_session_scope
    unfolding test_components_load_or_ignore_def test_empty_session_scope_def Let_def
    by (simp_all add: scope_fields) (simp_all add: scope_project_def Let_def fx_named_projection_def keywords_of_def components_named
      catalog_def list_all_iff set_insort_insert test_simps)
qed

definition fx_filed_projection :: "string \<Rightarrow> intent \<Rightarrow> projection" where
  "fx_filed_projection i n =
     \<lparr>proj_message_id = MessageId i, proj_intent = n, proj_topics = [], proj_entities = [],
      proj_confidence = confidence_new (f64_lit (8 / 10))\<rparr>"

definition fx_work_scope :: scope where
  "fx_work_scope =
     \<lparr>sc_conversation = ConversationId ''c-1'', sc_load = [Component ''auth-sdk''], sc_ignore = [Component ''billing''],
      sc_reason = ''SDK auth work.'', sc_confidence = confidence_new (f64_lit (8 / 10))\<rparr>"

definition fx_filed_projections :: "projection list" where
  "fx_filed_projections =
     [fx_filed_projection ''m-1'' Decision, fx_filed_projection ''m-2'' Question, fx_filed_projection ''m-3'' Task,
      fx_filed_projection ''m-4'' Social]"

definition test_same_inputs_build_same_document :: bool where
  "test_same_inputs_build_same_document =
     (warmup_build (ConversationId ''c-1'') (Some fx_work_scope) fx_filed_projections =
      warmup_build (ConversationId ''c-1'') (Some fx_work_scope) fx_filed_projections)"

definition test_projections_grouped_by_intent :: bool where
  "test_projections_grouped_by_intent =
     (let doc = warmup_build (ConversationId ''c-1'') (Some fx_work_scope) fx_filed_projections in
      wu_decisions doc = [MessageId ''m-1''] \<and> wu_open_questions doc = [MessageId ''m-2''] \<and> wu_tasks doc = [MessageId ''m-3''])"

definition test_focus_comes_from_scope :: bool where
  "test_focus_comes_from_scope =
     (wu_focus (warmup_build (ConversationId ''c-1'') (Some fx_work_scope) fx_filed_projections) = [Component ''auth-sdk''])"

definition test_absent_scope_yields_empty_focus :: bool where
  "test_absent_scope_yields_empty_focus =
     (let doc = warmup_build (ConversationId ''c-1'') None fx_filed_projections in wu_focus doc = [] \<and> wu_summary doc \<noteq> [])"

lemma warmup_tests:
  test_same_inputs_build_same_document test_projections_grouped_by_intent test_focus_comes_from_scope
  test_absent_scope_yields_empty_focus
  unfolding test_same_inputs_build_same_document_def test_projections_grouped_by_intent_def test_focus_comes_from_scope_def
    test_absent_scope_yields_empty_focus_def
  by (simp_all add: warmup_build_def warmup_render_def fx_filed_projections_def fx_filed_projection_def fx_work_scope_def Let_def)

section \<open>Skills, hints and developers\<close>

definition fx_contribution :: "string \<Rightarrow> string list \<Rightarrow> rat \<Rightarrow> skill_contribution" where
  "fx_contribution a topics c =
     \<lparr>sk_author = AuthorId a, sk_display_name = a, sk_topics = map Topic topics, sk_confidence = confidence_new (f64_lit c)\<rparr>"

definition fx_owned_by :: "string \<Rightarrow> expert_candidate list \<Rightarrow> topic_ownership" where
  "fx_owned_by t candidates = \<lparr>own_topic = Topic t, own_candidates = candidates\<rparr>"

definition ownership_for :: "skill_index \<Rightarrow> string \<Rightarrow> topic_ownership" where
  "ownership_for index t = the (find (\<lambda>w. topic_str (own_topic w) = t) (si_ownerships index))"

definition test_strongest_contributor_scores_highest :: bool where
  "test_strongest_contributor_scores_highest =
     (let index = skill_build [fx_contribution ''alice'' [''auth''] (9 / 10), fx_contribution ''alice'' [''auth''] (9 / 10),
            fx_contribution ''bob'' [''auth''] (9 / 10)];
          cs = own_candidates (ownership_for index ''auth'') in
      ec_author (cs ! 0) = AuthorId ''alice'' \<and> f64_eq (skill_score_get (ec_score (cs ! 0))) (f64_lit 1) \<and>
      f64_lt (skill_score_get (ec_score (cs ! 1))) (f64_lit 1))"

definition test_equal_contributors_by_author :: bool where
  "test_equal_contributors_by_author =
     (let index = skill_build [fx_contribution ''bob'' [''auth''] (7 / 10), fx_contribution ''alice'' [''auth''] (7 / 10)];
          cs = own_candidates (ownership_for index ''auth'') in
      ec_author (cs ! 0) = AuthorId ''alice'' \<and> ec_author (cs ! 1) = AuthorId ''bob'' \<and>
      f64_eq (skill_score_get (ec_score (cs ! 0))) (skill_score_get (ec_score (cs ! 1))))"

lemma names_compared:
  "cmp_of ''alice'' ''bob'' = Less" "cmp_of ''bob'' ''alice'' = Greater" "cmp_of ''auth'' ''sdk'' = Less" "cmp_of ''sdk'' ''auth'' = Greater"
  "cmp_of ''alice'' ''carol'' = Less" "cmp_of ''carol'' ''alice'' = Greater"
  by code_simp+

text \<open>The weights that occur are binary64 numbers, and the sums and quotients are exact.\<close>

lemma rounds:
  "f64_round False (8106479329266893 / 9007199254740992) = FFin False (8106479329266893 / 9007199254740992)"
  "f64_round False (8106479329266893 / 4503599627370496) = FFin False (8106479329266893 / 4503599627370496)"
  "f64_round False (3152519739159347 / 4503599627370496) = FFin False (3152519739159347 / 4503599627370496)"
  "f64_round False (1 / 2) = FFin False (1 / 2)" "f64_round False 1 = FFin False 1"
  by code_simp+

lemmas skill_ops [test_simps] = tally_all_def tally_contribution_def or_zero_def fx_contribution_def names_compared
  bt_update.simps rounds

lemmas rank_ops = rank_candidates_def max_weight_def normalise_def f64_max_def compare_candidates_def

lemma skill_tests: test_strongest_contributor_scores_highest test_equal_contributors_by_author
proof -
  let ?w = "FFin False (8106479329266893 / 9007199254740992)" and ?w2 = "FFin False (8106479329266893 / 4503599627370496)"
    and ?v = "FFin False (3152519739159347 / 4503599627370496)"
  have t1: "tally_all [fx_contribution ''alice'' [''auth''] (9 / 10), fx_contribution ''alice'' [''auth''] (9 / 10),
        fx_contribution ''bob'' [''auth''] (9 / 10)] =
      [(''alice'', ''alice'', [(''auth'', ?w2)]), (''bob'', ''bob'', [(''auth'', ?w)])]"
    by (simp add: test_simps)
  have t2: "tally_all [fx_contribution ''bob'' [''auth''] (7 / 10), fx_contribution ''alice'' [''auth''] (7 / 10)] =
      [(''alice'', ''alice'', [(''auth'', ?v)]), (''bob'', ''bob'', [(''auth'', ?v)])]"
    by (simp add: test_simps)
  have r1: "rank_candidates [(''alice'', ''alice'', ?w2), (''bob'', ''bob'', ?w)] =
      [\<lparr>ec_author = AuthorId ''alice'', ec_display_name = ''alice'', ec_score = SkillScore (FFin False 1)\<rparr>,
       \<lparr>ec_author = AuthorId ''bob'', ec_display_name = ''bob'', ec_score = SkillScore (FFin False (1 / 2))\<rparr>]"
    by (simp add: rank_ops test_simps)
  have r2: "rank_candidates [(''alice'', ''alice'', ?v), (''bob'', ''bob'', ?v)] =
      [\<lparr>ec_author = AuthorId ''alice'', ec_display_name = ''alice'', ec_score = SkillScore (FFin False 1)\<rparr>,
       \<lparr>ec_author = AuthorId ''bob'', ec_display_name = ''bob'', ec_score = SkillScore (FFin False 1)\<rparr>]"
    by (simp add: rank_ops test_simps)
  show test_strongest_contributor_scores_highest test_equal_contributors_by_author
    unfolding test_strongest_contributor_scores_highest_def test_equal_contributors_by_author_def skill_build_def t1 t2
    by (simp_all add: Let_def bt_update.simps ownerships_of_def ownership_for_def r1 r2 score_simps)
qed

definition fx_topics_projection :: "string list \<Rightarrow> projection" where
  "fx_topics_projection topics =
     \<lparr>proj_message_id = MessageId ''m-1'', proj_intent = Issue, proj_topics = map Topic topics, proj_entities = [],
      proj_confidence = confidence_new (f64_lit (9 / 10))\<rparr>"

definition test_strongest_across_topics_first :: bool where
  "test_strongest_across_topics_first =
     (let ws = [fx_owned_by ''auth'' [fx_candidate ''alice'' 1, fx_candidate ''bob'' (8 / 10)],
                fx_owned_by ''sdk'' [fx_candidate ''alice'' (6 / 10)]];
          hint = skill_hint (fx_topics_projection [''auth'', ''sdk'']) ws in
      ec_author (hint_reviewers hint ! 0) = AuthorId ''alice'' \<and> ec_author (the (hint_human_hint hint)) = AuthorId ''alice'')"

definition test_unrelated_topics_do_not_leak :: bool where
  "test_unrelated_topics_do_not_leak =
     (let ws = [fx_owned_by ''auth'' [fx_candidate ''alice'' 1], fx_owned_by ''billing'' [fx_candidate ''carol'' 1]];
          hint = skill_hint (fx_topics_projection [''auth'']) ws in
      length (hint_reviewers hint) = 1 \<and> ec_author (hint_reviewers hint ! 0) = AuthorId ''alice'')"

definition test_equal_candidates_by_author :: bool where
  "test_equal_candidates_by_author =
     (let hint = skill_hint (fx_topics_projection [''auth''])
            [fx_owned_by ''auth'' [fx_candidate ''bob'' (7 / 10), fx_candidate ''alice'' (7 / 10)]] in
      ec_author (hint_reviewers hint ! 0) = AuthorId ''alice'' \<and> ec_author (hint_reviewers hint ! 1) = AuthorId ''bob'' \<and>
      f64_eq (skill_score_get (ec_score (hint_reviewers hint ! 0))) (skill_score_get (ec_score (hint_reviewers hint ! 1))))"

definition test_same_inputs_build_identical_hint :: bool where
  "test_same_inputs_build_identical_hint =
     (let ws = [fx_owned_by ''auth'' [fx_candidate ''alice'' (9 / 10), fx_candidate ''bob'' (5 / 10)]];
          p = fx_topics_projection [''auth''] in
      routing_hint_eq (skill_hint p ws) (skill_hint p ws))"

definition test_no_owners_yields_empty_hint :: bool where
  "test_no_owners_yields_empty_hint =
     (let hint = skill_hint (fx_topics_projection [''auth'']) [] in hint_reviewers hint = [] \<and> hint_human_hint hint = None)"

lemma hint_rounds:
  "f64_round False (14411518807585587 / 9007199254740992) = FFin False (3602879701896397 / 2251799813685248)"
  "f64_round False (3602879701896397 / 4503599627370496) = FFin False (3602879701896397 / 4503599627370496)"
  by code_simp+

lemma hint_tests:
  test_strongest_across_topics_first test_unrelated_topics_do_not_leak test_equal_candidates_by_author
  test_no_owners_yields_empty_hint
  unfolding test_strongest_across_topics_first_def test_unrelated_topics_do_not_leak_def test_equal_candidates_by_author_def
    test_no_owners_yields_empty_hint_def
  by (simp_all add: skill_hint_def fx_topics_projection_def fx_owned_by_def rank_ops hint_rounds six_tenths_def test_simps)

lemma same_hint_test: test_same_inputs_build_identical_hint
proof -
  have "score_ok (fx_candidate a (9 / 10))" "score_ok (fx_candidate a (5 / 10))" for a
    using confidence_new_ok [of "f64_lit (9 / 10)"] confidence_new_ok [of "f64_lit (5 / 10)"]
    by (simp_all add: fx_candidate_def score_ok_def skill_score_new_def skill_score_get_def confidence_ok_def
        confidence_new_def confidence_get_def lit_values representable_values)
  then show ?thesis
    unfolding test_same_inputs_build_identical_hint_def Let_def
    by (intro routing_hint_eq_refl skill_hint_ok) (simp add: fx_owned_by_def)
qed

definition fx_participant :: "string \<Rightarrow> participant" where
  "fx_participant a = \<lparr>pt_author = AuthorId a, pt_display_name = a\<rparr>"

definition topics_of :: "session_developers \<Rightarrow> string \<Rightarrow> topic_weight list" where
  "topics_of developers a = ds_topics (the (find (\<lambda>d. ds_author d = AuthorId a) (sd_developers developers)))"

definition test_topics_ranked_by_weight :: bool where
  "test_topics_ranked_by_weight =
     (let developers = snapshot_build (ConversationId ''c-1'') [fx_participant ''alice'']
            [fx_owned_by ''auth'' [fx_candidate ''alice'' (5 / 10)], fx_owned_by ''sdk'' [fx_candidate ''alice'' 1]];
          topics = topics_of developers ''alice'' in
      tw_topic (topics ! 0) = Topic ''sdk'' \<and> tw_topic (topics ! 1) = Topic ''auth'')"

definition test_developers_ordered_by_author :: bool where
  "test_developers_ordered_by_author =
     (let developers = snapshot_build (ConversationId ''c-1'') [fx_participant ''bob'', fx_participant ''alice'']
            [fx_owned_by ''auth'' [fx_candidate ''alice'' 1, fx_candidate ''bob'' (8 / 10)]] in
      ds_author (sd_developers developers ! 0) = AuthorId ''alice'' \<and> ds_author (sd_developers developers ! 1) = AuthorId ''bob'')"

definition test_same_inputs_build_identical_snapshot :: bool where
  "test_same_inputs_build_identical_snapshot =
     (let ws = [fx_owned_by ''auth'' [fx_candidate ''alice'' 1, fx_candidate ''bob'' (5 / 10)]];
          participants = [fx_participant ''alice'', fx_participant ''bob''] in
      session_developers_eq (snapshot_build (ConversationId ''c-1'') participants ws)
        (snapshot_build (ConversationId ''c-1'') participants ws))"

definition test_participant_owning_nothing_has_no_topics :: bool where
  "test_participant_owning_nothing_has_no_topics =
     (let developers = snapshot_build (ConversationId ''c-1'') [fx_participant ''alice'', fx_participant ''carol'']
            [fx_owned_by ''auth'' [fx_candidate ''alice'' 1]] in
      topics_of developers ''carol'' = [] \<and> topics_of developers ''alice'' \<noteq> [])"

lemmas developer_ops [test_simps] = snapshot_build_def snapshot_of_def owned_topics_def compare_topic_weights_def compare_developers_def
  topics_of_def fx_participant_def fx_owned_by_def List.map_filter_simps topic_weight_eq_def developer_snapshot_eq_def session_developers_eq_def

lemma developer_tests:
  test_topics_ranked_by_weight test_developers_ordered_by_author test_same_inputs_build_identical_snapshot
  test_participant_owning_nothing_has_no_topics
  unfolding test_topics_ranked_by_weight_def test_developers_ordered_by_author_def test_same_inputs_build_identical_snapshot_def
    test_participant_owning_nothing_has_no_topics_def
  by (simp_all add: test_simps)

end
