(* ===== verification/Tests_Storage.thy ===== *)
theory Tests_Storage
  imports Main Prelude Runtime Model MessageLog Derivation Derived Mock Replay Sqlite SqliteLog SqliteCaches Opening Github
    Tests_Core "HOL-Library.Monad_Syntax" "HOL-Library.Word"
begin

text \<open>
  The unit tests of the storage crate over the model, with the JSON of serde as parameters. A test is
  a computation that an \<open>expect\<close> or a panic ends with \<open>None\<close>; it passes when it reaches the value
  \<open>True\<close> of its assertions. A database file is what one block of a test leaves to the next.
\<close>

text \<open>\<open>.expect("open store")\<close> on what \<open>init\<close> returned.\<close>

definition opened :: "bool \<times> sqlite_db \<Rightarrow> sqlite_db option" where
  "opened result = (if fst result then Some (snd result) else None)"

lemma opened_fresh [test_simps]:
  "opened (message_store_init db_empty) = Some (db_empty\<lparr>db_user_version := 2, db_messages := Some []\<rparr>)"
  "opened (derived_cache_init db_empty) = Some (db_empty\<lparr>db_user_version := 1, db_derived := Some []\<rparr>)"
  "opened (projection_cache_init db_empty) = Some (db_empty\<lparr>db_user_version := 1, db_projections := Some []\<rparr>)"
  by (simp_all add: opened_def message_store_init_fresh derived_cache_init_fresh projection_cache_init_fresh)

lemma opened_again [test_simps]:
  "2 \<le> db_user_version db \<Longrightarrow> opened (message_store_init db) = Some db"
  "1 \<le> db_user_version db \<Longrightarrow> opened (derived_cache_init db) = Some db"
  "1 \<le> db_user_version db \<Longrightarrow> opened (projection_cache_init db) = Some db"
  by (simp_all add: opened_def message_store_init_done derived_cache_init_def projection_cache_init_def single_step_skipped)

section \<open>The message log\<close>

definition fx_logged :: "string \<Rightarrow> string \<Rightarrow> message_envelope" where
  "fx_logged i body =
     \<lparr>env_id = MessageId i, env_source = Manual, env_author = \<lparr>au_id = AuthorId ''u-1'', au_display_name = ''Dev''\<rparr>,
      env_conversation = \<lparr>conv_id = ConversationId ''c-1'', conv_thread = None\<rparr>, env_body = body\<rparr>"

definition fx_logged_in :: "string \<Rightarrow> string \<Rightarrow> string \<Rightarrow> message_envelope" where
  "fx_logged_in i conv body =
     (let m = fx_logged i body in m\<lparr>env_conversation := (env_conversation m)\<lparr>conv_id := ConversationId conv\<rparr>\<rparr>)"

definition log_ids :: "(string \<Rightarrow> message_envelope option) \<Rightarrow> sqlite_db \<Rightarrow> string list option" where
  "log_ids dec db = map_option (map (message_id_str \<circ> env_id)) (sqlite_all dec db)"

definition log_seqs :: "sqlite_db \<Rightarrow> int list option" where
  "log_seqs db = map_option (\<lambda>rows. sort (map mr_seq rows)) (db_messages db)"

definition test_sql_per_conversation_reads ::
  "(message_envelope \<Rightarrow> string) \<Rightarrow> (string \<Rightarrow> message_envelope option) \<Rightarrow> json_extract \<Rightarrow> bool" where
  "test_sql_per_conversation_reads enc dec jget =
     (do {
        db \<leftarrow> opened (message_store_init db_empty);
        db \<leftarrow> sqlite_append enc (fx_logged_in ''m-1'' ''c-1'' ''a'') db;
        db \<leftarrow> sqlite_append enc (fx_logged_in ''m-2'' ''c-2'' ''b'') db;
        db \<leftarrow> sqlite_append enc (fx_logged_in ''m-3'' ''c-1'' ''c'') db;
        db \<leftarrow> sqlite_append enc (fx_logged_in ''m-4'' ''github:acme/widgets'' ''d'') db;
        logged \<leftarrow> sqlite_all dec db;
        want_convs \<leftarrow> Some (fold (\<lambda>m seen. if conv_id (env_conversation m) \<in> set seen then seen
          else seen @ [conv_id (env_conversation m)]) logged []);
        convs \<leftarrow> sqlite_conversation_ids jget db;
        got \<leftarrow> those (map (sqlite_messages_for dec jget db) want_convs);
        Some (convs = want_convs \<and>
          map (map (message_id_str \<circ> env_id)) got =
          map (\<lambda>conv. map (message_id_str \<circ> env_id) (filter (\<lambda>m. conv_id (env_conversation m) = conv) logged)) want_convs)
      } = Some True)"

definition test_messages_survive_reopening ::
  "(message_envelope \<Rightarrow> string) \<Rightarrow> (string \<Rightarrow> message_envelope option) \<Rightarrow> bool" where
  "test_messages_survive_reopening enc dec =
     (do {
        db \<leftarrow> opened (message_store_init db_empty);
        db \<leftarrow> sqlite_append enc (fx_logged ''m-1'' ''a'') db;
        db \<leftarrow> sqlite_append enc (fx_logged ''m-2'' ''b'') db;
        db \<leftarrow> opened (message_store_init db);
        ids \<leftarrow> log_ids dec db;
        m \<leftarrow> sqlite_get dec db (MessageId ''m-1'');
        Some (ids = [''m-1'', ''m-2''] \<and> map_option env_body m = Some ''a'')
      } = Some True)"

definition test_appending_existing_id_replaces ::
  "(message_envelope \<Rightarrow> string) \<Rightarrow> (string \<Rightarrow> message_envelope option) \<Rightarrow> bool" where
  "test_appending_existing_id_replaces enc dec =
     (do {
        db \<leftarrow> opened (message_store_init db_empty);
        db \<leftarrow> sqlite_append enc (fx_logged ''m-1'' ''first'') db;
        db \<leftarrow> sqlite_append enc (fx_logged ''m-2'' ''x'') db;
        db \<leftarrow> sqlite_append enc (fx_logged ''m-1'' ''second'') db;
        ids \<leftarrow> log_ids dec db;
        m \<leftarrow> sqlite_get dec db (MessageId ''m-1'');
        Some (ids = [''m-1'', ''m-2''] \<and> map_option env_body m = Some ''second'')
      } = Some True)"

text \<open>The file of a program before versions: no unique \<open>seq\<close>, no version, a \<open>seq\<close> twice.\<close>

definition test_migrates_legacy_schema ::
  "(message_envelope \<Rightarrow> string) \<Rightarrow> (string \<Rightarrow> message_envelope option) \<Rightarrow> bool" where
  "test_migrates_legacy_schema enc dec =
     (let m1 = enc (fx_logged ''m-1'' ''a''); m2 = enc (fx_logged ''m-2'' ''b'');
          legacy = db_empty\<lparr>db_messages := Some
            [\<lparr>mr_id = ''m-1'', mr_seq = 1, mr_payload = m1\<rparr>, \<lparr>mr_id = ''m-2'', mr_seq = 1, mr_payload = m2\<rparr>]\<rparr> in
      do {
        db \<leftarrow> opened (message_store_init legacy);
        ids \<leftarrow> log_ids dec db;
        seqs \<leftarrow> log_seqs db;
        Some (ids = [''m-1'', ''m-2''] \<and> seqs = [1, 2])
      } = Some True)"

lemmas sqlite_log_ops [test_simps] = sqlite_append_def sqlite_all_def sqlite_get_def sqlite_messages_for_def
  sqlite_conversation_ids_def next_seq_def fx_logged_def fx_logged_in_def log_ids_def log_seqs_def conversation_of_def

lemma message_log_tests:
  assumes "\<And>m. message_storable enc dec jget m"
  shows "test_sql_per_conversation_reads enc dec jget" "test_messages_survive_reopening enc dec"
    "test_appending_existing_id_replaces enc dec" "test_migrates_legacy_schema enc dec"
proof -
  have codec: "dec (enc m) = Some m" "jget (enc m) = Some (Some (conversation_id_str (conversation_of m)))" for m
    using assms [of m] by (simp_all add: message_storable_def)
  show "test_messages_survive_reopening enc dec" "test_appending_existing_id_replaces enc dec"
    by (simp_all add: test_messages_survive_reopening_def test_appending_existing_id_replaces_def codec test_simps)
  show "test_migrates_legacy_schema enc dec"
    by (simp add: test_migrates_legacy_schema_def opened_def message_store_init_unversioned renumbered_def db_empty_def
        codec test_simps)
  show "test_sql_per_conversation_reads enc dec jget"
    by (simp add: test_sql_per_conversation_reads_def codec test_simps grouped_by_min_seq_def min_seq_def)
qed

section \<open>Concurrent appends\<close>

text \<open>
  Four writers, each on a connection of its own that it opens first, append twenty-five messages each.
  The threads' scheduling is the list of their steps: any list in which each writer's own steps are in
  its order. The busy timeout is assumed not to run out.
\<close>

datatype writer_event = WriterOpens (writer_of: nat) | WriterAppends (writer_of: nat) nat

definition writer_events :: "nat \<Rightarrow> writer_event list" where
  "writer_events w = WriterOpens w # map (WriterAppends w) [0..<25]"

definition writers_message :: "nat \<Rightarrow> nat \<Rightarrow> message_envelope" where
  "writers_message w i = fx_logged (''w'' @ show_nat w @ ''-m'' @ show_nat i) ''body''"

definition writer_step :: "(message_envelope \<Rightarrow> string) \<Rightarrow> writer_event \<Rightarrow> sqlite_db \<Rightarrow> sqlite_db option" where
  "writer_step enc e db = (case e of
     WriterOpens w \<Rightarrow> opened (message_store_init db) | WriterAppends w i \<Rightarrow> sqlite_append enc (writers_message w i) db)"

fun run_writers :: "(message_envelope \<Rightarrow> string) \<Rightarrow> writer_event list \<Rightarrow> sqlite_db \<Rightarrow> sqlite_db option" where
  "run_writers enc [] db = Some db"
| "run_writers enc (e # es) db = Option.bind (writer_step enc e db) (run_writers enc es)"

definition schedule_of_writers :: "writer_event list \<Rightarrow> bool" where
  "schedule_of_writers events =
     ((\<forall>e\<in>set events. writer_of e < 4) \<and> (\<forall>w<4. filter (\<lambda>e. writer_of e = w) events = writer_events w))"

definition test_concurrent_appends :: "(message_envelope \<Rightarrow> string) \<Rightarrow> writer_event list \<Rightarrow> bool" where
  "test_concurrent_appends enc events =
     (do {
        db \<leftarrow> opened (message_store_init db_empty);
        db \<leftarrow> run_writers enc events db;
        seqs \<leftarrow> log_seqs db;
        Some (length seqs = 4 * 25 \<and> seqs = map int [1..<Suc (4 * 25)])
      } = Some True)"

fun event_messages :: "writer_event list \<Rightarrow> message_envelope list" where
  "event_messages [] = []"
| "event_messages (WriterOpens w # es) = event_messages es"
| "event_messages (WriterAppends w i # es) = writers_message w i # event_messages es"

lemma run_writers_rows:
  assumes "db_messages db = Some rows" and "2 \<le> db_user_version db" and "map mr_seq rows = map int [1..<Suc (length rows)]"
    and "distinct (map mr_id rows @ map (message_id_str \<circ> env_id) (event_messages es))"
  shows "\<exists>db' rows'. run_writers enc es db = Some db' \<and> db_messages db' = Some rows' \<and>
    length rows' = length rows + length (event_messages es) \<and> map mr_seq rows' = map int [1..<Suc (length rows')]"
  using assms
proof (induction es arbitrary: db rows)
  case (Cons e es)
  show ?case
  proof (cases e)
    case (WriterOpens w)
    then show ?thesis using Cons.IH [OF Cons.prems(1-3)] Cons.prems(2,4) by (simp add: writer_step_def opened_again)
  next
    case (WriterAppends w i)
    let ?m = "writers_message w i"
    let ?row = "\<lparr>mr_id = message_id_str (env_id ?m), mr_seq = next_seq rows, mr_payload = enc ?m\<rparr>"
    have seq: "next_seq rows = int (Suc (length rows))" by (rule next_seq_gap_free [OF Cons.prems(3)])
    have append: "sqlite_append enc ?m db = Some (db\<lparr>db_messages := Some (rows @ [?row])\<rparr>)"
      using Cons.prems(1,4) WriterAppends by (auto simp: sqlite_append_def)
    have "map mr_seq (rows @ [?row]) = map int [1..<Suc (length (rows @ [?row]))]"
      using Cons.prems(3) seq by simp
    with Cons.IH [of "db\<lparr>db_messages := Some (rows @ [?row])\<rparr>" "rows @ [?row]"] Cons.prems(2,4) WriterAppends
    show ?thesis by (simp add: writer_step_def append)
  qed
qed simp

lemma distinct_by_groups: "(\<And>w. distinct (filter (\<lambda>e. f e = w) xs)) \<Longrightarrow> distinct xs"
proof (induction xs)
  case (Cons x xs)
  have "distinct (filter (\<lambda>e. f e = w) xs)" for w using Cons.prems [of w] by (simp split: if_splits)
  moreover have "x \<notin> set xs" using Cons.prems [of "f x"] by simp
  ultimately show ?case using Cons.IH by simp
qed simp

lemma schedule_events:
  assumes "schedule_of_writers events"
  shows "distinct events" and "set events = {e. writer_of e < 4 \<and> e \<in> set (writer_events (writer_of e))}"
proof -
  have groups: "filter (\<lambda>e. writer_of e = w) events = (if w < 4 then writer_events w else [])" for w
    using assms by (auto simp: schedule_of_writers_def filter_empty_conv)
  show "distinct events"
    by (rule distinct_by_groups [of writer_of]) (auto simp: groups writer_events_def distinct_map inj_on_def)
  have "e \<in> set events \<longleftrightarrow> e \<in> set (filter (\<lambda>e'. writer_of e' = writer_of e) events)" for e by simp
  then show "set events = {e. writer_of e < 4 \<and> e \<in> set (writer_events (writer_of e))}"
    unfolding groups by auto
qed

fun event_pairs :: "writer_event list \<Rightarrow> (nat \<times> nat) list" where
  "event_pairs [] = []"
| "event_pairs (WriterOpens w # es) = event_pairs es"
| "event_pairs (WriterAppends w i # es) = (w, i) # event_pairs es"

lemma event_pairs_facts:
  "event_messages es = map (\<lambda>(w, i). writers_message w i) (event_pairs es)"
  "set (event_pairs es) = {(w, i). WriterAppends w i \<in> set es}"
  "distinct es \<Longrightarrow> distinct (event_pairs es)"
  by (induction es rule: event_pairs.induct) auto

lemma writers_ids:
  assumes "w < 4" and "v < 4" and "env_id (writers_message w i) = env_id (writers_message v j)"
  shows "w = v \<and> i = j"
  using assms by (auto simp: writers_message_def fx_logged_def show_nat.simps [of w] show_nat.simps [of v] show_nat_inj)

lemma concurrent_appends_test:
  assumes "schedule_of_writers events"
  shows "test_concurrent_appends enc events"
proof -
  have pairs: "set (event_pairs events) = {..<4} \<times> {..<25}"
    by (auto simp: event_pairs_facts schedule_events(2) [OF assms] writer_events_def)
  have once: "distinct (event_pairs events)" by (rule event_pairs_facts(3) [OF schedule_events(1) [OF assms]])
  have "length (event_pairs events) = 100"
    unfolding distinct_card [OF once, symmetric] pairs by simp
  then have count: "length (event_messages events) = 100" by (simp add: event_pairs_facts(1))
  have "inj_on (\<lambda>(w, i). message_id_str (env_id (writers_message w i))) (set (event_pairs events))"
    unfolding pairs by (rule inj_onI) (auto dest: writers_ids message_id.expand)
  then have ids: "distinct (map (message_id_str \<circ> env_id) (event_messages events))"
    using once by (simp add: event_pairs_facts(1) distinct_map o_def split_def)
  obtain db' rows' where "run_writers enc events (db_empty\<lparr>db_user_version := 2, db_messages := Some []\<rparr>) = Some db'"
    and "db_messages db' = Some rows'" and "length rows' = 100" and "map mr_seq rows' = map int [1..<Suc (length rows')]"
    using run_writers_rows [of "db_empty\<lparr>db_user_version := 2, db_messages := Some []\<rparr>" "[]" events enc] ids count
    by (auto simp del: upt_Suc)
  moreover have "sort (map int [1..<101]) = map int [1..<101]"
    by (rule sorted_sort_id) (simp add: sorted_map sorted_wrt_upt)
  ultimately show ?thesis
    by (simp add: test_concurrent_appends_def opened_fresh log_seqs_def del: upt_Suc upt_rec_numeral)
qed

section \<open>The derived-output cache\<close>

definition fx_cached_derivation :: "string \<Rightarrow> conversation_derivation" where
  "fx_cached_derivation c =
     \<lparr>cd_conversation = ConversationId c, cd_projections = [], cd_scope = None,
      cd_warmup = \<lparr>wu_conversation = ConversationId c, wu_focus = [], wu_decisions = [], wu_open_questions = [], wu_tasks = [],
        wu_summary = ''summary''\<rparr>,
      cd_developers = None, cd_hints = []\<rparr>"

definition test_cached_derivation_survives ::
  "(conversation_derivation \<Rightarrow> string) \<Rightarrow> (string \<Rightarrow> conversation_derivation option) \<Rightarrow> bool" where
  "test_cached_derivation_survives enc dec =
     (let v1 = StepVersion ''v1''; conv = ConversationId ''c-1'' in
      do {
        db \<leftarrow> opened (derived_cache_init db_empty);
        db \<leftarrow> sqlite_derived_put enc db v1 conv ''h1'' (fx_cached_derivation ''c-1'');
        db \<leftarrow> opened (derived_cache_init db);
        got \<leftarrow> sqlite_derived_get dec db v1 conv ''h1'';
        Some (option_eq derivation_eq got (Some (fx_cached_derivation ''c-1'')))
      } = Some True)"

definition test_version_or_content_change_misses ::
  "(conversation_derivation \<Rightarrow> string) \<Rightarrow> (string \<Rightarrow> conversation_derivation option) \<Rightarrow> bool" where
  "test_version_or_content_change_misses enc dec =
     (let v1 = StepVersion ''v1''; conv = ConversationId ''c-1'' in
      do {
        db \<leftarrow> opened (derived_cache_init db_empty);
        db \<leftarrow> sqlite_derived_put enc db v1 conv ''h1'' (fx_cached_derivation ''c-1'');
        other_version \<leftarrow> sqlite_derived_get dec db (StepVersion ''v2'') conv ''h1'';
        other_content \<leftarrow> sqlite_derived_get dec db v1 conv ''h2'';
        Some (other_version = None \<and> other_content = None)
      } = Some True)"

definition test_derived_delimiters_do_not_alias ::
  "(conversation_derivation \<Rightarrow> string) \<Rightarrow> (string \<Rightarrow> conversation_derivation option) \<Rightarrow> bool" where
  "test_derived_delimiters_do_not_alias enc dec =
     (let version = StepVersion ''1:projection:v1''; conv = ConversationId ''github:acme/widgets'' in
      do {
        db \<leftarrow> opened (derived_cache_init db_empty);
        db \<leftarrow> sqlite_derived_put enc db version conv ''hash'' (fx_cached_derivation ''github:acme/widgets'');
        other \<leftarrow> sqlite_derived_get dec db (StepVersion ''1:projection'') (ConversationId ''v1:github:acme/widgets'') ''hash'';
        got \<leftarrow> sqlite_derived_get dec db version conv ''hash'';
        Some (other = None \<and> option_eq derivation_eq got (Some (fx_cached_derivation ''github:acme/widgets'')))
      } = Some True)"

definition test_prune_superseded_derivations ::
  "(conversation_derivation \<Rightarrow> string) \<Rightarrow> (string \<Rightarrow> conversation_derivation option) \<Rightarrow> bool" where
  "test_prune_superseded_derivations enc dec =
     (let v = StepVersion ''v1''; conv = ConversationId ''c-1''; other = ConversationId ''c-2'' in
      do {
        db \<leftarrow> opened (derived_cache_init db_empty);
        db \<leftarrow> sqlite_derived_put enc db v conv ''old-content'' (fx_cached_derivation ''c-1'');
        db \<leftarrow> sqlite_derived_put enc db (StepVersion ''v0'') conv ''h1'' (fx_cached_derivation ''c-1'');
        db \<leftarrow> sqlite_derived_put enc db v conv ''new-content'' (fx_cached_derivation ''c-1'');
        db \<leftarrow> sqlite_derived_put enc db v other ''x'' (fx_cached_derivation ''c-2'');
        (removed, db) \<leftarrow> sqlite_derived_prune db conv v ''new-content'';
        current \<leftarrow> sqlite_derived_get dec db v conv ''new-content'';
        old_content \<leftarrow> sqlite_derived_get dec db v conv ''old-content'';
        old_version \<leftarrow> sqlite_derived_get dec db (StepVersion ''v0'') conv ''h1'';
        untouched \<leftarrow> sqlite_derived_get dec db v other ''x'';
        Some (removed = 2 \<and> option_eq derivation_eq current (Some (fx_cached_derivation ''c-1'')) \<and>
          old_content = None \<and> old_version = None \<and>
          option_eq derivation_eq untouched (Some (fx_cached_derivation ''c-2'')))
      } = Some True)"

lemmas derived_table_ops [test_simps] = sqlite_derived_put_def sqlite_derived_get_def sqlite_derived_prune_def derived_row_is_def
  fx_cached_derivation_def

lemma derived_table_tests:
  assumes "\<And>c. dec (enc (fx_cached_derivation c)) = Some (fx_cached_derivation c)"
  shows "test_cached_derivation_survives enc dec" "test_version_or_content_change_misses enc dec"
    "test_derived_delimiters_do_not_alias enc dec" "test_prune_superseded_derivations enc dec"
proof -
  note codec = assms [unfolded fx_cached_derivation_def]
  show "test_cached_derivation_survives enc dec" "test_version_or_content_change_misses enc dec"
    by (simp_all add: test_cached_derivation_survives_def test_version_or_content_change_misses_def codec test_simps)
  show "test_derived_delimiters_do_not_alias enc dec"
    by (simp add: test_derived_delimiters_do_not_alias_def codec test_simps)
  show "test_prune_superseded_derivations enc dec"
    by (simp add: test_prune_superseded_derivations_def codec test_simps)
qed

section \<open>The projection cache\<close>

definition fx_cached_projection :: "string \<Rightarrow> projection" where
  "fx_cached_projection i =
     \<lparr>proj_message_id = MessageId i, proj_intent = Decision, proj_topics = [], proj_entities = [],
      proj_confidence = confidence_new (f64_lit (7 / 10))\<rparr>"

definition test_cached_projections_survive :: "(projection \<Rightarrow> string) \<Rightarrow> (string \<Rightarrow> projection option) \<Rightarrow> bool" where
  "test_cached_projections_survive enc dec =
     (let v1 = StepVersion ''v1'' in
      do {
        db \<leftarrow> opened (projection_cache_init db_empty);
        db \<leftarrow> sqlite_projection_put enc db ''proj'' v1 ''m-1'' (fx_cached_projection ''m-1'');
        db \<leftarrow> opened (projection_cache_init db);
        got \<leftarrow> sqlite_projection_get dec db ''proj'' v1 ''m-1'';
        other \<leftarrow> sqlite_projection_get dec db ''proj'' (StepVersion ''v2'') ''m-1'';
        Some (option_eq projection_eq got (Some (fx_cached_projection ''m-1'')) \<and> other = None)
      } = Some True)"

definition test_projection_delimiters_do_not_alias ::
  "(projection \<Rightarrow> string) \<Rightarrow> (string \<Rightarrow> projection option) \<Rightarrow> bool" where
  "test_projection_delimiters_do_not_alias enc dec =
     (let v = StepVersion ''v1'' in
      do {
        db \<leftarrow> opened (projection_cache_init db_empty);
        db \<leftarrow> sqlite_projection_put enc db ''proj'' v ''github:issue:1'' (fx_cached_projection ''a'');
        other \<leftarrow> sqlite_projection_get dec db ''proj'' (StepVersion ''v1:github'') ''issue:1'';
        got \<leftarrow> sqlite_projection_get dec db ''proj'' v ''github:issue:1'';
        Some (other = None \<and> option_eq projection_eq got (Some (fx_cached_projection ''a'')))
      } = Some True)"

definition test_prune_superseded_projections :: "(projection \<Rightarrow> string) \<Rightarrow> (string \<Rightarrow> projection option) \<Rightarrow> bool" where
  "test_prune_superseded_projections enc dec =
     (let old = StepVersion ''v1''; new = StepVersion ''v2'' in
      do {
        db \<leftarrow> opened (projection_cache_init db_empty);
        db \<leftarrow> sqlite_projection_put enc db ''proj'' old ''m-1'' (fx_cached_projection ''m-1'');
        db \<leftarrow> sqlite_projection_put enc db ''proj'' new ''m-1'' (fx_cached_projection ''m-1'');
        (removed, db) \<leftarrow> sqlite_projection_prune db new;
        got_old \<leftarrow> sqlite_projection_get dec db ''proj'' old ''m-1'';
        got_new \<leftarrow> sqlite_projection_get dec db ''proj'' new ''m-1'';
        Some (removed = 1 \<and> got_old = None \<and> option_eq projection_eq got_new (Some (fx_cached_projection ''m-1'')))
      } = Some True)"

lemma lit_seven_tenths: "f64_lit (7 / 10) = FFin False (3152519739159347 / 4503599627370496)"
  by code_simp

lemmas projection_table_ops [test_simps] = sqlite_projection_put_def sqlite_projection_get_def sqlite_projection_prune_def
  projection_row_is_def fx_cached_projection_def lit_seven_tenths

lemma projection_table_tests:
  assumes "\<And>i. dec (enc (fx_cached_projection i)) = Some (fx_cached_projection i)"
  shows "test_cached_projections_survive enc dec" "test_projection_delimiters_do_not_alias enc dec"
    "test_prune_superseded_projections enc dec"
proof -
  have same: "projection_eq (fx_cached_projection i) (fx_cached_projection i)" for i by (simp add: test_simps)
  note ops = assms same sqlite_projection_put_def sqlite_projection_get_def sqlite_projection_prune_def projection_row_is_def
    opened_fresh opened_again Let_def
  show "test_cached_projections_survive enc dec" by (simp add: test_cached_projections_survive_def ops)
  show "test_projection_delimiters_do_not_alias enc dec" by (simp add: test_projection_delimiters_do_not_alias_def ops)
  show "test_prune_superseded_projections enc dec" by (simp add: test_prune_superseded_projections_def ops)
qed

section \<open>Traces\<close>

definition fx_trace :: "string \<Rightarrow> routing_trace" where
  "fx_trace i = \<lparr>rt_message_id = MessageId i, rt_steps = []\<rparr>"

definition test_cached_traces_survive :: "(routing_trace \<Rightarrow> string) \<Rightarrow> (string \<Rightarrow> routing_trace option) \<Rightarrow> bool" where
  "test_cached_traces_survive enc dec =
     (do {
        store \<leftarrow> trace_store_open db_empty;
        store \<leftarrow> sqlite_trace_upsert enc store (fx_trace ''m-1'');
        store \<leftarrow> trace_store_open (ts_db store);
        got \<leftarrow> sqlite_trace_get dec store (MessageId ''m-1'');
        other \<leftarrow> sqlite_trace_get dec store (MessageId ''m-2'');
        Some (got = Some (fx_trace ''m-1'') \<and> other = None)
      } = Some True)"

definition test_cap_keeps_the_most_recent :: "(routing_trace \<Rightarrow> string) \<Rightarrow> (string \<Rightarrow> routing_trace option) \<Rightarrow> bool" where
  "test_cap_keeps_the_most_recent enc dec =
     (do {
        store \<leftarrow> trace_store_open db_empty;
        store \<leftarrow> Some (with_max_traces store 2);
        store \<leftarrow> sqlite_trace_upsert enc store (fx_trace ''m-1'');
        store \<leftarrow> sqlite_trace_upsert enc store (fx_trace ''m-2'');
        store \<leftarrow> sqlite_trace_upsert enc store (fx_trace ''m-3'');
        got1 \<leftarrow> sqlite_trace_get dec store (MessageId ''m-1'');
        got2 \<leftarrow> sqlite_trace_get dec store (MessageId ''m-2'');
        got3 \<leftarrow> sqlite_trace_get dec store (MessageId ''m-3'');
        Some (got1 = None \<and> got2 = Some (fx_trace ''m-2'') \<and> got3 = Some (fx_trace ''m-3''))
      } = Some True)"

definition trace_named :: "nat \<Rightarrow> routing_trace" where
  "trace_named i = fx_trace (''m-'' @ show_nat i)"

definition test_uncapped_store_retains_everything ::
  "(routing_trace \<Rightarrow> string) \<Rightarrow> (string \<Rightarrow> routing_trace option) \<Rightarrow> bool" where
  "test_uncapped_store_retains_everything enc dec =
     (do {
        store \<leftarrow> trace_store_open db_empty;
        store \<leftarrow> fold (\<lambda>i s. Option.bind s (\<lambda>store. sqlite_trace_upsert enc store (trace_named i))) [0..<50] (Some store);
        first \<leftarrow> sqlite_trace_get dec store (MessageId ''m-0'');
        last \<leftarrow> sqlite_trace_get dec store (MessageId ''m-49'');
        Some (first = Some (fx_trace ''m-0'') \<and> last = Some (fx_trace ''m-49''))
      } = Some True)"

lemma trace_opened [test_simps]:
  "trace_store_open db_empty = Some \<lparr>ts_db = db_empty\<lparr>db_user_version := 1, db_traces := Some []\<rparr>, ts_max = None\<rparr>"
  "1 \<le> db_user_version db \<Longrightarrow> trace_store_open db = Some \<lparr>ts_db = db, ts_max = None\<rparr>"
  by (simp_all add: trace_store_open_def trace_store_init_fresh)
    (simp add: trace_store_init_def single_step_skipped)

lemma uncapped_writes:
  assumes "\<And>i. dec (enc (fx_trace i)) = Some (fx_trace i)" and "ts_max s = None" and "db_traces (ts_db s) = Some rows"
  shows "\<exists>s' rows'. fold (\<lambda>i s. Option.bind s (\<lambda>store. sqlite_trace_upsert enc store (trace_named i))) [0..<n] (Some s) = Some s' \<and>
    ts_max s' = None \<and> db_traces (ts_db s') = Some rows' \<and>
    (\<forall>i<n. sqlite_trace_get dec s' (MessageId (''m-'' @ show_nat i)) = Some (Some (trace_named i)))"
proof (induction n)
  case (Suc n)
  then obtain s' rows' where s': "fold (\<lambda>i s. Option.bind s (\<lambda>store. sqlite_trace_upsert enc store (trace_named i))) [0..<n] (Some s) = Some s'"
    "ts_max s' = None" "db_traces (ts_db s') = Some rows'"
    "\<forall>i<n. sqlite_trace_get dec s' (MessageId (''m-'' @ show_nat i)) = Some (Some (trace_named i))"
    by blast
  obtain s'' rows'' where s'': "sqlite_trace_upsert enc s' (trace_named n) = Some s''" "ts_max s'' = None"
    "db_traces (ts_db s'') = Some rows''"
    by (simp add: sqlite_trace_upsert_def s' Let_def)
  have codec: "dec (enc (trace_named n)) = Some (trace_named n)" by (simp add: trace_named_def assms(1))
  have id: "rt_message_id (trace_named n) = MessageId (''m-'' @ show_nat n)" by (simp add: trace_named_def fx_trace_def)
  have "sqlite_trace_get dec s'' (MessageId (''m-'' @ show_nat i)) = Some (Some (trace_named i))" if "i < Suc n" for i
    using sqlite_trace_uncapped [where dec = dec and enc = enc, OF s'(2,3) codec s''(1), of "MessageId (''m-'' @ show_nat i)"] s'(4) that
    by (auto simp: id show_nat_inj less_Suc_eq)
  with s' s'' show ?case by auto
qed (use assms in auto)

lemma uncapped_test:
  assumes "\<And>i. dec (enc (fx_trace i)) = Some (fx_trace i)"
  shows "test_uncapped_store_retains_everything enc dec"
proof -
  obtain s' where "fold (\<lambda>i s. Option.bind s (\<lambda>store. sqlite_trace_upsert enc store (trace_named i))) [0..<50]
      (Some \<lparr>ts_db = db_empty\<lparr>db_user_version := 1, db_traces := Some []\<rparr>, ts_max = None\<rparr>) = Some s'"
    and got: "\<forall>i<50. sqlite_trace_get dec s' (MessageId (''m-'' @ show_nat i)) = Some (Some (trace_named i))"
    using uncapped_writes [OF assms, of "\<lparr>ts_db = db_empty\<lparr>db_user_version := 1, db_traces := Some []\<rparr>, ts_max = None\<rparr>" "[]" 50]
    by auto
  moreover have "show_nat 0 = ''0''" "show_nat 49 = ''49''" by code_simp+
  ultimately show ?thesis
    using got [rule_format, of 0] got [rule_format, of 49]
    by (simp add: test_uncapped_store_retains_everything_def trace_opened trace_named_def)
qed

lemma trace_table_tests:
  assumes "\<And>i. dec (enc (fx_trace i)) = Some (fx_trace i)"
  shows "test_cached_traces_survive enc dec" "test_cap_keeps_the_most_recent enc dec"
proof -
  have ids: "rt_message_id (fx_trace i) = MessageId i" for i by (simp add: fx_trace_def)
  note ops = assms ids sqlite_trace_upsert_def sqlite_trace_get_def trace_write_def trace_prune_def sql_limit_def
    with_max_traces_def trace_opened
  show "test_cached_traces_survive enc dec" by (simp add: test_cached_traces_survive_def ops)
  show "test_cap_keeps_the_most_recent enc dec" by (simp add: test_cap_keeps_the_most_recent_def ops)
qed

end
