(* ===== verification/Tests_Worker.thy ===== *)
theory Tests_Worker
  imports Main Prelude F64 Runtime Model MessageLog Stores Skill HintDev Routing Mock ScopeWarmup Derivation Jobs Replay
    Derived Submission Sqlite SqliteLog SqliteCaches Github Llm Commands Cli CliRun Session Verify Tests_Core Tests_Provider
begin

text \<open>
  The unit tests of the worker crate over the model. The tests run their jobs on one worker of an
  in-memory broker; here every test passes for any deliveries in which nothing is lost, so also when
  the broker delivers a payload again or in another order.
\<close>

section \<open>Stages that end where one delivery takes them\<close>

lemma run_stage_reaches:
  assumes "at_least_once d" and "payloads \<noteq> []" and "\<And>s p. p \<in> set payloads \<Longrightarrow> P s \<Longrightarrow> Q (snd (handler s p))"
    and "\<And>s. Q s \<Longrightarrow> P s" and "P s"
  shows "Q (run_stage d handler payloads s)"
proof -
  have P: "Q (fold (\<lambda>p s. snd (handler s p)) ps s)" if "ps \<noteq> []" and "set ps \<subseteq> set payloads" and "P s" for ps s
    using that
  proof (induction ps arbitrary: s)
    case (Cons p ps)
    then have "Q (snd (handler s p))" using assms(3) by simp
    then show ?case using Cons assms(4) by (cases "ps = []") auto
  qed simp
  have set: "set (delivered d payloads) = set payloads" by (rule set_delivered [OF assms(1)])
  then have "delivered d payloads \<noteq> []" using assms(2) by auto
  then show ?thesis using P [of "delivered d payloads" s] set assms(5) by (simp add: run_stage_delivered)
qed

text \<open>One payload, enqueued once or twice, under a handler whose second run changes nothing.\<close>

lemma run_stage_twice:
  assumes "at_least_once d" and "payloads \<noteq> []" and "set payloads = {p}"
    and "snd (handler s p) = s'" and "snd (handler s' p) = s'"
  shows "run_stage d handler payloads s = s'"
  by (rule run_stage_reaches [OF assms(1,2), where P = "\<lambda>x. x = s \<or> x = s'"]) (use assms(3-5) in auto)

section \<open>Projections\<close>

definition fx_job_message :: message_envelope where
  "fx_job_message =
     \<lparr>env_id = MessageId ''m-1'', env_source = SourceGitHub,
      env_author = \<lparr>au_id = AuthorId ''u-1'', au_display_name = ''Dev''\<rparr>,
      env_conversation = \<lparr>conv_id = ConversationId ''c-1'', conv_thread = None\<rparr>,
      env_body = ''Should we use sqlite for the auth sdk?''\<rparr>"

definition run_jobs :: "deliveries \<Rightarrow> projection_store \<Rightarrow> message_envelope list \<Rightarrow> projection_store" where
  "run_jobs d store messages =
     fst (run_stage d (process_message_run (mock_step ascii_lower)) messages (store, ()))"

definition test_processing_stores_projection :: "deliveries \<Rightarrow> bool" where
  "test_processing_stores_projection d =
     (projection_store_get (run_jobs d store_new [fx_job_message]) (MessageId ''m-1'') \<noteq> None)"

definition test_projection_redelivery :: "deliveries \<Rightarrow> bool" where
  "test_projection_redelivery d = (store_len (run_jobs d store_new [fx_job_message, fx_job_message]) = 1)"

definition job_projection :: projection where
  "job_projection = mock_run ascii_lower fx_job_message"

lemma job_projection_eq:
  "job_projection =
     \<lparr>proj_message_id = MessageId ''m-1'', proj_intent = Question, proj_topics = [Topic ''sdk'', Topic ''auth''],
      proj_entities = [Entity ''sqlite''], proj_confidence = Confidence (FFin False (3602879701896397 / 4503599627370496))\<rparr>"
  unfolding job_projection_def by code_simp

lemma job_projection_id: "proj_message_id job_projection = MessageId ''m-1''"
  by (simp add: job_projection_eq)

lemma job_projection_topics: "proj_topics job_projection = [Topic ''sdk'', Topic ''auth'']"
  by (simp add: job_projection_eq)

lemma job_projection_intent: "proj_intent job_projection = Question"
  by (simp add: job_projection_eq)

lemma job_projection_confidence: "proj_confidence job_projection = Confidence (FFin False (3602879701896397 / 4503599627370496))"
  by (simp add: job_projection_eq)

lemma run_jobs_once:
  assumes "at_least_once d" and "messages \<noteq> []" and "set messages = {fx_job_message}"
  shows "run_jobs d store_new messages = [MessageId ''m-1'' \<mapsto> job_projection]"
  unfolding run_jobs_def
  by (subst run_stage_twice [OF assms(1,2,3), where s' = "([MessageId ''m-1'' \<mapsto> job_projection], ())"])
    (simp_all add: process_message_run_def mock_step_def projection_store_upsert_def store_new_def
      job_projection_def [symmetric] job_projection_id)

lemma projection_job_tests:
  assumes "at_least_once d"
  shows "test_processing_stores_projection d" "test_projection_redelivery d"
  by (simp_all add: test_processing_stores_projection_def test_projection_redelivery_def run_jobs_once [OF assms]
      projection_store_get_def store_len_def)

section \<open>Scopes\<close>

definition fx_scope_request :: "string list \<Rightarrow> scope_request" where
  "fx_scope_request messages = \<lparr>sreq_conversation = ConversationId ''c-1'', sreq_messages = map MessageId messages\<rparr>"

definition seeded_projections :: "deliveries \<Rightarrow> projection_store" where
  "seeded_projections d = run_jobs d store_new [fx_job_message]"

definition run_scope_jobs :: "deliveries \<Rightarrow> projection_store \<Rightarrow> scope_store \<Rightarrow> scope_request list \<Rightarrow> scope_store" where
  "run_scope_jobs d projections scopes requests =
     run_stage d (build_scope_run (scope_project ascii_lower) projections) requests scopes"

definition test_building_a_scope :: "deliveries \<Rightarrow> bool" where
  "test_building_a_scope d =
     (scope_store_get (run_scope_jobs d (seeded_projections d) store_new [fx_scope_request [''m-1'']]) (ConversationId ''c-1'') \<noteq> None)"

definition test_scope_redelivery :: "deliveries \<Rightarrow> bool" where
  "test_scope_redelivery d =
     (store_len (run_scope_jobs d (seeded_projections d) store_new
        [fx_scope_request [''m-1''], fx_scope_request [''m-1'']]) = 1)"

definition test_scope_missing_projections :: "deliveries \<Rightarrow> bool" where
  "test_scope_missing_projections d =
     (scope_store_get (run_scope_jobs d (seeded_projections d) store_new [fx_scope_request [''m-1'', ''m-missing'']])
        (ConversationId ''c-1'') \<noteq> None)"

lemma scope_project_conversation: "sc_conversation (scope_project lc c ps) = c"
  by (simp add: scope_project_def Let_def split: prod.split)

lemma run_scope_jobs_once:
  assumes "at_least_once d" and "requests \<noteq> []" and "set requests = {fx_scope_request ms}"
  shows "run_scope_jobs d ps store_new requests =
    [ConversationId ''c-1'' \<mapsto> scope_project ascii_lower (ConversationId ''c-1'') (stored_projections ps (map MessageId ms))]"
  unfolding run_scope_jobs_def
  by (rule run_stage_twice [OF assms]) (simp_all add: build_scope_run_def fx_scope_request_def scope_store_upsert_def store_new_def
      scope_project_conversation)

lemma scope_job_tests:
  assumes "at_least_once d"
  shows "test_building_a_scope d" "test_scope_redelivery d" "test_scope_missing_projections d"
  by (simp_all add: test_building_a_scope_def test_scope_redelivery_def test_scope_missing_projections_def
      run_scope_jobs_once [OF assms] scope_store_get_def store_len_def)

section \<open>Warm-ups\<close>

definition fx_job_projection :: "string \<Rightarrow> intent \<Rightarrow> projection" where
  "fx_job_projection i intent =
     \<lparr>proj_message_id = MessageId i, proj_intent = intent, proj_topics = [], proj_entities = [],
      proj_confidence = confidence_new (f64_lit (8 / 10))\<rparr>"

definition seeded_intents :: projection_store where
  "seeded_intents =
     fold (\<lambda>p s. projection_store_upsert s p)
       [fx_job_projection ''m-1'' Decision, fx_job_projection ''m-2'' Question, fx_job_projection ''m-3'' Task] store_new"

definition seeded_scope :: scope_store where
  "seeded_scope = scope_store_upsert store_new
     \<lparr>sc_conversation = ConversationId ''c-1'', sc_load = [Component ''auth-sdk''], sc_ignore = [],
      sc_reason = ''SDK auth work.'', sc_confidence = confidence_new (f64_lit (8 / 10))\<rparr>"

definition fx_warmup_request :: warmup_request where
  "fx_warmup_request =
     \<lparr>wreq_conversation = ConversationId ''c-1'', wreq_messages = [MessageId ''m-1'', MessageId ''m-2'', MessageId ''m-3'']\<rparr>"

definition run_warmup_jobs ::
  "deliveries \<Rightarrow> projection_store \<Rightarrow> scope_store \<Rightarrow> warmup_store \<Rightarrow> warmup_request list \<Rightarrow> warmup_store" where
  "run_warmup_jobs d projections scopes warmups requests =
     run_stage d (build_warmup_run warmup_build projections scopes) requests warmups"

definition test_building_a_warmup :: "deliveries \<Rightarrow> bool" where
  "test_building_a_warmup d =
     (case warmup_store_get (run_warmup_jobs d seeded_intents seeded_scope store_new [fx_warmup_request]) (ConversationId ''c-1'') of
        None \<Rightarrow> False
      | Some document \<Rightarrow> wu_decisions document = [MessageId ''m-1''] \<and> wu_focus document = [Component ''auth-sdk''])"

definition test_warmup_redelivery :: "deliveries \<Rightarrow> bool" where
  "test_warmup_redelivery d =
     (store_len (run_warmup_jobs d seeded_intents seeded_scope store_new [fx_warmup_request, fx_warmup_request]) = 1)"

definition test_missing_scope_does_not_fail :: "deliveries \<Rightarrow> bool" where
  "test_missing_scope_does_not_fail d =
     (case warmup_store_get (run_warmup_jobs d seeded_intents store_new store_new [fx_warmup_request]) (ConversationId ''c-1'') of
        None \<Rightarrow> False | Some document \<Rightarrow> wu_focus document = [])"

lemma warmup_build_fields:
  "wu_conversation (warmup_build c s ps) = c" "wu_decisions (warmup_build c s ps) = ids_with Decision ps"
  "wu_focus (warmup_build c s ps) = (case s of Some s \<Rightarrow> sc_load s | None \<Rightarrow> [])"
  by (simp_all add: warmup_build_def warmup_loop_eq Let_def)

lemma run_warmup_jobs_once:
  assumes "at_least_once d" and "requests \<noteq> []" and "set requests = {r}"
  shows "run_warmup_jobs d ps scopes store_new requests =
    [wreq_conversation r \<mapsto> warmup_build (wreq_conversation r) (scope_store_get scopes (wreq_conversation r))
       (stored_projections ps (wreq_messages r))]"
  unfolding run_warmup_jobs_def
  by (rule run_stage_twice [OF assms]) (simp_all add: build_warmup_run_def warmup_store_upsert_def store_new_def warmup_build_fields)

lemma warmup_job_tests:
  assumes "at_least_once d"
  shows "test_building_a_warmup d" "test_warmup_redelivery d" "test_missing_scope_does_not_fail d"
  by (simp_all add: test_building_a_warmup_def test_warmup_redelivery_def test_missing_scope_does_not_fail_def
      run_warmup_jobs_once [OF assms, where r = fx_warmup_request])
    (simp_all add: warmup_store_get_def store_len_def fx_warmup_request_def warmup_build_fields
      seeded_intents_def seeded_scope_def stored_projections_def projection_store_get_def projection_store_upsert_def
      scope_store_get_def scope_store_upsert_def store_new_def fx_job_projection_def ids_with_def List.map_filter_simps)

section \<open>Skills\<close>

definition fx_skill_entry :: "string \<Rightarrow> string \<Rightarrow> skill_entry" where
  "fx_skill_entry author message =
     \<lparr>se_author = AuthorId author, se_display_name = author, se_message = MessageId message\<rparr>"

definition run_skill_jobs :: "deliveries \<Rightarrow> projection_store \<Rightarrow> skill_store \<Rightarrow> skill_request list \<Rightarrow> skill_store" where
  "run_skill_jobs d projections skills requests = run_stage d (build_skill_run skill_build projections) requests skills"

definition test_building_stores_ownership :: "deliveries \<Rightarrow> bool" where
  "test_building_stores_ownership d =
     (let skills = run_skill_jobs d (seeded_projections d) store_new [\<lparr>skreq_entries = [fx_skill_entry ''u-1'' ''m-1'']\<rparr>] in
      case skill_store_get skills (Topic ''auth'') of
        None \<Rightarrow> False
      | Some auth \<Rightarrow> ec_author (own_candidates auth ! 0) = AuthorId ''u-1'' \<and> skill_store_get skills (Topic ''sdk'') \<noteq> None)"

definition test_skill_redelivery :: "deliveries \<Rightarrow> bool" where
  "test_skill_redelivery d =
     (let request = \<lparr>skreq_entries = [fx_skill_entry ''u-1'' ''m-1'']\<rparr> in
      store_len (run_skill_jobs d (seeded_projections d) store_new [request, request]) = 2)"

definition test_skill_missing_projection :: "deliveries \<Rightarrow> bool" where
  "test_skill_missing_projection d =
     (skill_store_get (run_skill_jobs d (seeded_projections d) store_new
        [\<lparr>skreq_entries = [fx_skill_entry ''u-1'' ''m-1'', fx_skill_entry ''u-2'' ''m-missing'']\<rparr>]) (Topic ''auth'') \<noteq> None)"

definition job_contribution :: skill_contribution where
  "job_contribution =
     \<lparr>sk_author = AuthorId ''u-1'', sk_display_name = ''u-1'', sk_topics = [Topic ''sdk'', Topic ''auth''],
      sk_confidence = Confidence (FFin False (3602879701896397 / 4503599627370496))\<rparr>"

definition sole_owner :: "string \<Rightarrow> topic_ownership" where
  "sole_owner t =
     \<lparr>own_topic = Topic t, own_candidates =
       [\<lparr>ec_author = AuthorId ''u-1'', ec_display_name = ''u-1'', ec_score = skill_score_new (FFin False 1)\<rparr>]\<rparr>"

lemma job_ownerships: "si_ownerships (skill_build [job_contribution]) = [sole_owner ''auth'', sole_owner ''sdk'']"
  by code_simp

lemma run_skill_jobs_once:
  assumes "at_least_once d" and "requests \<noteq> []"
    and "\<forall>r\<in>set requests. List.map_filter (contribution_of ps) (skreq_entries r) = [job_contribution]"
  shows "run_skill_jobs d ps store_new requests = [Topic ''auth'' \<mapsto> sole_owner ''auth'', Topic ''sdk'' \<mapsto> sole_owner ''sdk'']"
    (is "_ = ?skills")
  unfolding run_skill_jobs_def
  by (rule run_stage_reaches [OF assms(1,2), where P = "\<lambda>s. s = store_new \<or> s = ?skills"])
    (use assms(3) in \<open>auto simp: build_skill_run_def job_ownerships skill_store_upsert_def store_new_def sole_owner_def\<close>)

lemma seeded_projections_eq: "at_least_once d \<Longrightarrow> seeded_projections d = [MessageId ''m-1'' \<mapsto> job_projection]"
  by (simp add: seeded_projections_def run_jobs_once)

lemma skill_entries_joined:
  assumes "at_least_once d"
  shows "List.map_filter (contribution_of (seeded_projections d)) [fx_skill_entry ''u-1'' ''m-1''] = [job_contribution]"
    "List.map_filter (contribution_of (seeded_projections d)) [fx_skill_entry ''u-1'' ''m-1'', fx_skill_entry ''u-2'' ''m-missing''] =
      [job_contribution]"
  by (simp_all add: List.map_filter_simps contribution_of_def fx_skill_entry_def seeded_projections_eq [OF assms] projection_store_get_def
      job_projection_topics job_projection_confidence job_contribution_def)

lemma skill_job_tests:
  assumes "at_least_once d"
  shows "test_building_stores_ownership d" "test_skill_redelivery d" "test_skill_missing_projection d"
proof -
  have jobs: "run_skill_jobs d (seeded_projections d) store_new requests =
      [Topic ''auth'' \<mapsto> sole_owner ''auth'', Topic ''sdk'' \<mapsto> sole_owner ''sdk'']"
    if "requests \<noteq> []" and "skreq_entries ` set requests \<subseteq> {[fx_skill_entry ''u-1'' ''m-1''],
      [fx_skill_entry ''u-1'' ''m-1'', fx_skill_entry ''u-2'' ''m-missing'']}" for requests
    by (rule run_skill_jobs_once [OF assms that(1)]) (use that(2) skill_entries_joined [OF assms] in force)
  show "test_building_stores_ownership d" "test_skill_redelivery d" "test_skill_missing_projection d"
    unfolding test_building_stores_ownership_def test_skill_redelivery_def test_skill_missing_projection_def Let_def
    by (simp_all add: jobs skill_store_get_def store_len_def sole_owner_def)
qed

section \<open>Routes\<close>

definition fx_routing_request :: "string list \<Rightarrow> routing_request" where
  "fx_routing_request messages = \<lparr>rreq_messages = map MessageId messages\<rparr>"

definition run_route_jobs ::
  "deliveries \<Rightarrow> projection_store \<Rightarrow> routing_store \<Rightarrow> routing_trace_store \<Rightarrow> recording_consumer \<Rightarrow> routing_request list \<Rightarrow>
   routing_store \<times> routing_trace_store \<times> recording_consumer" where
  "run_route_jobs d projections routes traces human requests =
     run_stage d (route_run router_new projections (registry_register registry_new Human recorder_consume)) requests
       (routes, traces, human)"

definition test_routing_stores_and_dispatches :: "deliveries \<Rightarrow> bool" where
  "test_routing_stores_and_dispatches d =
     (let (routes, traces, human) = run_route_jobs d (seeded_projections d) store_new store_new recorder_new [fx_routing_request [''m-1'']] in
      case routing_store_get routes (MessageId ''m-1'') of
        None \<Rightarrow> False
      | Some decision \<Rightarrow> dec_target decision = Human \<and> recorder_received human Human (MessageId ''m-1''))"

definition test_routing_redelivery :: "deliveries \<Rightarrow> bool" where
  "test_routing_redelivery d =
     (let (routes, traces, human) = run_route_jobs d (seeded_projections d) store_new store_new recorder_new
            [fx_routing_request [''m-1''], fx_routing_request [''m-1'']] in
      store_len routes = 1)"

definition test_routing_missing_projection :: "deliveries \<Rightarrow> bool" where
  "test_routing_missing_projection d =
     (let (routes, traces, human) = run_route_jobs d (seeded_projections d) store_new store_new recorder_new
            [fx_routing_request [''m-1'', ''m-missing'']] in
      routing_store_get routes (MessageId ''m-1'') \<noteq> None \<and> routing_store_get routes (MessageId ''m-missing'') = None \<and>
      store_len routes = 1)"

definition job_route :: "routing_decision \<times> routing_trace" where
  "job_route = router_route router_new job_projection"

lemma job_route_fields:
  "dec_message_id (fst job_route) = MessageId ''m-1''" "rt_message_id (snd job_route) = MessageId ''m-1''"
  "dec_target (fst job_route) = Human"
proof -
  show "dec_message_id (fst job_route) = MessageId ''m-1''" "rt_message_id (snd job_route) = MessageId ''m-1''"
    by (simp_all add: job_route_def route_ids job_projection_id)
  show "dec_target (fst job_route) = Human"
    by (simp add: job_route_def route_target target_for_new job_projection_intent)
qed

lemma run_route_jobs_once:
  assumes "at_least_once d" and "requests \<noteq> []" and "set requests = {fx_routing_request ms}"
    and "ms \<in> {[''m-1''], [''m-1'', ''m-missing'']}"
  shows "run_route_jobs d (seeded_projections d) store_new store_new recorder_new requests =
    ([MessageId ''m-1'' \<mapsto> fst job_route], [MessageId ''m-1'' \<mapsto> snd job_route],
     {\<lparr>rcpt_kind = Human, rcpt_message_id = MessageId ''m-1''\<rparr>})"
proof -
  obtain decision trace where r: "router_route router_new job_projection = (decision, trace)" by fastforce
  then have ids: "dec_message_id decision = MessageId ''m-1''" "rt_message_id trace = MessageId ''m-1''" "dec_target decision = Human"
    using job_route_fields by (simp_all add: job_route_def)
  show ?thesis
    unfolding run_route_jobs_def
    by (rule run_stage_twice [OF assms(1-3)]) (use assms(4) ids in \<open>auto simp: route_run_def fx_routing_request_def
      seeded_projections_eq [OF assms(1)] projection_store_get_def r job_route_def routing_store_upsert_def
      routing_trace_store_upsert_def store_new_def dispatch_register recorder_consume_def recorder_new_def\<close>)
qed

lemma route_job_tests:
  assumes "at_least_once d"
  shows "test_routing_stores_and_dispatches d" "test_routing_redelivery d" "test_routing_missing_projection d"
  by (simp_all add: test_routing_stores_and_dispatches_def test_routing_redelivery_def test_routing_missing_projection_def
      run_route_jobs_once [OF assms, where ms = "[''m-1'']"] run_route_jobs_once [OF assms, where ms = "[''m-1'', ''m-missing'']"] routing_store_get_def store_len_def recorder_received_def job_route_fields)

section \<open>Hints\<close>

definition seeded_skills :: skill_store where
  "seeded_skills =
     fold (\<lambda>topic s. skill_store_upsert s
         \<lparr>own_topic = Topic topic, own_candidates =
           [\<lparr>ec_author = AuthorId ''u-1'', ec_display_name = ''Dev'', ec_score = skill_score_new (f64_lit 1)\<rparr>]\<rparr>)
       [''auth'', ''sdk''] store_new"

definition fx_hint_request :: "string list \<Rightarrow> routing_hint_request" where
  "fx_hint_request messages = \<lparr>hreq_messages = map MessageId messages\<rparr>"

definition run_hint_jobs ::
  "deliveries \<Rightarrow> projection_store \<Rightarrow> skill_store \<Rightarrow> routing_hint_store \<Rightarrow> routing_hint_request list \<Rightarrow> routing_hint_store" where
  "run_hint_jobs d projections skills hints requests =
     run_stage d (build_routing_hint_run skill_hint projections skills) requests hints"

definition test_building_a_hint :: "deliveries \<Rightarrow> bool" where
  "test_building_a_hint d =
     (let hints = run_hint_jobs d (seeded_projections d) seeded_skills store_new [fx_hint_request [''m-1'']] in
      case routing_hint_store_get hints (MessageId ''m-1'') of
        None \<Rightarrow> False
      | Some hint \<Rightarrow> map_option ec_author (hint_human_hint hint) = Some (AuthorId ''u-1'') \<and> store_len hints = 1)"

definition test_hint_redelivery :: "deliveries \<Rightarrow> bool" where
  "test_hint_redelivery d =
     (store_len (run_hint_jobs d (seeded_projections d) seeded_skills store_new
        [fx_hint_request [''m-1''], fx_hint_request [''m-1'']]) = 1)"

definition test_hint_missing_projection :: "deliveries \<Rightarrow> bool" where
  "test_hint_missing_projection d =
     (let hints = run_hint_jobs d (seeded_projections d) seeded_skills store_new [fx_hint_request [''m-1'', ''m-missing'']] in
      routing_hint_store_get hints (MessageId ''m-1'') \<noteq> None \<and> routing_hint_store_get hints (MessageId ''m-missing'') = None \<and>
      store_len hints = 1)"

definition owned_by_dev :: "string \<Rightarrow> topic_ownership" where
  "owned_by_dev t =
     \<lparr>own_topic = Topic t, own_candidates =
       [\<lparr>ec_author = AuthorId ''u-1'', ec_display_name = ''Dev'', ec_score = skill_score_new (f64_lit 1)\<rparr>]\<rparr>"

lemma seeded_skills_eq: "seeded_skills = [Topic ''auth'' \<mapsto> owned_by_dev ''auth'', Topic ''sdk'' \<mapsto> owned_by_dev ''sdk'']"
  by (simp add: seeded_skills_def owned_by_dev_def skill_store_upsert_def store_new_def)

definition job_hint :: routing_hint where
  "job_hint = skill_hint job_projection [owned_by_dev ''sdk'', owned_by_dev ''auth'']"

lemma job_reviewers:
  "map ec_author (rank_candidates (total_ownerships [Topic ''sdk'', Topic ''auth''] [owned_by_dev ''sdk'', owned_by_dev ''auth''] [])) =
    [AuthorId ''u-1'']"
  by code_simp

lemma job_hint_fields:
  "hint_message_id job_hint = MessageId ''m-1''" "map_option ec_author (hint_human_hint job_hint) = Some (AuthorId ''u-1'')"
  using job_reviewers by (auto simp: job_hint_def skill_hint_def job_projection_id job_projection_topics)

lemma run_hint_jobs_once:
  assumes "at_least_once d" and "requests \<noteq> []" and "set requests = {fx_hint_request ms}"
    and "ms \<in> {[''m-1''], [''m-1'', ''m-missing'']}"
  shows "run_hint_jobs d (seeded_projections d) seeded_skills store_new requests = [MessageId ''m-1'' \<mapsto> job_hint]"
proof -
  have hint: "hint_for skill_hint (seeded_projections d) seeded_skills (MessageId i) = (if i = ''m-1'' then Some job_hint else None)" for i
    by (simp add: hint_for_def seeded_projections_eq [OF assms(1)] projection_store_get_def job_projection_topics List.map_filter_simps
        skill_store_get_def seeded_skills_eq job_hint_def)
  show ?thesis
    unfolding run_hint_jobs_def
    by (rule run_stage_twice [OF assms(1-3)]) (use assms(4) in \<open>auto simp: build_routing_hint_run_def fx_hint_request_def hint
      routing_hint_store_upsert_def store_new_def job_hint_fields\<close>)
qed

lemma hint_job_tests:
  assumes "at_least_once d"
  shows "test_building_a_hint d" "test_hint_redelivery d" "test_hint_missing_projection d"
  by (simp_all add: test_building_a_hint_def test_hint_redelivery_def test_hint_missing_projection_def Let_def
      run_hint_jobs_once [OF assms, where ms = "[''m-1'']"] run_hint_jobs_once [OF assms, where ms = "[''m-1'', ''m-missing'']"] routing_hint_store_get_def store_len_def job_hint_fields)

section \<open>Developers\<close>

definition fx_developer_request :: developer_snapshot_request where
  "fx_developer_request =
     \<lparr>dreq_conversation = ConversationId ''c-1'', dreq_participants = [\<lparr>pt_author = AuthorId ''u-1'', pt_display_name = ''Dev''\<rparr>],
      dreq_messages = [MessageId ''m-1'']\<rparr>"

definition run_developer_jobs ::
  "deliveries \<Rightarrow> projection_store \<Rightarrow> skill_store \<Rightarrow> developer_store \<Rightarrow> developer_snapshot_request list \<Rightarrow> developer_store" where
  "run_developer_jobs d projections skills developers requests =
     run_stage d (build_developer_snapshot_run snapshot_build projections skills) requests developers"

definition test_building_developers :: "deliveries \<Rightarrow> bool" where
  "test_building_developers d =
     (let developers = run_developer_jobs d (seeded_projections d) seeded_skills store_new [fx_developer_request] in
      case developer_store_get developers (ConversationId ''c-1'') of
        None \<Rightarrow> False
      | Some session \<Rightarrow> ds_author (sd_developers session ! 0) = AuthorId ''u-1'' \<and> ds_topics (sd_developers session ! 0) \<noteq> [] \<and>
          store_len developers = 1)"

definition test_developer_redelivery :: "deliveries \<Rightarrow> bool" where
  "test_developer_redelivery d =
     (store_len (run_developer_jobs d (seeded_projections d) seeded_skills store_new [fx_developer_request, fx_developer_request]) = 1)"

definition job_developers :: session_developers where
  "job_developers =
     snapshot_build (ConversationId ''c-1'') [\<lparr>pt_author = AuthorId ''u-1'', pt_display_name = ''Dev''\<rparr>]
       [owned_by_dev ''sdk'', owned_by_dev ''auth'']"

lemma job_developers_fields:
  "sd_conversation job_developers = ConversationId ''c-1''" "ds_author (sd_developers job_developers ! 0) = AuthorId ''u-1''"
  "ds_topics (sd_developers job_developers ! 0) \<noteq> []"
  by code_simp+

lemma run_developer_jobs_once:
  assumes "at_least_once d" and "requests \<noteq> []" and "set requests = {fx_developer_request}"
  shows "run_developer_jobs d (seeded_projections d) seeded_skills store_new requests = [ConversationId ''c-1'' \<mapsto> job_developers]"
proof -
  have "snd (build_developer_snapshot_run snapshot_build (seeded_projections d) seeded_skills s fx_developer_request) =
      s(ConversationId ''c-1'' \<mapsto> job_developers)" for s
    by (simp add: build_developer_snapshot_run_def fx_developer_request_def seeded_projections_eq [OF assms(1)]
        projection_store_get_def job_projection_topics skill_store_get_def seeded_skills_eq developer_store_upsert_def
        job_developers_def [symmetric] job_developers_fields owned_by_dev_def [symmetric])
  then show ?thesis
    unfolding run_developer_jobs_def by (intro run_stage_twice [OF assms]) (simp_all add: store_new_def)
qed

lemma developer_job_tests:
  assumes "at_least_once d"
  shows "test_building_developers d" "test_developer_redelivery d"
  by (simp_all add: test_building_developers_def test_developer_redelivery_def Let_def run_developer_jobs_once [OF assms]
      developer_store_get_def store_len_def job_developers_fields)

end
