(* ===== verification/Tests_Strategy.thy ===== *)
theory Tests_Strategy
  imports Main Prelude F64 Runtime Model MessageLog Stores Skill HintDev Routing Mock ScopeWarmup Derivation Jobs Replay
    Derived Submission Sqlite SqliteLog SqliteCaches Github Llm Commands Cli CliRun Session Verify Opening Tests_Core
    Tests_Storage Tests_Worker "HOL-Library.Monad_Syntax" "HOL-Library.Multiset"
begin

text \<open>
  The unit tests of stages, strategies, replay, submission and the observer over the model, and the
  recovery test of the storage crate. As in \<open>Tests_Worker\<close>, what the broker delivers is arbitrary as
  long as nothing is lost; a job that is delivered until it ends is \<open>finished\<close>.
\<close>

section \<open>Stages\<close>

text \<open>A job that records every payload it sees, and one that keeps the last.\<close>

definition collect_job :: "(nat list, nat) handler" where
  "collect_job seen n = (HOk, seen @ [n])"

definition sum_job :: "(nat, nat) handler" where
  "sum_job old n = (HOk, n)"

definition exactly_once :: "deliveries \<Rightarrow> bool" where
  "exactly_once d \<longleftrightarrow> (\<forall>n. mset (d n) = mset [0..<n])"

definition test_stage_runs_each_payload :: "deliveries \<Rightarrow> bool" where
  "test_stage_runs_each_payload d = (sort (run_stage d collect_job [1, 2, 3] []) = [1, 2, 3])"

definition test_global_runs_a_single_payload :: "deliveries \<Rightarrow> bool" where
  "test_global_runs_a_single_payload d = (run_stage d collect_job (global 7) [] = [7])"

text \<open>A strategy of another shape: doubles per item, then a join over the first stage's output.\<close>

definition sum_of_doubles :: "(nat \<Rightarrow> deliveries) \<Rightarrow> nat list \<Rightarrow> nat list \<times> nat \<Rightarrow> nat" where
  "sum_of_doubles d input st =
     (let seen = run_stage (d 1) collect_job (map (\<lambda>n. n * 2) input) (fst st); sum = sum_list seen in
      run_stage (d 2) sum_job (global sum) (snd st))"

definition test_different_shaped_strategy :: "(nat \<Rightarrow> deliveries) \<Rightarrow> bool" where
  "test_different_shaped_strategy d = (sum_of_doubles d [1, 2, 3] ([], 0) = 12)"

lemma collect_all: "run_stage d collect_job ps seen = seen @ delivered d ps"
proof -
  have "fold (\<lambda>p s. snd (collect_job s p)) ps seen = seen @ ps" for ps seen
    by (induction ps arbitrary: seen) (simp_all add: collect_job_def)
  then show ?thesis by (simp add: run_stage_delivered)
qed

lemma delivered_once:
  assumes "exactly_once d"
  shows "mset (delivered d ps) = mset ps"
proof -
  have "mset (delivered d ps) = mset (map ((!) ps) [0..<length ps])"
    using assms unfolding delivered_def exactly_once_def mset_map by simp
  then show ?thesis by (simp only: map_nth)
qed

lemma stage_tests:
  assumes "exactly_once d" and "\<forall>k. exactly_once (e k)"
  shows "test_stage_runs_each_payload d" "test_global_runs_a_single_payload d" "test_different_shaped_strategy e"
proof -
  have "sort (delivered d [1, 2, 3]) = sort [1, 2, 3 :: nat]"
    by (rule properties_for_sort) (simp_all add: delivered_once [OF assms(1)])
  then show "test_stage_runs_each_payload d" by (simp add: test_stage_runs_each_payload_def collect_all)
  have single: "delivered d' [x] = [x]" if "exactly_once d'" for d' and x :: nat
    using delivered_once [OF that, of "[x]"] by (simp add: mset_single_iff)
  show "test_global_runs_a_single_payload d"
    by (simp add: test_global_runs_a_single_payload_def collect_all global_def single [OF assms(1)])
  have once: "exactly_once (e k)" for k using assms(2) by blast
  have "sum_list (delivered (e 1) [2, 4, 6]) = (12 :: nat)"
    unfolding sum_mset_sum_list [symmetric] delivered_once [OF once] by simp
  moreover have "run_stage (e 2) sum_job [x] t = x" for x t
    by (simp add: run_stage_delivered single [OF once] sum_job_def)
  ultimately show "test_different_shaped_strategy e"
    by (simp add: test_different_shaped_strategy_def sum_of_doubles_def collect_all global_def)
qed

section \<open>A strategy of steps\<close>

definition incrementer :: "('s, nat, nat) step" where
  "incrementer =
     \<lparr>st_kind = ''probe.incrementer'', st_version = StepVersion ''v1'', st_run = (\<lambda>s n. (Some (n + 1), s))\<rparr>"

definition probe_strategy :: "nat list \<Rightarrow> nat list option" where
  "probe_strategy input =
     those (map (\<lambda>n. Option.bind (fst (st_run doubler () n)) (\<lambda>m. fst (st_run incrementer () m))) input)"

definition test_domain_free_strategy :: bool where
  "test_domain_free_strategy = (probe_strategy [1, 2, 3] = Some [3, 5, 7])"

lemma strategy_test: test_domain_free_strategy
  by (simp add: test_domain_free_strategy_def probe_strategy_def doubler_def incrementer_def)

section \<open>The registry\<close>

definition fx_context :: "'s strategy_context" where
  "fx_context =
     \<lparr>ctx_projector = mock_step ascii_lower, ctx_scoper = scope_project ascii_lower, ctx_builder = warmup_build,
      ctx_skill_builder = skill_build, ctx_hinter = skill_hint, ctx_snapshotter = snapshot_build\<rparr>"

definition fx_seeded_log :: mem_log where
  "fx_seeded_log = mem_log_append
     \<lparr>env_id = MessageId ''m-1'', env_source = Discord, env_author = \<lparr>au_id = AuthorId ''u-1'', au_display_name = ''Dev''\<rparr>,
      env_conversation = \<lparr>conv_id = ConversationId ''c-1'', conv_thread = None\<rparr>,
      env_body = ''We will use sqlite for the auth sdk.''\<rparr> mem_log_new"

definition fx_empty_stores :: replay_stores where
  "fx_empty_stores =
     \<lparr>rs_projections = store_new, rs_scopes = store_new, rs_warmups = store_new, rs_skills = store_new,
      rs_hints = store_new, rs_developers = store_new\<rparr>"

definition test_default_id_yields_projections :: "(nat \<Rightarrow> deliveries) \<Rightarrow> bool" where
  "test_default_id_yields_projections d =
     (case strategy_build strategy_builtins default_strategy fx_context of
        Inl e \<Rightarrow> False
      | Inr strategy \<Rightarrow>
          store_len (rs_projections (fst (strategy d (mem_log_all fx_seeded_log) ()))) = mem_log_len fx_seeded_log)"

definition test_different_id_yields_another_strategy :: "(nat \<Rightarrow> deliveries) \<Rightarrow> bool" where
  "test_different_id_yields_another_strategy d =
     (case strategy_build strategy_builtins ''empty'' fx_context of
        Inl e \<Rightarrow> False
      | Inr strategy \<Rightarrow> store_len (rs_projections (fst (strategy d (mem_log_all fx_seeded_log) ()))) = 0)"

definition test_unknown_id_is_an_error :: bool where
  "test_unknown_id_is_an_error =
     (case strategy_build strategy_builtins ''nope'' (fx_context :: unit strategy_context) of
        Inl e \<Rightarrow> e = UnknownStrategy ''nope'' | Inr strategy \<Rightarrow> False)"

definition test_registered_strategy_is_selected :: "(nat \<Rightarrow> deliveries) \<Rightarrow> bool" where
  "test_registered_strategy_is_selected d =
     (let registry = strategy_register strategy_builtins ''also-empty'' (\<lambda>_. empty_strategy) in
      case strategy_build registry ''also-empty'' fx_context of
        Inl e \<Rightarrow> False
      | Inr strategy \<Rightarrow> store_len (rs_projections (fst (strategy d (mem_log_all fx_seeded_log) ()))) = 0)"

lemma fx_context_reference: "fx_context = reference_context ascii_lower (mock_step ascii_lower)"
  by (simp add: fx_context_def reference_context_def)

lemma fx_context_replay:
  assumes "\<forall>k. at_least_once (d k)" and "log_wf ms"
  shows "replay_run fx_context d ms s = (mock_stores ascii_lower ms, s)"
  unfolding fx_context_reference by (rule mock_replay [OF assms])

lemma mock_accounts:
  assumes "log_wf ms"
  shows "dom (rs_projections (mock_stores lc ms)) = env_id ` set ms" "dom (rs_hints (mock_stores lc ms)) = env_id ` set ms"
    "dom (rs_warmups (mock_stores lc ms)) = conversation_of ` set ms"
    "dom (rs_developers (mock_stores lc ms)) = conversation_of ` set ms"
  using reference.spec_accounts [OF assms, of "mock_run lc"] by (simp_all add: mock_stores_def)

lemma fx_seeded_log_facts:
  "log_wf (mem_log_all fx_seeded_log)" "env_id ` set (mem_log_all fx_seeded_log) = {MessageId ''m-1''}"
  "mem_log_len fx_seeded_log = 1"
  by (simp_all add: fx_seeded_log_def mem_log_append_def mem_log_new_def mem_log_all_def mem_log_len_def log_wf_def)

lemma builtins_ordered: "bt_ordered strategy_builtins"
  unfolding strategy_builtins_def by (intro strategy_register_ordered) simp

lemma registry_tests:
  assumes "\<forall>k. at_least_once (d k)"
  shows "test_default_id_yields_projections d" "test_different_id_yields_another_strategy d" test_unknown_id_is_an_error
    "test_registered_strategy_is_selected d"
proof -
  show "test_default_id_yields_projections d"
    by (simp add: test_default_id_yields_projections_def strategy_build_builtins default_strategy_def
        fx_context_replay [OF assms fx_seeded_log_facts(1)] store_len_def mock_accounts fx_seeded_log_facts)
  show "test_different_id_yields_another_strategy d" test_unknown_id_is_an_error "test_registered_strategy_is_selected d"
    by (simp_all add: test_different_id_yields_another_strategy_def test_unknown_id_is_an_error_def
        test_registered_strategy_is_selected_def strategy_build_register [OF builtins_ordered] strategy_build_builtins
        empty_strategy_def empty_stores_def store_len_def store_new_def)
qed

section \<open>Replay\<close>

definition fx_replay_message :: "string \<Rightarrow> string \<Rightarrow> string \<Rightarrow> message_envelope" where
  "fx_replay_message i conversation body =
     \<lparr>env_id = MessageId i, env_source = Discord, env_author = \<lparr>au_id = AuthorId ''u-1'', au_display_name = ''Dev''\<rparr>,
      env_conversation = \<lparr>conv_id = ConversationId conversation, conv_thread = None\<rparr>, env_body = body\<rparr>"

definition fx_replay_log :: mem_log where
  "fx_replay_log =
     fold mem_log_append
       [fx_replay_message ''m-1'' ''c-1'' ''We will use sqlite for the auth sdk oauth refresh-token store.'',
        fx_replay_message ''m-2'' ''c-1'' ''Should we expose a refresh endpoint?'',
        fx_replay_message ''m-3'' ''c-2'' ''We need to add ci for the infra crate.''] mem_log_new"

definition fx_replay :: "(nat \<Rightarrow> deliveries) \<Rightarrow> mem_log \<Rightarrow> replay_stores" where
  "fx_replay d l = fst (replay_run fx_context d (mem_log_all l) ())"

text \<open>\<open>==\<close> of the test compares the values, here the stores themselves.\<close>

definition test_replay_is_deterministic :: "(nat \<Rightarrow> deliveries) \<Rightarrow> (nat \<Rightarrow> deliveries) \<Rightarrow> bool" where
  "test_replay_is_deterministic d e =
     (let first = fx_replay d fx_replay_log; second = fx_replay e fx_replay_log in
      (\<forall>m\<in>set (mem_log_all fx_replay_log).
         projection_store_get (rs_projections first) (env_id m) = projection_store_get (rs_projections second) (env_id m)) \<and>
      (\<forall>c\<in>{ConversationId ''c-1'', ConversationId ''c-2''}.
         scope_store_get (rs_scopes first) c = scope_store_get (rs_scopes second) c \<and>
         warmup_store_get (rs_warmups first) c = warmup_store_get (rs_warmups second) c) \<and>
      (\<forall>t\<in>{''auth'', ''sdk'', ''oauth'', ''ci'', ''infra''}.
         skill_store_get (rs_skills first) (Topic t) = skill_store_get (rs_skills second) (Topic t)) \<and>
      (\<forall>m\<in>set (mem_log_all fx_replay_log).
         routing_hint_store_get (rs_hints first) (env_id m) = routing_hint_store_get (rs_hints second) (env_id m)) \<and>
      (\<forall>c\<in>{ConversationId ''c-1'', ConversationId ''c-2''}.
         developer_store_get (rs_developers first) c = developer_store_get (rs_developers second) c))"

definition test_replay_derives_every_hint :: "(nat \<Rightarrow> deliveries) \<Rightarrow> bool" where
  "test_replay_derives_every_hint d =
     (let stores = fx_replay d fx_replay_log in
      (\<forall>m\<in>set (mem_log_all fx_replay_log). routing_hint_store_get (rs_hints stores) (env_id m) \<noteq> None) \<and>
      store_len (rs_hints stores) = mem_log_len fx_replay_log)"

definition test_replay_derives_developers :: "(nat \<Rightarrow> deliveries) \<Rightarrow> bool" where
  "test_replay_derives_developers d =
     (let stores = fx_replay d fx_replay_log in
      (\<forall>c\<in>{ConversationId ''c-1'', ConversationId ''c-2''}.
         case developer_store_get (rs_developers stores) c of None \<Rightarrow> False | Some session \<Rightarrow> sd_developers session \<noteq> []) \<and>
      store_len (rs_developers stores) = 2)"

definition test_replay_accounts_for_every_message :: "(nat \<Rightarrow> deliveries) \<Rightarrow> bool" where
  "test_replay_accounts_for_every_message d =
     (let stores = fx_replay d fx_replay_log in
      (\<forall>m\<in>set (mem_log_all fx_replay_log). projection_store_get (rs_projections stores) (env_id m) \<noteq> None) \<and>
      store_len (rs_projections stores) = mem_log_len fx_replay_log)"

definition test_duplicate_ingest :: "(nat \<Rightarrow> deliveries) \<Rightarrow> bool" where
  "test_duplicate_ingest d =
     (let l = mem_log_append (fx_replay_message ''m-1'' ''c-1'' ''We will use sqlite for the auth sdk.'') fx_replay_log;
          stores = fx_replay d l in
      mem_log_len l = 3 \<and> store_len (rs_projections stores) = 3)"

lemma fx_replay_eq:
  "\<forall>k. at_least_once (d k) \<Longrightarrow> log_wf (mem_log_all l) \<Longrightarrow> fx_replay d l = mock_stores ascii_lower (mem_log_all l)"
  by (simp add: fx_replay_def fx_context_replay)

lemmas mem_log_ops = mem_log_append_def mem_log_new_def mem_log_all_def mem_log_len_def

lemma fx_replay_log_facts:
  "log_wf (mem_log_all fx_replay_log)" "mem_log_len fx_replay_log = 3"
  "env_id ` set (mem_log_all fx_replay_log) = {MessageId ''m-1'', MessageId ''m-2'', MessageId ''m-3''}"
  "conversation_of ` set (mem_log_all fx_replay_log) = {ConversationId ''c-1'', ConversationId ''c-2''}"
  by (simp_all add: fx_replay_log_def fx_replay_message_def mem_log_ops log_wf_def conversation_of_def)

lemma mock_developers:
  assumes "c \<in> conversation_of ` set ms" and "rs_developers (mock_stores lc ms) c = Some session"
  shows "sd_developers session \<noteq> []"
proof -
  have session: "session = snapshot_build c (or_empty (participants_by_conversation ms c))
      (List.map_filter (rs_skills (mock_stores lc ms))
        (first_seen {} (session_topics (rs_projections (mock_stores lc ms)) (conversation_ids_of ms c))))"
    using assms(2) by (simp add: mock_stores_def phases_spec_def reference_context_def table_apply Let_def split: if_splits)
  have "or_empty (participants_by_conversation ms c) \<noteq> []"
    using participants_of(1) [of ms c] assms(1) by (force simp: default_messages_for_def)
  then have "length (sd_developers session) \<noteq> 0" unfolding session snapshot_participants(2) by simp
  then show ?thesis by simp
qed

lemma replay_tests:
  assumes "\<forall>k. at_least_once (d k)" and "\<forall>k. at_least_once (e k)"
  shows "test_replay_is_deterministic d e" "test_replay_derives_every_hint d" "test_replay_derives_developers d"
    "test_replay_accounts_for_every_message d" "test_duplicate_ingest d"
proof -
  note run = fx_replay_eq [OF assms(1) fx_replay_log_facts(1)] fx_replay_eq [OF assms(2) fx_replay_log_facts(1)]
  note accounts = mock_accounts [OF fx_replay_log_facts(1), of ascii_lower]
  show "test_replay_is_deterministic d e" by (simp add: test_replay_is_deterministic_def run)
  have len: "card (env_id ` set (mem_log_all fx_replay_log)) = 3" "card (conversation_of ` set (mem_log_all fx_replay_log)) = 2"
    unfolding fx_replay_log_facts by simp_all
  have "rs_hints (mock_stores ascii_lower (mem_log_all fx_replay_log)) (env_id m) \<noteq> None"
    "rs_projections (mock_stores ascii_lower (mem_log_all fx_replay_log)) (env_id m) \<noteq> None"
    if "m \<in> set (mem_log_all fx_replay_log)" for m
    using accounts(1,2) that by auto
  then show "test_replay_derives_every_hint d" "test_replay_accounts_for_every_message d"
    by (auto simp: test_replay_derives_every_hint_def test_replay_accounts_for_every_message_def run store_len_def accounts len
        fx_replay_log_facts(2) routing_hint_store_get_def projection_store_get_def simp del: not_None_eq)
  have "\<exists>session. rs_developers (mock_stores ascii_lower (mem_log_all fx_replay_log)) c = Some session \<and> sd_developers session \<noteq> []"
    if "c \<in> {ConversationId ''c-1'', ConversationId ''c-2''}" for c
  proof -
    have c: "c \<in> conversation_of ` set (mem_log_all fx_replay_log)" using that by (simp add: fx_replay_log_facts(4))
    then obtain session where "rs_developers (mock_stores ascii_lower (mem_log_all fx_replay_log)) c = Some session"
      using accounts(4) by blast
    with mock_developers [OF c this] show ?thesis by blast
  qed
  from this [of "ConversationId ''c-1''"] this [of "ConversationId ''c-2''"] show "test_replay_derives_developers d"
    by (auto simp: test_replay_derives_developers_def run store_len_def accounts len developer_store_get_def Let_def)
  let ?again = "mem_log_append (fx_replay_message ''m-1'' ''c-1'' ''We will use sqlite for the auth sdk.'') fx_replay_log"
  have again: "log_wf (mem_log_all ?again)" "env_id ` set (mem_log_all ?again) = {MessageId ''m-1'', MessageId ''m-2'', MessageId ''m-3''}"
    "mem_log_len ?again = 3"
    by (simp_all add: fx_replay_log_def fx_replay_message_def mem_log_ops log_wf_def)
  then show "test_duplicate_ingest d"
    by (simp add: test_duplicate_ingest_def Let_def fx_replay_eq [OF assms(1)] store_len_def mock_accounts)
qed

section \<open>Submission\<close>

text \<open>A strategy that notes in the state of its ports that it ran.\<close>

definition recording_strategy :: "bool replay_strategy" where
  "recording_strategy d messages seen = (fx_empty_stores, True)"

definition test_submitted_job_runs_the_strategy :: "(string \<Rightarrow> string) \<Rightarrow> hash_function \<Rightarrow> (nat \<Rightarrow> deliveries) \<Rightarrow> bool" where
  "test_submitted_job_runs_the_strategy dbg hasher d =
     (let registry = strategy_register strategy_builtins ''probe'' (\<lambda>_. recording_strategy);
          (cache, seen) = run_stage (d 0)
            (strategy_run dbg derived_put derived_reclaim hasher (mem_log_all fx_seeded_log) (mem_log_all fx_seeded_log) fx_context registry d)
            [\<lparr>srun_strategy = ''probe''\<rparr>] (derived_new, False) in
      seen)"

definition test_consumed_run_populates_the_cache :: "(string \<Rightarrow> string) \<Rightarrow> hash_function \<Rightarrow> (nat \<Rightarrow> deliveries) \<Rightarrow> bool" where
  "test_consumed_run_populates_the_cache dbg hasher d =
     (let (cache, s) = run_stage (d 0)
            (strategy_run dbg derived_put derived_reclaim hasher (mem_log_all fx_seeded_log) (mem_log_all fx_seeded_log) fx_context strategy_builtins d)
            [\<lparr>srun_strategy = default_strategy\<rparr>] (derived_new, ());
          version = derivation_version default_strategy (st_version (ctx_projector (fx_context :: unit strategy_context)));
          conversation = ConversationId ''c-1'' in
      case derived_get cache version conversation (content_hash hasher (mem_log_all fx_seeded_log) conversation) of
        None \<Rightarrow> False
      | Some derivation \<Rightarrow> length (cd_projections derivation) = mem_log_len fx_seeded_log)"

lemma submitted_job_test:
  assumes "\<forall>k. at_least_once (d k)"
  shows "test_submitted_job_runs_the_strategy dbg hasher d"
proof -
  have "snd (run_stage (d 0) (strategy_run dbg derived_put derived_reclaim hasher (mem_log_all fx_seeded_log) (mem_log_all fx_seeded_log) fx_context
      (strategy_register strategy_builtins ''probe'' (\<lambda>_. recording_strategy)) d) [\<lparr>srun_strategy = ''probe''\<rparr>] (derived_new, False))"
    by (rule run_stage_reaches [where P = "\<lambda>_. True" and Q = snd])
      (use assms in \<open>simp_all add: strategy_run_def strategy_build_register [OF builtins_ordered] recording_strategy_def case_prod_unfold Let_def\<close>)
  then show ?thesis by (simp add: test_submitted_job_runs_the_strategy_def case_prod_unfold)
qed

lemma consumed_run_test:
  assumes "\<forall>k. at_least_once (d k)"
  shows "test_consumed_run_populates_the_cache dbg hasher d"
proof -
  let ?ms = "mem_log_all fx_seeded_log" and ?c = "ConversationId ''c-1''"
  let ?stores = "mock_stores ascii_lower ?ms"
  let ?v = "derivation_version default_strategy (st_version (ctx_projector (fx_context :: unit strategy_context)))"
  let ?run = "strategy_run dbg derived_put derived_reclaim hasher ?ms ?ms (fx_context :: unit strategy_context) strategy_builtins d"
  have c: "?c \<in> set (conversations ?ms)"
    by (simp add: conversations_eq fx_seeded_log_def mem_log_ops default_conversation_ids_def conversation_of_def)
  obtain x where x: "derivation_for ?ms ?stores ?c = Some x" using mock_stores_derivation [OF c] by blast
  let ?Q = "\<lambda>st. derived_get (fst st) ?v ?c (content_hash hasher ?ms ?c) = Some x"
  have step: "?Q (snd (?run st \<lparr>srun_strategy = default_strategy\<rparr>))" for st
    using mem_derived.populate_get [OF _ _ x c]
    by (simp add: strategy_run_def strategy_build_builtins default_strategy_def fx_context_replay [OF assms fx_seeded_log_facts(1)]
        case_prod_unfold Let_def)
  have "?Q (run_stage (d 0) ?run [\<lparr>srun_strategy = default_strategy\<rparr>] (derived_new, ()))"
    by (rule run_stage_reaches [where P = "\<lambda>_. True" and Q = ?Q]) (use assms step in simp_all)
  moreover have "length (cd_projections x) = 1"
  proof -
    have "cd_projections x = List.map_filter (projection_store_get (rs_projections ?stores)) (messages_in ?ms ?c)"
      using x by (auto simp: derivation_for_def Let_def split: option.splits)
    moreover have "messages_in ?ms ?c = [MessageId ''m-1'']"
      by (simp add: messages_in_def fx_seeded_log_def mem_log_ops conversation_of_def)
    moreover have "MessageId ''m-1'' \<in> dom (rs_projections ?stores)"
      by (simp add: mock_accounts [OF fx_seeded_log_facts(1)] fx_seeded_log_facts)
    ultimately show ?thesis by (auto simp: List.map_filter_simps projection_store_get_def)
  qed
  ultimately show ?thesis
    by (simp add: test_consumed_run_populates_the_cache_def case_prod_unfold Let_def fx_seeded_log_facts)
qed

section \<open>Routed work\<close>

definition fx_routed_work_projection :: "string \<Rightarrow> projection" where
  "fx_routed_work_projection i =
     \<lparr>proj_message_id = MessageId i, proj_intent = Task, proj_topics = [Topic ''auth''], proj_entities = [Entity ''sqlite''],
      proj_confidence = confidence_new (f64_lit (9 / 10))\<rparr>"

definition fx_routed_work_decision :: "string \<Rightarrow> routing_decision" where
  "fx_routed_work_decision i =
     \<lparr>dec_message_id = MessageId i, dec_target = WorklaneJob, dec_reason = ''test'', dec_escalated = False\<rparr>"

text \<open>The enqueue of the test's failing broker; \<open>shown\<close> is how the queue library prints its error.\<close>

definition failing_enqueue :: "(string \<Rightarrow> string) \<Rightarrow> string \<Rightarrow> string \<Rightarrow> routed_work_payload \<Rightarrow> unit \<Rightarrow> (string + unit) \<times> unit" where
  "failing_enqueue shown lane key payload b = (Inl (shown ''enqueue rejected''), b)"

definition test_enqueue_failure_surfaces :: "(string \<Rightarrow> string) \<Rightarrow> bool" where
  "test_enqueue_failure_surfaces shown =
     (case fst (worklane_consume (failing_enqueue shown) () (fx_routed_work_decision ''m-1'') (fx_routed_work_projection ''m-1'')) of
        Inl err \<Rightarrow> str_contains (consumer_error_display err) ''enqueue rejected'' | Inr _ \<Rightarrow> False)"

lemma enqueue_failure_test:
  assumes "shown ''enqueue rejected'' = before @ ''enqueue rejected'' @ after"
  shows "test_enqueue_failure_surfaces shown"
proof -
  have "sublist ''enqueue rejected'' ((''consumer error: '' @ before) @ ''enqueue rejected'' @ after)"
    by (rule sublist_appendI)
  then have "str_contains (consumer_error_display (consumer_error_new (shown ''enqueue rejected''))) ''enqueue rejected''"
    unfolding assms str_contains_def consumer_error_display_def consumer_error_new_def consumer_error.sel append_assoc .
  then show ?thesis by (simp add: test_enqueue_failure_surfaces_def worklane_consume_def failing_enqueue_def)
qed

section \<open>Recovery\<close>

text \<open>The log is written and closed; another process opens it and replays it.\<close>

definition fx_recovery_message :: "string \<Rightarrow> string \<Rightarrow> message_envelope" where
  "fx_recovery_message i body =
     \<lparr>env_id = MessageId i, env_source = Discord, env_author = \<lparr>au_id = AuthorId ''u-1'', au_display_name = ''Dev''\<rparr>,
      env_conversation = \<lparr>conv_id = ConversationId ''c-1'', conv_thread = None\<rparr>, env_body = body\<rparr>"

definition test_replay_recovers_the_pipeline ::
  "(message_envelope \<Rightarrow> string) \<Rightarrow> (string \<Rightarrow> message_envelope option) \<Rightarrow> (nat \<Rightarrow> deliveries) \<Rightarrow> bool" where
  "test_replay_recovers_the_pipeline enc dec d =
     (do {
        db \<leftarrow> opened (message_store_init db_empty);
        db \<leftarrow> sqlite_append enc
          (fx_recovery_message ''m-1'' ''We will use sqlite for the auth sdk oauth refresh-token store.'') db;
        db \<leftarrow> sqlite_append enc (fx_recovery_message ''m-2'' ''Should we expose a refresh endpoint?'') db;
        db \<leftarrow> opened (message_store_init db);
        logged \<leftarrow> sqlite_all dec db;
        stores \<leftarrow> Some (fst (replay_run (fx_context :: unit strategy_context) d logged ()));
        Some (projection_store_get (rs_projections stores) (MessageId ''m-1'') \<noteq> None \<and>
          projection_store_get (rs_projections stores) (MessageId ''m-2'') \<noteq> None \<and>
          warmup_store_get (rs_warmups stores) (ConversationId ''c-1'') \<noteq> None)
      } = Some True)"

lemma recovery_test:
  assumes "\<And>m. dec (enc m) = Some m" and "\<forall>k. at_least_once (d k)"
  shows "test_replay_recovers_the_pipeline enc dec d"
proof -
  let ?ms = "[fx_recovery_message ''m-1'' ''We will use sqlite for the auth sdk oauth refresh-token store.'',
    fx_recovery_message ''m-2'' ''Should we expose a refresh endpoint?'']"
  have wf: "log_wf ?ms" by (simp add: log_wf_def fx_recovery_message_def)
  have "MessageId ''m-1'' \<in> dom (rs_projections (mock_stores ascii_lower ?ms))"
    "MessageId ''m-2'' \<in> dom (rs_projections (mock_stores ascii_lower ?ms))"
    "ConversationId ''c-1'' \<in> dom (rs_warmups (mock_stores ascii_lower ?ms))"
    unfolding mock_accounts [OF wf] by (simp_all add: fx_recovery_message_def conversation_of_def)
  then have stores: "projection_store_get (rs_projections (mock_stores ascii_lower ?ms)) (MessageId ''m-1'') \<noteq> None \<and>
      projection_store_get (rs_projections (mock_stores ascii_lower ?ms)) (MessageId ''m-2'') \<noteq> None \<and>
      warmup_store_get (rs_warmups (mock_stores ascii_lower ?ms)) (ConversationId ''c-1'') \<noteq> None"
    by (auto simp: projection_store_get_def warmup_store_get_def)
  have ids: "env_id (fx_recovery_message i body) = MessageId i" for i body by (simp add: fx_recovery_message_def)
  show ?thesis
    using stores
    by (simp add: test_replay_recovers_the_pipeline_def opened_fresh opened_again sqlite_append_def sqlite_all_def next_seq_def ids assms(1) Let_def
        fx_context_replay [OF assms(2) wf])
qed

end
