(* ===== verification/Tests_Edges.thy ===== *)
theory Tests_Edges
  imports Main Prelude F64 Runtime Model MessageLog Stores Routing Derivation Github Llm Tests_Core "HOL-Library.Word"
begin

text \<open>
  The unit tests of the GitHub crate and of the language-model crates over the model. Where a test
  parses JSON, the decoder is an argument and what it reads from the test's text is a hypothesis; the
  tests marked \<open>ignore\<close> call a network and are left out.
\<close>

section \<open>GitHub items\<close>

definition fx_repo :: repo where
  "fx_repo = repo_new ''acme'' ''widgets''"

definition fx_issue :: github_item where
  "fx_issue =
     \<lparr>gi_kind = ItemIssue, gi_repo = fx_repo, gi_number = 7, gi_id = ''7'', gi_author_login = ''alice'',
      gi_title = Some ''Login is broken'', gi_body = ''Steps to reproduce...''\<rparr>"

definition fx_comment :: github_item where
  "fx_comment =
     \<lparr>gi_kind = ItemComment, gi_repo = fx_repo, gi_number = 7, gi_id = ''c-100'', gi_author_login = ''bob'',
      gi_title = None, gi_body = ''I can repro too.''\<rparr>"

definition test_item_maps_to_a_message :: bool where
  "test_item_maps_to_a_message =
     (let message = to_message fx_issue in
      env_source message = SourceGitHub \<and> au_id (env_author message) = AuthorId ''alice'' \<and>
      conv_id (env_conversation message) = ConversationId ''github:acme/widgets#7'' \<and>
      take (length ''Login is broken'') (env_body message) = ''Login is broken'')"

definition test_issue_and_comment_share_a_conversation :: bool where
  "test_issue_and_comment_share_a_conversation =
     (let issue_msg = to_message fx_issue; comment_msg = to_message fx_comment in
      conv_id (env_conversation issue_msg) = conv_id (env_conversation comment_msg) \<and> env_id issue_msg \<noteq> env_id comment_msg)"

definition test_mapping_is_stable :: bool where
  "test_mapping_is_stable = (to_message fx_issue = to_message fx_issue)"

lemma show_seven: "show_u64 7 = ''7''"
  by code_simp

lemmas github_ops [test_simps] = to_message_def item_message_id_def item_conversation_id_def item_body_def fx_repo_def repo_new_def
  fx_issue_def fx_comment_def show_seven

lemma github_item_tests: test_item_maps_to_a_message test_issue_and_comment_share_a_conversation test_mapping_is_stable
  unfolding test_item_maps_to_a_message_def test_issue_and_comment_share_a_conversation_def test_mapping_is_stable_def
  by (simp_all add: test_simps)

section \<open>Sources\<close>

definition fx_item :: "string \<Rightarrow> 64 word \<Rightarrow> github_item" where
  "fx_item i number =
     \<lparr>gi_kind = ItemIssue, gi_repo = repo_new ''acme'' ''widgets'', gi_number = number, gi_id = i, gi_author_login = ''alice'',
      gi_title = Some ''Title'', gi_body = ''Body''\<rparr>"

definition test_fixture_returns_its_items :: bool where
  "test_fixture_returns_its_items = (map_option length (fixture_source [fx_item ''1'' 1] fx_repo) = Some 1)"

definition test_ingesting_appends_per_item :: bool where
  "test_ingesting_appends_per_item =
     (let source = fixture_source [fx_item ''1'' 1, fx_item ''2'' 2];
          (ids, store) = ingest_repo mem_log_append source fx_repo mem_log_new in
      map_option length ids = Some 2 \<and> mem_log_len store = 2 \<and>
      list_all (\<lambda>message. env_source message = SourceGitHub) (mem_log_all store))"

definition test_re_ingesting_does_not_duplicate :: bool where
  "test_re_ingesting_does_not_duplicate =
     (let source = fixture_source [fx_item ''1'' 1, fx_item ''2'' 2];
          (ids, store) = ingest_repo mem_log_append source fx_repo mem_log_new;
          (ids', store') = ingest_repo mem_log_append source fx_repo store in
      mem_log_len store' = 2)"

lemmas source_ops [test_simps] = fixture_source_def ingest_repo_def fx_item_def

lemma source_tests: test_fixture_returns_its_items test_ingesting_appends_per_item test_re_ingesting_does_not_duplicate
  unfolding test_fixture_returns_its_items_def test_ingesting_appends_per_item_def test_re_ingesting_does_not_duplicate_def
  by (simp_all add: test_simps)

definition test_parses_a_number_from_an_issue_url :: bool where
  "test_parses_a_number_from_an_issue_url =
     (number_from_issue_url ''https://api.github.com/repos/acme/widgets/issues/42'' = 42)"

definition test_token_only_to_the_default_host :: bool where
  "test_token_only_to_the_default_host =
     (sends_token (fst (rest_source_new github_default_base_url (Some ''t''))) \<and>
      \<not> sends_token (fst (rest_source_new ''https://ghe.example.com'' (Some ''t''))) \<and>
      \<not> sends_token (fst (rest_source_new github_default_base_url None)))"

lemma rest_tests: test_parses_a_number_from_an_issue_url test_token_only_to_the_default_host
proof -
  have "last_segment ''https://api.github.com/repos/acme/widgets/issues/42'' = ''42''" by (simp add: last_segment_def)
  then show test_parses_a_number_from_an_issue_url
    by (simp add: test_parses_a_number_from_an_issue_url_def number_from_issue_url_def parse_u64_def is_digit_def digits_value_def)
  show test_token_only_to_the_default_host
    by (simp add: test_token_only_to_the_default_host_def rest_source_new_def sends_token_def github_default_base_url_def)
qed

section \<open>Drafts\<close>

definition fx_draft_projection :: "intent \<Rightarrow> projection" where
  "fx_draft_projection intent =
     \<lparr>proj_message_id = MessageId ''m-1'', proj_intent = intent, proj_topics = [Topic ''auth''],
      proj_entities = [Entity ''refresh-token''], proj_confidence = confidence_new (f64_lit (8 / 10))\<rparr>"

definition fx_github_decision :: routing_decision where
  "fx_github_decision =
     \<lparr>dec_message_id = MessageId ''m-1'', dec_target = ConsumerGitHub, dec_reason = ''test'', dec_escalated = False\<rparr>"

definition test_proposal_drafts_a_pull_request :: bool where
  "test_proposal_drafts_a_pull_request = (gd_kind (draft_for (fx_draft_projection Proposal)) = DraftPullRequest)"

definition test_other_intents_draft_an_issue :: bool where
  "test_other_intents_draft_an_issue =
     (gd_kind (draft_for (fx_draft_projection Issue)) = DraftIssue \<and> gd_kind (draft_for (fx_draft_projection Task)) = DraftIssue)"

definition test_drafting_is_stable :: bool where
  "test_drafting_is_stable = (let p = fx_draft_projection Issue in draft_for p = draft_for p)"

definition test_consuming_records_one_draft :: bool where
  "test_consuming_records_one_draft =
     (let (r1, c1) = github_consume github_consumer_new fx_github_decision (fx_draft_projection Issue);
          (r2, c2) = github_consume c1 fx_github_decision (fx_draft_projection Issue) in
      r1 = Inr () \<and> r2 = Inr () \<and> github_consumer_len c2 = 1 \<and> github_consumer_get c2 (MessageId ''m-1'') \<noteq> None)"

lemma draft_tests:
  test_proposal_drafts_a_pull_request test_other_intents_draft_an_issue test_drafting_is_stable test_consuming_records_one_draft
  by (simp_all add: test_proposal_drafts_a_pull_request_def test_other_intents_draft_an_issue_def test_drafting_is_stable_def
      test_consuming_records_one_draft_def draft_for_def fx_draft_projection_def github_consume_def github_consumer_new_def
      github_consumer_len_def github_consumer_get_def)

section \<open>Answers of a model\<close>

definition fx_llm_message :: "string \<Rightarrow> message_envelope" where
  "fx_llm_message body =
     \<lparr>env_id = MessageId ''m-1'', env_source = Manual, env_author = \<lparr>au_id = AuthorId ''u-1'', au_display_name = ''Dev''\<rparr>,
      env_conversation = \<lparr>conv_id = ConversationId ''c-1'', conv_thread = None\<rparr>, env_body = body\<rparr>"

text \<open>The test's texts: keys and values as serde reads them.\<close>

definition answer_text :: "string \<Rightarrow> string list \<Rightarrow> string list \<Rightarrow> string \<Rightarrow> string" where
  "answer_text intent topics entities number =
     ''{'' @ quoted ''intent'' @ '':'' @ quoted intent @ '','' @ quoted ''topics'' @ '':['' @ join '','' (map quoted topics) @
     ''],'' @ quoted ''entities'' @ '':['' @ join '','' (map quoted entities) @ ''],'' @ quoted ''confidence'' @ '':'' @ number @ ''}''"

definition reads_answers :: "(string \<Rightarrow> projection_dto option) \<Rightarrow> bool" where
  "reads_answers dec \<longleftrightarrow>
     dec (answer_text ''task'' [''rust'', ''auth''] [''refresh-token''] ''0.86'') =
       Some \<lparr>dto_intent = Task, dto_topics = [''rust'', ''auth''], dto_entities = [''refresh-token''], dto_confidence = f64_lit (86 / 100)\<rparr> \<and>
     dec (answer_text ''social'' [] [] ''1.7'') =
       Some \<lparr>dto_intent = Social, dto_topics = [], dto_entities = [], dto_confidence = f64_lit (17 / 10)\<rparr> \<and>
     dec (answer_text ''decision'' [''db''] [] ''0.5'') =
       Some \<lparr>dto_intent = Decision, dto_topics = [''db''], dto_entities = [], dto_confidence = f64_lit (5 / 10)\<rparr> \<and>
     dec ''not json at all'' = None \<and> dec (answer_text ''banana'' [] [] ''0.5'') = None"

definition test_well_formed_response :: "(string \<Rightarrow> projection_dto option) \<Rightarrow> bool" where
  "test_well_formed_response dec =
     (case parse_projection dec (answer_text ''task'' [''rust'', ''auth''] [''refresh-token''] ''0.86'') (MessageId ''m-1'') of
        None \<Rightarrow> False
      | Some p \<Rightarrow> proj_message_id p = MessageId ''m-1'' \<and> proj_intent p = Task \<and>
          proj_topics p = [Topic ''rust'', Topic ''auth''] \<and> proj_entities p = [Entity ''refresh-token''] \<and>
          f64_eq (confidence_get (proj_confidence p)) (f64_lit (86 / 100)))"

definition test_out_of_range_confidence :: "(string \<Rightarrow> projection_dto option) \<Rightarrow> bool" where
  "test_out_of_range_confidence dec =
     (case parse_projection dec (answer_text ''social'' [] [] ''1.7'') (MessageId ''m-1'') of
        None \<Rightarrow> False | Some p \<Rightarrow> f64_eq (confidence_get (proj_confidence p)) (f64_lit 1))"

definition test_malformed_body_panics :: "(string \<Rightarrow> projection_dto option) \<Rightarrow> bool" where
  "test_malformed_body_panics dec = (parse_projection dec ''not json at all'' (MessageId ''m-1'') = None)"

definition test_unknown_intent_panics :: "(string \<Rightarrow> projection_dto option) \<Rightarrow> bool" where
  "test_unknown_intent_panics dec = (parse_projection dec (answer_text ''banana'' [] [] ''0.5'') (MessageId ''m-1'') = None)"

definition test_version_tag_encodes :: bool where
  "test_version_tag_encodes =
     (version_tag ''ollama'' ''llama3.2'' ''v1'' = ''ollama:llama3.2:v1'' \<and>
      version_tag ''ollama'' ''llama3.2'' ''v1'' \<noteq> version_tag ''openai'' ''llama3.2'' ''v1'' \<and>
      version_tag ''ollama'' ''llama3.2'' ''v1'' \<noteq> version_tag ''ollama'' ''mistral'' ''v1'' \<and>
      version_tag ''ollama'' ''llama3.2'' ''v1'' \<noteq> version_tag ''ollama'' ''llama3.2'' ''v2'')"

text \<open>A client that answers a fixed text.\<close>

definition stub_client :: "string \<Rightarrow> 's llm_client" where
  "stub_client answer = \<lparr>lc_complete_json = (\<lambda>s model prompt. (Some answer, s)), lc_provider_tag = ''stub''\<rparr>"

definition test_projector_over_a_stub :: "hash_function \<Rightarrow> (string \<Rightarrow> projection_dto option) \<Rightarrow> bool" where
  "test_projector_over_a_stub hasher dec =
     (let projector = llm_projector_new (stub_client (answer_text ''decision'' [''db''] [] ''0.5'')) ''m'' ''v1'';
          tagged = ''stub:m:v1:'' @ prompt_fingerprint hasher in
      case fst (llm_run dec projector () (fx_llm_message ''anything'')) of
        None \<Rightarrow> False
      | Some p \<Rightarrow> proj_message_id p = MessageId ''m-1'' \<and> proj_intent p = Decision \<and>
          take (length tagged) (cache_version hasher projector) = tagged)"

definition test_fingerprint_is_content_sensitive :: "hash_function \<Rightarrow> bool" where
  "test_fingerprint_is_content_sensitive hasher =
     (prompt_fingerprint hasher = prompt_fingerprint hasher \<and>
      fingerprint hasher ''template A'' \<noteq> fingerprint hasher ''template B'')"

definition test_version_appends_the_fingerprint :: "hash_function \<Rightarrow> bool" where
  "test_version_appends_the_fingerprint hasher =
     (let projector = llm_projector_new (stub_client []) ''m'' ''v1'' :: unit llm_projector;
          v = cache_version hasher projector in
      length (filter (\<lambda>c. c = CHR '':'') v) = 3 \<and>
      drop (length v - length (prompt_fingerprint hasher)) v = prompt_fingerprint hasher)"

definition test_ollama_version_tag :: "hash_function \<Rightarrow> (json \<Rightarrow> string) \<Rightarrow> (string \<Rightarrow> string option) \<Rightarrow> unit post \<Rightarrow> bool" where
  "test_ollama_version_tag hasher render dec_generate post =
     (let projector = llm_projector_new (ollama_with_defaults render dec_generate post) ''m'' ''v2'' in
      take (length ''ollama:m:v2:'') (cache_version hasher projector) = ''ollama:m:v2:'')"

definition test_parses_content :: "(string \<Rightarrow> string list option) \<Rightarrow> string \<Rightarrow> bool" where
  "test_parses_content dec_chat body = (parse_content dec_chat body = Some (''{'' @ quoted ''intent'' @ '':'' @ quoted ''task'' @ ''}''))"

definition test_empty_choices_panics :: "(string \<Rightarrow> string list option) \<Rightarrow> bool" where
  "test_empty_choices_panics dec_chat = (parse_content dec_chat (''{'' @ quoted ''choices'' @ '':[]}'') = None)"

definition test_malformed_envelope_panics :: "(string \<Rightarrow> string list option) \<Rightarrow> bool" where
  "test_malformed_envelope_panics dec_chat = (parse_content dec_chat ''not json'' = None)"

definition test_provider_tag_is_openai :: "(json \<Rightarrow> string) \<Rightarrow> (string \<Rightarrow> string list option) \<Rightarrow> unit post \<Rightarrow> bool" where
  "test_provider_tag_is_openai render dec_chat post =
     (lc_provider_tag (openai_client render dec_chat post openai_default_base_url None) = ''openai'')"

lemma lit_answers: "f64_lit (17 / 10) = FFin False (7656119366529843 / 4503599627370496)"
  by code_simp

lemma answer_tests:
  assumes "reads_answers dec"
  shows "test_well_formed_response dec" "test_out_of_range_confidence dec" "test_malformed_body_panics dec"
    "test_unknown_intent_panics dec" "test_projector_over_a_stub hasher dec"
  using assms
  by (simp_all add: reads_answers_def test_well_formed_response_def test_out_of_range_confidence_def test_malformed_body_panics_def
      test_unknown_intent_panics_def test_projector_over_a_stub_def parse_projection_def llm_run_def llm_projector_new_def
      stub_client_def cache_version_def version_tag_def fx_llm_message_def lit_answers score_simps)

lemma version_tests:
  assumes "hasher (str_bytes ''template A'') \<noteq> hasher (str_bytes ''template B'')"
  shows test_version_tag_encodes "test_fingerprint_is_content_sensitive hasher" "test_version_appends_the_fingerprint hasher"
    "test_ollama_version_tag hasher render dec_generate post" "test_provider_tag_is_openai render dec_chat post"
proof -
  show test_version_tag_encodes by (simp add: test_version_tag_encodes_def version_tag_def)
  show "test_fingerprint_is_content_sensitive hasher"
    using assms by (simp add: test_fingerprint_is_content_sensitive_def fingerprint_def hex16_inj)
  have "filter (\<lambda>c. c = CHR '':'') (prompt_fingerprint hasher) = []"
    using hex16_no_colon by (auto simp: prompt_fingerprint_def fingerprint_def filter_empty_conv)
  then show "test_version_appends_the_fingerprint hasher"
    by (simp add: test_version_appends_the_fingerprint_def cache_version_def version_tag_def llm_projector_new_def stub_client_def)
  show "test_ollama_version_tag hasher render dec_generate post"
    by (simp add: test_ollama_version_tag_def cache_version_def version_tag_def llm_projector_new_def ollama_with_defaults_def
        ollama_client_def)
  show "test_provider_tag_is_openai render dec_chat post"
    by (simp add: test_provider_tag_is_openai_def openai_client_def)
qed

lemma content_tests:
  assumes "dec_chat body = Some [''{'' @ quoted ''intent'' @ '':'' @ quoted ''task'' @ ''}'']"
    and "dec_chat (''{'' @ quoted ''choices'' @ '':[]}'') = Some []" and "dec_chat ''not json'' = None"
  shows "test_parses_content dec_chat body" "test_empty_choices_panics dec_chat" "test_malformed_envelope_panics dec_chat"
  using assms
  by (simp_all add: test_parses_content_def test_empty_choices_panics_def test_malformed_envelope_panics_def parse_content_def)

end
