(* ===== verification/Tests_Cli.thy ===== *)
theory Tests_Cli
  imports Main Prelude F64 Runtime Model MessageLog Stores Skill HintDev Routing Mock ScopeWarmup Derivation Jobs Replay
    Derived Submission Sqlite SqliteLog SqliteCaches Github Llm Commands Cli CliRun Session Verify Opening Tests_Core
    Tests_Storage Tests_Worker Tests_Strategy "HOL-Library.Monad_Syntax"
begin

text \<open>
  The unit tests of the CLI over the model: settings, brokers and the commands. The environment is a
  function, so a test that sets a variable takes an updated one; the parser of numbers and the queue
  library's retention policy are arguments. The tests of the command-line parser and of the JSON
  configuration file are those libraries' and are left out.
\<close>

section \<open>Settings\<close>

definition no_env :: environment where
  "no_env = (\<lambda>_. None)"

text \<open>What the tests rely on of \<open>str::parse\<close>.\<close>

definition parses_numbers :: "(string \<Rightarrow> string + 64 word) \<Rightarrow> bool" where
  "parses_numbers parse \<longleftrightarrow>
     parse ''20'' = Inr 20 \<and> parse ''45'' = Inr 45 \<and> (\<exists>e. parse ''not-a-number'' = Inl e)"

definition test_broker_settings_resolve ::
  "(string \<Rightarrow> string) \<Rightarrow> (string \<Rightarrow> string + 64 word) \<Rightarrow> (string \<Rightarrow> string + 32 word) \<Rightarrow> 'p \<Rightarrow> bool" where
  "test_broker_settings_resolve dbg parse parse32 retention =
     (let key = ''MIRRORLANE_WORKLANE_LEASE_SECS'';
          cfg = worklane_config_default\<lparr>wl_lease_secs := Some 10\<rparr> in
      (case resolve_broker_settings no_env dbg parse parse32 retention None of
         Inl e \<Rightarrow> False
       | Inr s \<Rightarrow> bs_lease s = None \<and> bs_max_deliveries s = Some default_max_deliveries) \<and>
      (case resolve_broker_settings no_env dbg parse parse32 retention (Some cfg) of
         Inl e \<Rightarrow> False | Inr s \<Rightarrow> bs_lease s = Some 10) \<and>
      (case resolve_broker_settings (no_env(key \<mapsto> ''20'')) dbg parse parse32 retention (Some cfg) of
         Inl e \<Rightarrow> False | Inr s \<Rightarrow> bs_lease s = Some 20))"

definition test_handler_timeout_resolves :: "(string \<Rightarrow> string) \<Rightarrow> (string \<Rightarrow> string + 64 word) \<Rightarrow> bool" where
  "test_handler_timeout_resolves dbg parse =
     (let key = ''MIRRORLANE_WORKLANE_HANDLER_TIMEOUT_SECS'';
          cfg = worklane_config_default\<lparr>wl_handler_timeout_secs := Some 30\<rparr> in
      resolve_handler_timeout no_env dbg parse None = Inr default_handler_timeout_secs \<and>
      resolve_handler_timeout no_env dbg parse (Some cfg) = Inr 30 \<and>
      resolve_handler_timeout (no_env(key \<mapsto> ''45'')) dbg parse (Some cfg) = Inr 45)"

definition test_malformed_numeric_is_an_error ::
  "(string \<Rightarrow> string) \<Rightarrow> (string \<Rightarrow> string + 64 word) \<Rightarrow> (string \<Rightarrow> string + 32 word) \<Rightarrow> 'p \<Rightarrow> bool" where
  "test_malformed_numeric_is_an_error dbg parse parse32 retention =
     (case resolve_broker_settings (no_env(''MIRRORLANE_WORKLANE_POOL_SIZE'' \<mapsto> ''not-a-number'')) dbg parse parse32 retention None of
        Inl e \<Rightarrow> True | Inr s \<Rightarrow> False)"

definition test_retention_resolves ::
  "'p \<Rightarrow> (64 word \<Rightarrow> 'p \<Rightarrow> 'p) \<Rightarrow> (64 word \<Rightarrow> 'p \<Rightarrow> 'p) \<Rightarrow> ('p \<Rightarrow> 64 word option) \<Rightarrow> ('p \<Rightarrow> 64 word option) \<Rightarrow> bool" where
  "test_retention_resolves policy_new with_max_count with_max_age max_count max_age =
     ((let (policy, cap) = resolve_retention policy_new with_max_count with_max_age None in
       max_count policy = Some default_dead_letter_max_count \<and> max_age policy = None \<and> cap = default_trace_max_count) \<and>
      (let (policy, cap) = resolve_retention policy_new with_max_count with_max_age
             (Some \<lparr>rt_dead_letter_max_count = Some 5, rt_dead_letter_max_age_secs = Some 3600, rt_trace_max_count = Some 42\<rparr>) in
       max_count policy = Some 5 \<and> max_age policy = Some 3600 \<and> cap = 42))"

definition test_strategy_resolves :: bool where
  "test_strategy_resolves =
     (resolve_strategy (Some ''empty'') (Some ''projection'') = ''empty'' \<and>
      resolve_strategy None (Some ''empty'') = ''empty'' \<and> resolve_strategy None None = default_strategy)"

definition test_resolver_precedence :: bool where
  "test_resolver_precedence =
     (resolve_provider (Some ProviderOllama) (Some ProviderMock) = ProviderOllama \<and>
      resolve_provider None (Some ProviderOllama) = ProviderOllama \<and> resolve_provider None None = ProviderMock \<and>
      resolve_format None None = FormatText \<and> resolve_db None None = ''mirrorlane.db'' \<and>
      resolve_db (Some ''flag.db'') (Some ''cfg.db'') = ''flag.db'' \<and> resolve_db None (Some ''cfg.db'') = ''cfg.db'')"

definition test_resolve_str_precedence :: bool where
  "test_resolve_str_precedence =
     (resolve_str (Some ''flag'') (Some ''cfg'') ''default'' = ''flag'' \<and> resolve_str None (Some ''cfg'') ''default'' = ''cfg'' \<and>
      resolve_str None None ''default'' = ''default'')"

definition test_explicit_missing_config :: "(string \<Rightarrow> string + string) \<Rightarrow> (string \<Rightarrow> string + config) \<Rightarrow> bool" where
  "test_explicit_missing_config read_file from_json =
     (case load_config read_file from_json (Some ''/no/such/mirrorlane-config.json'') of Inl e \<Rightarrow> True | Inr c \<Rightarrow> False)"

lemma settings_tests:
  assumes "parses_numbers parse"
  shows "test_broker_settings_resolve dbg parse parse32 retention" "test_handler_timeout_resolves dbg parse"
    "test_malformed_numeric_is_an_error dbg parse parse32 retention" test_strategy_resolves test_resolver_precedence
    test_resolve_str_precedence
  using assms
  by (auto simp: parses_numbers_def test_broker_settings_resolve_def test_handler_timeout_resolves_def
      test_malformed_numeric_is_an_error_def test_strategy_resolves_def test_resolver_precedence_def test_resolve_str_precedence_def
      resolve_broker_settings_def resolve_handler_timeout_def env_num_or_def no_env_def worklane_config_default_def
      resolve_strategy_def resolve_provider_def resolve_format_def resolve_db_def resolve_str_def or_else_def unwrap_or_def)

lemma retention_test:
  assumes "\<And>n p. max_count (with_max_count n p) = Some n" and "\<And>n p. max_age (with_max_age n p) = Some n"
    and "\<And>n p. max_age (with_max_count n p) = max_age p" and "\<And>n p. max_count (with_max_age n p) = max_count p"
    and "max_age policy_new = None"
  shows "test_retention_resolves policy_new with_max_count with_max_age max_count max_age"
  by (simp add: test_retention_resolves_def resolve_retention_def retention_config_default_def unwrap_or_def assms)

lemma missing_config_test:
  "read_file ''/no/such/mirrorlane-config.json'' = Inl e \<Longrightarrow> test_explicit_missing_config read_file from_json"
  by (simp add: test_explicit_missing_config_def load_config_def)

section \<open>Brokers\<close>

definition fx_broker_settings :: "'p \<Rightarrow> 'p broker_settings" where
  "fx_broker_settings policy =
     \<lparr>bs_retention = policy, bs_schema = None, bs_namespace = None, bs_pool_size = None, bs_lease = None, bs_max_deliveries = None\<rparr>"

definition test_default_sqlite_opens :: "('p, 'b) backends \<Rightarrow> 'p \<Rightarrow> string \<Rightarrow> bool" where
  "test_default_sqlite_opens bk policy db =
     (case broker_connect bk no_env BrokerSqlite db None (fx_broker_settings policy) of Inl e \<Rightarrow> False | Inr b \<Rightarrow> True)"

definition test_sqlite_applies_settings :: "('p, 'b) backends \<Rightarrow> 'p \<Rightarrow> string \<Rightarrow> bool" where
  "test_sqlite_applies_settings bk policy db =
     (case broker_connect bk no_env BrokerSqlite db None
        ((fx_broker_settings policy)\<lparr>bs_lease := Some 45, bs_max_deliveries := Some 7\<rparr>) of Inl e \<Rightarrow> False | Inr b \<Rightarrow> True)"

definition test_url_flag_beats_env :: bool where
  "test_url_flag_beats_env =
     (resolve_url (no_env(''WORKLANE_URL'' \<mapsto> ''from-worklane-url'', ''DATABASE_URL'' \<mapsto> ''from-database-url''))
        (Some ''from-flag'') ''DATABASE_URL'' ''postgres'' = Inr ''from-flag'')"

definition test_worklane_url_beats_backend_var :: bool where
  "test_worklane_url_beats_backend_var =
     (resolve_url (no_env(''WORKLANE_URL'' \<mapsto> ''from-worklane-url'', ''DATABASE_URL'' \<mapsto> ''from-database-url''))
        None ''DATABASE_URL'' ''postgres'' = Inr ''from-worklane-url'')"

definition test_backend_var_is_the_last_fallback :: bool where
  "test_backend_var_is_the_last_fallback =
     (resolve_url (no_env(''REDIS_URL'' \<mapsto> ''from-redis-url'')) None ''REDIS_URL'' ''redis'' = Inr ''from-redis-url'')"

definition test_networked_broker_needs_a_url :: bool where
  "test_networked_broker_needs_a_url =
     (case resolve_url no_env None ''DATABASE_URL'' ''postgres'' of Inl e \<Rightarrow> True | Inr url \<Rightarrow> False)"

lemma url_tests:
  test_url_flag_beats_env test_worklane_url_beats_backend_var test_backend_var_is_the_last_fallback test_networked_broker_needs_a_url
  by (simp_all add: test_url_flag_beats_env_def test_worklane_url_beats_backend_var_def test_backend_var_is_the_last_fallback_def
      test_networked_broker_needs_a_url_def resolve_url_def no_env_def)

lemma sqlite_broker_tests:
  assumes "bk_sqlite_open bk db = Inr b"
  shows "test_default_sqlite_opens bk policy db" "test_sqlite_applies_settings bk policy db"
  using assms by (simp_all add: test_default_sqlite_opens_def test_sqlite_applies_settings_def broker_connect_def)

end
