(* ===== verification/Tests_Commands.thy ===== *)
theory Tests_Commands
  imports Main Prelude F64 Runtime Model MessageLog Stores Skill HintDev Routing Mock ScopeWarmup Derivation Jobs Replay
    Derived Submission Sqlite SqliteLog SqliteCaches Github Llm Commands Cli CliRun Session Verify Opening Tests_Core
    Tests_Storage Tests_Worker Tests_Strategy Tests_Edges "HOL-Library.Monad_Syntax"
begin

text \<open>
  The unit tests of the CLI's commands over the model: the log in memory, the derived cache a table of
  an in-memory database, as in the source. The JSON of messages and derivations is an argument; what
  a test relies on of it is a hypothesis about the values of that test.
\<close>

section \<open>Fixtures\<close>

definition built_strategy :: "'s externals \<Rightarrow> string \<Rightarrow> (sqlite_db \<times> 's) replay_strategy option" where
  "built_strategy ex i =
     (case build_strategy ex ProviderMock llm_settings_default i db_empty of
        Inl e \<Rightarrow> None | Inr (strategy, db) \<Rightarrow> Some strategy)"

definition fx_cache :: "sqlite_db option" where
  "fx_cache = opened (derived_cache_init db_empty)"

definition fx_version :: "'s externals \<Rightarrow> step_version option" where
  "fx_version ex =
     map_option fst (derivation_version_for ex default_strategy ProviderMock llm_settings_default db_empty)"

definition message_json :: "string \<times> string \<times> string \<Rightarrow> string" where
  "message_json = (\<lambda>(i, conversation, body).
     ''{'' @ quoted ''id'' @ '':'' @ quoted i @ '','' @ quoted ''source'' @ '':'' @ quoted ''discord'' @ '','' @
     quoted ''author'' @ '':{'' @ quoted ''id'' @ '':'' @ quoted ''u-1'' @ '','' @ quoted ''display_name'' @ '':'' @ quoted ''Dev'' @
     ''},'' @ quoted ''conversation'' @ '':{'' @ quoted ''id'' @ '':'' @ quoted conversation @ '','' @ quoted ''thread'' @
     '':null},'' @ quoted ''body'' @ '':'' @ quoted body @ ''}'')"

definition json_message :: "string \<times> string \<times> string \<Rightarrow> message_envelope" where
  "json_message = (\<lambda>(i, conversation, body).
     \<lparr>env_id = MessageId i, env_source = Discord, env_author = \<lparr>au_id = AuthorId ''u-1'', au_display_name = ''Dev''\<rparr>,
      env_conversation = \<lparr>conv_id = ConversationId conversation, conv_thread = None\<rparr>, env_body = body\<rparr>)"

definition reads_messages :: "(string \<Rightarrow> 'e + message_envelope) \<Rightarrow> (string \<times> string \<times> string) list \<Rightarrow> bool" where
  "reads_messages dec ms \<longleftrightarrow> (\<forall>m\<in>set ms. dec (message_json m) = Inr (json_message m))"

definition ingested ::
  "(string \<Rightarrow> 'e + message_envelope) \<Rightarrow> (string \<times> string \<times> string) list \<Rightarrow> mem_log \<Rightarrow> mem_log option" where
  "ingested dec ms store =
     fold (\<lambda>m s. Option.bind s (\<lambda>store. case ingest dec mem_log_append (message_json m) store of
       (Inl e, s') \<Rightarrow> None | (Inr i, s') \<Rightarrow> Some s')) ms (Some store)"

abbreviation table_get :: "'s externals \<Rightarrow> sqlite_db derived_get_fun" where
  "table_get ex \<equiv> \<lambda>db v c x. the (sqlite_derived_get (ex_dec_derivation ex) db v c x)"

abbreviation table_put :: "'s externals \<Rightarrow> sqlite_db derived_put_fun" where
  "table_put ex \<equiv> \<lambda>db v c x d. the (sqlite_derived_put (ex_enc_derivation ex) db v c x d)"

lemma ingested_eq:
  assumes "reads_messages dec ms"
  shows "ingested dec ms store = Some (fold mem_log_append (map json_message ms) store)"
  using assms by (induction ms arbitrary: store) (simp_all add: ingested_def reads_messages_def ingest_def)

section \<open>Routers and ingestion\<close>

definition fx_issue_projection :: projection where
  "fx_issue_projection =
     \<lparr>proj_message_id = MessageId ''m-1'', proj_intent = Issue, proj_topics = [], proj_entities = [],
      proj_confidence = confidence_new (f64_lit (9 / 10))\<rparr>"

definition test_build_router_honors_config :: bool where
  "test_build_router_honors_config =
     (let configured = build_router (Some \<lparr>rc_rules = [\<lparr>rule_intent = Issue, rule_target = Agent\<rparr>],
            rc_escalation_threshold = None, rc_default_target = None\<rparr>) in
      dec_target (fst (router_route configured fx_issue_projection)) = Agent \<and>
      dec_target (fst (router_route (build_router None) fx_issue_projection)) = ConsumerGitHub)"

definition test_ingest_appends_and_dedups :: "(string \<Rightarrow> 'e + message_envelope) \<Rightarrow> bool" where
  "test_ingest_appends_and_dedups dec =
     (let (result, store) = ingest dec mem_log_append (message_json (''m-1'', ''c-1'', ''auth sdk'')) mem_log_new;
          (again, store') = ingest dec mem_log_append (message_json (''m-1'', ''c-1'', ''auth sdk again'')) store in
      (case result of Inl e \<Rightarrow> False | Inr i \<Rightarrow> message_id_str i = ''m-1'') \<and>
      (case again of Inl e \<Rightarrow> False | Inr i \<Rightarrow> True) \<and> mem_log_len store' = 1)"

definition test_ingest_rejects_invalid_json :: "(string \<Rightarrow> 'e + message_envelope) \<Rightarrow> bool" where
  "test_ingest_rejects_invalid_json dec =
     (case fst (ingest dec mem_log_append ''not json'' mem_log_new) of Inl e \<Rightarrow> True | Inr i \<Rightarrow> False)"

lemma router_test: test_build_router_honors_config
  by (simp add: test_build_router_honors_config_def build_router_def fx_issue_projection_def test_simps)

lemma ingest_tests:
  assumes "reads_messages dec [(''m-1'', ''c-1'', ''auth sdk''), (''m-1'', ''c-1'', ''auth sdk again'')]" and "dec ''not json'' = Inl e"
  shows "test_ingest_appends_and_dedups dec" "test_ingest_rejects_invalid_json dec"
  using assms by (simp_all add: test_ingest_appends_and_dedups_def test_ingest_rejects_invalid_json_def reads_messages_def ingest_def
      json_message_def mem_log_ops)

section \<open>GitHub\<close>

definition test_parse_repo_accepts :: "(string \<Rightarrow> string) \<Rightarrow> bool" where
  "test_parse_repo_accepts dbg = (parse_repo dbg ''acme/widgets'' = Inr (repo_new ''acme'' ''widgets''))"

definition test_parse_repo_rejects :: "(string \<Rightarrow> string) \<Rightarrow> bool" where
  "test_parse_repo_rejects dbg =
     list_all (\<lambda>spec. case parse_repo dbg spec of Inl e \<Rightarrow> True | Inr r \<Rightarrow> False) [''widgets'', ''acme/'', ''/widgets'', ''a/b/c'']"

definition test_cli_ingest_per_item :: bool where
  "test_cli_ingest_per_item =
     (let source = fixture_source [fx_item ''1'' 1, fx_item ''2'' 2];
          (ids, store) = ingest_repo mem_log_append source (repo_new ''acme'' ''widgets'') mem_log_new in
      map_option length ids = Some 2 \<and> mem_log_len store = 2)"

definition test_cli_ingest_is_idempotent :: bool where
  "test_cli_ingest_is_idempotent =
     (let source = fixture_source [fx_item ''1'' 1, fx_item ''2'' 2]; r = repo_new ''acme'' ''widgets'';
          (ids, store) = ingest_repo mem_log_append source r mem_log_new;
          (ids', store') = ingest_repo mem_log_append source r store in
      mem_log_len store' = 2)"

definition fx_closed_port :: "http_request \<Rightarrow> http_reply" where
  "fx_closed_port request = ReplyTransport ''Connection refused''"

definition test_rest_rejects_invalid_repo ::
  "(string \<Rightarrow> string) \<Rightarrow> (string \<Rightarrow> string + issue_dto list) \<Rightarrow> (string \<Rightarrow> string + comment_dto list) \<Rightarrow> bool" where
  "test_rest_rejects_invalid_repo dbg dec_issues dec_comments =
     (let (result, store) = github_ingest_rest dbg fx_closed_port dec_issues dec_comments mem_log_append
            (fst (rest_source_new ''http://127.0.0.1:1'' None)) ''bogus'' mem_log_new in
      (case result of Inl e \<Rightarrow> True | Inr ids \<Rightarrow> False) \<and> mem_log_len store = 0)"

definition test_rest_surfaces_a_fetch_failure ::
  "(string \<Rightarrow> string) \<Rightarrow> (string \<Rightarrow> string + issue_dto list) \<Rightarrow> (string \<Rightarrow> string + comment_dto list) \<Rightarrow> bool" where
  "test_rest_surfaces_a_fetch_failure dbg dec_issues dec_comments =
     (let (result, store) = github_ingest_rest dbg fx_closed_port dec_issues dec_comments mem_log_append
            (fst (rest_source_new ''http://127.0.0.1:1'' None)) ''acme/widgets'' mem_log_new in
      (case result of Inl e \<Rightarrow> True | Inr ids \<Rightarrow> False) \<and> mem_log_len store = 0)"

lemma github_command_tests:
  "test_parse_repo_accepts dbg" "test_parse_repo_rejects dbg" test_cli_ingest_per_item test_cli_ingest_is_idempotent
  "test_rest_rejects_invalid_repo dbg dec_issues dec_comments" "test_rest_surfaces_a_fetch_failure dbg dec_issues dec_comments"
  by (simp_all add: test_parse_repo_accepts_def test_parse_repo_rejects_def test_cli_ingest_per_item_def
      test_cli_ingest_is_idempotent_def test_rest_rejects_invalid_repo_def test_rest_surfaces_a_fetch_failure_def parse_repo_def
      github_ingest_rest_def try_fetch_def rest_get_def fx_closed_port_def test_simps)

section \<open>Replay and warm-up\<close>

text \<open>The commands of the tests: one strategy, one version, the default router.\<close>

definition fx_warmup ::
  "unit externals \<Rightarrow> (nat \<Rightarrow> deliveries) \<Rightarrow> (sqlite_db \<times> unit) replay_strategy \<Rightarrow> step_version \<Rightarrow> mem_log \<Rightarrow> string \<Rightarrow>
   sqlite_db \<Rightarrow> warmup_output \<times> sqlite_db" where
  "fx_warmup ex d strategy v store c cache =
     (let (out, (cache', s)) = warmup_command (table_get ex) (table_put ex) sqlite_derived_reclaim (ex_hasher ex) strategy d v
            router_new (mem_log_all store) (ConversationId c) (cache, (db_empty, ())) in
      (out, cache'))"

definition fx_replay_command ::
  "unit externals \<Rightarrow> (nat \<Rightarrow> deliveries) \<Rightarrow> (sqlite_db \<times> unit) replay_strategy \<Rightarrow> step_version \<Rightarrow> mem_log \<Rightarrow>
   sqlite_db \<Rightarrow> replay_output \<times> sqlite_db" where
  "fx_replay_command ex d strategy v store cache =
     (let (out, (cache', s)) = replay_command (table_put ex) sqlite_derived_reclaim (ex_hasher ex) strategy d v
            router_new (mem_log_all store) (cache, (db_empty, ())) in
      (out, cache'))"

definition fx_verify ::
  "unit externals \<Rightarrow> (nat \<Rightarrow> deliveries) \<Rightarrow> (sqlite_db \<times> unit) replay_strategy \<Rightarrow> step_version \<Rightarrow> mem_log \<Rightarrow>
   sqlite_db \<Rightarrow> verify_record list" where
  "fx_verify ex d strategy v store cache =
     fst (verify_command (table_get ex) (ex_hasher ex) strategy d v (mem_log_all store) (cache, (db_empty, ())))"

definition fx_decided :: "string \<times> string \<times> string" where
  "fx_decided = (''m-1'', ''c-1'', ''We will use sqlite for the auth sdk.'')"

definition test_warmup_for_known_conversation ::
  "unit externals \<Rightarrow> (string \<Rightarrow> 'e + message_envelope) \<Rightarrow> (nat \<Rightarrow> deliveries) \<Rightarrow> bool" where
  "test_warmup_for_known_conversation ex dec d =
     (do {
        store \<leftarrow> ingested dec [fx_decided] mem_log_new;
        cache \<leftarrow> fx_cache;
        v \<leftarrow> fx_version ex;
        strategy \<leftarrow> built_strategy ex default_strategy;
        (out, cache) \<leftarrow> Some (fx_warmup ex d strategy v store ''c-1'' cache);
        context \<leftarrow> wo_context out;
        (out, cache) \<leftarrow> Some (fx_warmup ex d strategy v store ''c-x'' cache);
        Some (sx_conversation context = ConversationId ''c-1'' \<and> wu_conversation (sx_warmup context) = ConversationId ''c-1'' \<and>
          sx_schema context = session_context_schema \<and> sx_derivation_version context = version_str v \<and>
          sx_hints context \<noteq> [] \<and> sx_decisions context \<noteq> [] \<and> wo_context out = None)
      } = Some True)"

definition test_verify_outcomes ::
  "unit externals \<Rightarrow> (string \<Rightarrow> 'e + message_envelope) \<Rightarrow> (nat \<Rightarrow> deliveries) \<Rightarrow> bool" where
  "test_verify_outcomes ex dec d =
     (do {
        store \<leftarrow> ingested dec [fx_decided] mem_log_new;
        durable \<leftarrow> fx_cache;
        v \<leftarrow> fx_version ex;
        strategy \<leftarrow> built_strategy ex default_strategy;
        before \<leftarrow> Some (fx_verify ex d strategy v store durable);
        (out, durable) \<leftarrow> Some (fx_replay_command ex d strategy v store durable);
        after \<leftarrow> Some (fx_verify ex d strategy v store durable);
        conversation \<leftarrow> Some (ConversationId ''c-1'');
        content \<leftarrow> Some (content_hash_of (ex_hasher ex) (mem_log_messages_for store conversation));
        tampered \<leftarrow> table_get ex durable v conversation content;
        durable \<leftarrow> sqlite_derived_put (ex_enc_derivation ex) durable v conversation content (tampered\<lparr>cd_projections := [], cd_hints := []\<rparr>);
        tampered_with \<leftarrow> Some (fx_verify ex d strategy v store durable);
        Some (before \<noteq> [] \<and> (\<forall>r\<in>set before. vr_outcome r = ''not_cached'') \<and> (\<forall>r\<in>set after. vr_outcome r = ''verified'') \<and>
          (\<exists>r\<in>set tampered_with. vr_outcome r = ''diverged''))
      } = Some True)"

definition test_replay_one_context_per_conversation ::
  "unit externals \<Rightarrow> (string \<Rightarrow> 'e + message_envelope) \<Rightarrow> (nat \<Rightarrow> deliveries) \<Rightarrow> bool" where
  "test_replay_one_context_per_conversation ex dec d =
     (do {
        store \<leftarrow> ingested dec [(''m-1'', ''c-1'', ''auth sdk''), (''m-2'', ''c-2'', ''infra ci'')] mem_log_new;
        cache \<leftarrow> fx_cache;
        v \<leftarrow> fx_version ex;
        strategy \<leftarrow> built_strategy ex default_strategy;
        Some (length (ro_contexts (fst (fx_replay_command ex d strategy v store cache))) = 2)
      } = Some True)"

definition test_selecting_empty_replays_nothing ::
  "unit externals \<Rightarrow> (string \<Rightarrow> 'e + message_envelope) \<Rightarrow> (nat \<Rightarrow> deliveries) \<Rightarrow> bool" where
  "test_selecting_empty_replays_nothing ex dec d =
     (do {
        store \<leftarrow> ingested dec [(''m-1'', ''c-1'', ''auth sdk'')] mem_log_new;
        cache \<leftarrow> fx_cache;
        v \<leftarrow> fx_version ex;
        strategy \<leftarrow> built_strategy ex ''empty'';
        Some (ro_contexts (fst (fx_replay_command ex d strategy v store cache)) = [])
      } = Some True)"

definition test_unknown_strategy_id :: "unit externals \<Rightarrow> bool" where
  "test_unknown_strategy_id ex =
     (case build_strategy ex ProviderMock llm_settings_default ''nope'' db_empty of Inl e \<Rightarrow> True | Inr strategy \<Rightarrow> False)"

definition test_populated_conversation_reads_from_cache ::
  "unit externals \<Rightarrow> (string \<Rightarrow> 'e + message_envelope) \<Rightarrow> (nat \<Rightarrow> deliveries) \<Rightarrow> bool" where
  "test_populated_conversation_reads_from_cache ex dec d =
     (do {
        store \<leftarrow> ingested dec [fx_decided] mem_log_new;
        cache \<leftarrow> fx_cache;
        v \<leftarrow> fx_version ex;
        projection \<leftarrow> built_strategy ex default_strategy;
        empty \<leftarrow> built_strategy ex ''empty'';
        (out, cache) \<leftarrow> Some (fx_replay_command ex d projection v store cache);
        context \<leftarrow> wo_context (fst (fx_warmup ex d empty v store ''c-1'' cache));
        Some (sx_hints context \<noteq> [])
      } = Some True)"

definition test_changed_conversation_misses ::
  "unit externals \<Rightarrow> (string \<Rightarrow> 'e + message_envelope) \<Rightarrow> (nat \<Rightarrow> deliveries) \<Rightarrow> bool" where
  "test_changed_conversation_misses ex dec d =
     (do {
        store \<leftarrow> ingested dec [fx_decided] mem_log_new;
        cache \<leftarrow> fx_cache;
        v \<leftarrow> fx_version ex;
        projection \<leftarrow> built_strategy ex default_strategy;
        empty \<leftarrow> built_strategy ex ''empty'';
        (out, cache) \<leftarrow> Some (fx_replay_command ex d projection v store cache);
        store \<leftarrow> ingested dec [(''m-2'', ''c-1'', ''another note'')] store;
        Some (wo_context (fst (fx_warmup ex d empty v store ''c-1'' cache)) = None)
      } = Some True)"

definition test_github_targeted_message_drafts ::
  "unit externals \<Rightarrow> (string \<Rightarrow> 'e + message_envelope) \<Rightarrow> (nat \<Rightarrow> deliveries) \<Rightarrow> bool" where
  "test_github_targeted_message_drafts ex dec d =
     (do {
        store \<leftarrow> ingested dec [(''m-1'', ''c-1'', ''The auth sdk login is broken''), (''m-2'', ''c-1'', ''thanks everyone'')] mem_log_new;
        cache \<leftarrow> fx_cache;
        v \<leftarrow> fx_version ex;
        strategy \<leftarrow> built_strategy ex default_strategy;
        context \<leftarrow> wo_context (fst (fx_warmup ex d strategy v store ''c-1'' cache));
        Some (length (sx_drafts context) = 1 \<and> gd_message_id (sx_drafts context ! 0) = MessageId ''m-1'')
      } = Some True)"

text \<open>What the tests assume of the surroundings: ASCII lower-casing, and derivations that can be read back.\<close>

definition workbench :: "unit externals \<Rightarrow> message_envelope list \<Rightarrow> bool" where
  "workbench ex ms \<longleftrightarrow> ex_lower ex = ascii_lower \<and>
     (\<forall>c x. derivation_for ms (mock_stores ascii_lower ms) c = Some x \<longrightarrow>
        ex_dec_derivation ex (ex_enc_derivation ex x) = Some x)"

lemma fx_version_eq: "fx_version ex = Some (derivation_version ''projection'' (StepVersion ''mock:v1''))"
  by (simp add: fx_version_def derivation_version_mock default_strategy_def)

lemma built_projection:
  "ex_lower ex = ascii_lower \<Longrightarrow>
    built_strategy ex default_strategy = Some (replay_run (reference_context ascii_lower (mock_step ascii_lower)))"
  by (simp add: built_strategy_def default_strategy_def build_strategy_mock)

lemma built_empty: "built_strategy ex ''empty'' = Some empty_strategy"
  by (simp add: built_strategy_def build_strategy_def strategy_context_mock strategy_build_builtins)

definition fresh_table :: sqlite_db where
  "fresh_table = db_empty\<lparr>db_user_version := 1, db_derived := Some []\<rparr>"

lemma fresh_table_facts:
  "fx_cache = Some fresh_table" "sqlite_derived_ok dec fresh_table" "sqlite_derived_get dec fresh_table v c x = Some None"
  by (simp_all add: fx_cache_def opened_fresh fresh_table_def sqlite_derived_ok_def sqlite_derived_get_def)

lemma map_filter_all: "(\<And>x. x \<in> set xs \<Longrightarrow> f x = Some (g x)) \<Longrightarrow> List.map_filter f xs = map g xs"
  by (induction xs) (simp_all add: List.map_filter_simps)

lemma session_derivation:
  assumes "c \<in> set (conversations ms)" and "log_wf ms"
  obtains x where "derivation_for ms (mock_stores ascii_lower ms) c = Some x" and "cd_conversation x = c"
    and "wu_conversation (cd_warmup x) = c" and "cd_hints x \<noteq> []"
    and "cd_projections x = map (mock_run ascii_lower) (default_messages_for ms c)"
proof -
  let ?st = "mock_stores ascii_lower ms" and ?msgs = "default_messages_for ms c"
  obtain x where x: "derivation_for ms ?st c = Some x" using mock_stores_derivation [OF assms(1)] by blast
  have c: "c \<in> conversation_of ` set ms"
    using assms(1) by (simp add: conversations_eq set_default_conversation_ids)
  have msgs: "?msgs \<noteq> []" "set ?msgs \<subseteq> set ms"
    using c by (auto simp: default_messages_for_def filter_empty_conv)
  have P: "rs_projections ?st (env_id m) = Some (mock_run ascii_lower m)" if "m \<in> set ms" for m
  proof -
    have "map_of (map (\<lambda>m. (env_id m, mock_run ascii_lower m)) ms) (env_id m) = Some (mock_run ascii_lower m)"
      using that assms(2) by (intro map_of_is_SomeI) (force simp: log_wf_def comp_def)+
    then show ?thesis by (simp add: mock_stores_def phases_spec_def Let_def projections_of_map [OF assms(2)])
  qed
  have hints: "\<exists>h. rs_hints ?st (env_id m) = Some h" if "m \<in> set ms" for m
    using that mock_accounts(2) [OF assms(2), of ascii_lower] by blast
  obtain w where w: "rs_warmups ?st c = Some w" "wu_conversation w = c"
    using c by (simp add: mock_stores_def phases_spec_def Let_def table_apply set_default_conversation_ids reference_context_def
        warmup_build_fields)
  note d = x [unfolded derivation_for_eq derivation_from_messages_def warmup_store_get_def w(1) option.case option.inject,
    symmetric]
  have "cd_projections x = map (mock_run ascii_lower) ?msgs"
    unfolding d using P msgs(2) by (auto simp: projection_store_get_def intro!: map_filter_all)
  moreover have "cd_hints x \<noteq> []"
  proof -
    obtain m ms' where m: "?msgs = m # ms'" using msgs(1) by (cases ?msgs) auto
    then obtain h where "rs_hints ?st (env_id m) = Some h" using hints msgs(2) by force
    then show ?thesis unfolding d by (simp add: m List.map_filter_simps routing_hint_store_get_def)
  qed
  ultimately show thesis using that [OF x] w(2) by (simp add: d)
qed

text \<open>The three commands with the reference strategy, on a well-formed log.\<close>

lemma fx_replay_command_eq:
  assumes "workbench ex (mem_log_all l)" and "\<forall>k. at_least_once (d k)" and "log_wf (mem_log_all l)"
  shows "fx_replay_command ex d (replay_run (reference_context ascii_lower (mock_step ascii_lower))) v l cache =
    (\<lparr>ro_contexts = map (\<lambda>x. session_context_from x (version_str v) router_new)
        (List.map_filter (derivation_for (mem_log_all l) (mock_stores ascii_lower (mem_log_all l))) (conversations (mem_log_all l))),
      ro_unprojected = unprojected (mock_stores ascii_lower (mem_log_all l)) (map env_id (mem_log_all l))\<rparr>,
     snd (populate_cache (table_put ex) sqlite_derived_reclaim (ex_hasher ex) (mem_log_all l)
       (mock_stores ascii_lower (mem_log_all l)) cache v))"
  by (simp add: fx_replay_command_def replay_command_def mock_replay [OF assms(2,3)] case_prod_unfold Let_def populate_returns)

lemma fx_warmup_miss:
  assumes "\<forall>k. at_least_once (d k)" and "log_wf (mem_log_all l)"
    and "table_get ex cache v (ConversationId c) (content_hash_of (ex_hasher ex) (default_messages_for (mem_log_all l) (ConversationId c))) = None"
  shows "wo_context (fst (fx_warmup ex d (replay_run (reference_context ascii_lower (mock_step ascii_lower))) v l c cache)) =
    map_option (\<lambda>x. session_context_from x (version_str v) router_new)
      (derivation_for (mem_log_all l) (mock_stores ascii_lower (mem_log_all l)) (ConversationId c))"
    and "snd (fx_warmup ex d (replay_run (reference_context ascii_lower (mock_step ascii_lower))) v l c cache) =
      snd (populate_cache (table_put ex) sqlite_derived_reclaim (ex_hasher ex) (mem_log_all l)
        (mock_stores ascii_lower (mem_log_all l)) cache v)"
  by (simp_all add: fx_warmup_def warmup_command_def assms(3) mock_replay [OF assms(1,2)] case_prod_unfold Let_def)

section \<open>The tests pass\<close>

definition decided_log :: "message_envelope list" where
  "decided_log = [json_message fx_decided]"

lemma decided_log_facts:
  "log_wf decided_log" "default_messages_for decided_log (ConversationId ''c-1'') = decided_log"
  "conversations decided_log = [ConversationId ''c-1'']"
  "default_messages_for decided_log (ConversationId ''c-x'') = []" "length decided_log \<le> 2 ^ 53"
  by (simp_all add: decided_log_def fx_decided_def json_message_def log_wf_def default_messages_for_def conversations_eq
      default_conversation_ids_def conversation_of_def)

lemma decided_ingested:
  "reads_messages dec [fx_decided] \<Longrightarrow> ingested dec [fx_decided] mem_log_new = Some (fold mem_log_append decided_log mem_log_new)"
  "mem_log_all (fold mem_log_append decided_log mem_log_new) = decided_log"
  by (simp_all add: ingested_eq decided_log_def mem_log_ops)

lemma no_derivation: "c \<notin> set (conversations ms) \<Longrightarrow> derivation_for ms (mock_stores lc ms) c = None"
  by (simp add: derivation_for_def mock_stores_def phases_spec_def Let_def table_apply conversations_eq warmup_store_get_def)

lemma warmup_command_test:
  assumes "workbench ex decided_log" and "reads_messages dec [fx_decided]" and "\<forall>k. at_least_once (d k)"
  shows "test_warmup_for_known_conversation ex dec d"
proof -
  let ?l = "fold mem_log_append decided_log mem_log_new" and ?v = "derivation_version ''projection'' (StepVersion ''mock:v1'')"
  let ?strategy = "replay_run (reference_context ascii_lower (mock_step ascii_lower)) :: (sqlite_db \<times> unit) replay_strategy"
  have lower: "ex_lower ex = ascii_lower" using assms(1) by (simp add: workbench_def)
  obtain x where x: "derivation_for decided_log (mock_stores ascii_lower decided_log) (ConversationId ''c-1'') = Some x"
    "cd_conversation x = ConversationId ''c-1''" "wu_conversation (cd_warmup x) = ConversationId ''c-1''" "cd_hints x \<noteq> []"
    "cd_projections x = map (mock_run ascii_lower) decided_log"
    using session_derivation [of "ConversationId ''c-1''" decided_log] decided_log_facts by auto
  have first: "wo_context (fst (fx_warmup ex d ?strategy ?v ?l ''c-1'' fresh_table)) =
      Some (session_context_from x (version_str ?v) router_new)"
    using fx_warmup_miss(1) [OF assms(3), of ?l ex fresh_table ?v "''c-1''"] x(1)
    by (simp add: decided_ingested(2) decided_log_facts(1) fresh_table_facts(3))
  have storable: "\<forall>c x. derivation_for decided_log (mock_stores ascii_lower decided_log) c = Some x \<longrightarrow>
      ex_dec_derivation ex (ex_enc_derivation ex x) = Some x"
    using assms(1) by (simp add: workbench_def)
  have miss: "table_get ex (snd (fx_warmup ex d ?strategy ?v ?l ''c-1'' fresh_table)) ?v (ConversationId ''c-x'') content = None" for content
    using fx_warmup_miss(2) [OF assms(3), of ?l ex fresh_table ?v "''c-1''"]
      sqlite_derived.populate_other [OF fresh_table_facts(2) storable, of "ConversationId ''c-x''" "ex_hasher ex" ?v ?v content]
    by (simp add: decided_ingested(2) decided_log_facts fresh_table_facts(3))
  have second: "wo_context (fst (fx_warmup ex d ?strategy ?v ?l ''c-x'' (snd (fx_warmup ex d ?strategy ?v ?l ''c-1'' fresh_table)))) = None"
    using fx_warmup_miss(1) [OF assms(3), of ?l ex _ ?v "''c-x''"] miss no_derivation [of "ConversationId ''c-x''" decided_log]
    by (simp add: decided_ingested(2) decided_log_facts)
  show ?thesis
    using first second x
    by (simp add: test_warmup_for_known_conversation_def decided_ingested(1) [OF assms(2)] fresh_table_facts(1) fx_version_eq
        built_projection [OF lower] case_prod_unfold session_context_decisions)
      (simp add: session_context_from_def Let_def case_prod_unfold decided_log_def)
qed

text \<open>One context per conversation, none for the strategy that derives nothing.\<close>

definition two_sessions :: "(string \<times> string \<times> string) list" where
  "two_sessions = [(''m-1'', ''c-1'', ''auth sdk''), (''m-2'', ''c-2'', ''infra ci'')]"

lemma two_sessions_facts:
  "mem_log_all (fold mem_log_append (map json_message two_sessions) mem_log_new) = map json_message two_sessions"
  "log_wf (map json_message two_sessions)"
  "conversations (map json_message two_sessions) = [ConversationId ''c-1'', ConversationId ''c-2'']"
  by (simp_all add: two_sessions_def json_message_def mem_log_ops log_wf_def conversations_eq default_conversation_ids_def
      conversation_of_def)

lemma replay_command_tests:
  assumes "workbench ex (map json_message two_sessions)" and "reads_messages dec two_sessions" and "\<forall>k. at_least_once (d k)"
  shows "test_replay_one_context_per_conversation ex dec d" "test_selecting_empty_replays_nothing ex dec d" "test_unknown_strategy_id ex"
proof -
  have lower: "ex_lower ex = ascii_lower" using assms(1) by (simp add: workbench_def)
  let ?ms = "map json_message two_sessions"
  have "ConversationId ''c-1'' \<in> set (conversations ?ms)" "ConversationId ''c-2'' \<in> set (conversations ?ms)"
    unfolding two_sessions_facts by simp_all
  then obtain x y where xy: "derivation_for ?ms (mock_stores ascii_lower ?ms) (ConversationId ''c-1'') = Some x"
    "derivation_for ?ms (mock_stores ascii_lower ?ms) (ConversationId ''c-2'') = Some y"
    using session_derivation [OF _ two_sessions_facts(2)] by metis
  have "length (ro_contexts (fst (fx_replay_command ex d (replay_run (reference_context ascii_lower (mock_step ascii_lower))) v
      (fold mem_log_append ?ms mem_log_new) cache))) = 2" for v cache
    by (subst fx_replay_command_eq [OF _ assms(3)])
      (simp_all only: two_sessions_facts assms(1), simp add: List.map_filter_simps xy)
  then show "test_replay_one_context_per_conversation ex dec d"
    unfolding test_replay_one_context_per_conversation_def two_sessions_def [symmetric]
    by (simp add: ingested_eq [OF assms(2)] fresh_table_facts(1) fx_version_eq built_projection [OF lower])
  have "reads_messages dec [(''m-1'', ''c-1'', ''auth sdk'')]" using assms(2) by (simp add: reads_messages_def two_sessions_def)
  then show "test_selecting_empty_replays_nothing ex dec d"
    by (simp add: test_selecting_empty_replays_nothing_def ingested_eq fresh_table_facts(1) fx_version_eq built_empty
        fx_replay_command_def replay_command_def empty_strategy_def case_prod_unfold Let_def populate_returns)
      (auto simp: List.map_filter_def filter_empty_conv derivation_for_def empty_stores_def warmup_store_get_def store_new_def)
  show "test_unknown_strategy_id ex"
    by (simp add: test_unknown_strategy_id_def build_strategy_def strategy_context_mock strategy_build_builtins)
qed

section \<open>Verification and cached reads\<close>

text \<open>One session: what verification finds depends on the entry under its hash.\<close>

lemma decided_session:
  obtains x where "derivation_for decided_log (mock_stores ascii_lower decided_log) (ConversationId ''c-1'') = Some x"
    and "cd_conversation x = ConversationId ''c-1''" and "cd_hints x \<noteq> []" and "cd_projections x \<noteq> []" and "derivation_eq x x"
proof -
  have c: "ConversationId ''c-1'' \<in> set (conversations decided_log)" by (simp add: decided_log_facts)
  obtain x where x: "derivation_for decided_log (mock_stores ascii_lower decided_log) (ConversationId ''c-1'') = Some x"
    "cd_conversation x = ConversationId ''c-1''" "cd_hints x \<noteq> []"
    "cd_projections x = map (mock_run ascii_lower) (default_messages_for decided_log (ConversationId ''c-1''))"
    using session_derivation [OF c decided_log_facts(1)] by metis
  have "cd_projections x \<noteq> []" unfolding x(4) decided_log_facts(2) by (simp add: decided_log_def)
  with x(1-3) mock_derivation_eq [OF decided_log_facts(1,5) x(1)] that show thesis by blast
qed

lemma decided_verify:
  assumes "derivation_for decided_log (mock_stores ascii_lower decided_log) (ConversationId ''c-1'') = Some x"
    and "\<forall>k. at_least_once (d k)" and "cd_conversation x = ConversationId ''c-1''" and "mem_log_all l = decided_log"
  shows "fx_verify ex d (replay_run (reference_context ascii_lower (mock_step ascii_lower))) v l cache =
    [\<lparr>vr_conversation = ConversationId ''c-1'', vr_outcome =
      (case table_get ex cache v (ConversationId ''c-1'') (content_hash_of (ex_hasher ex) decided_log) of
         None \<Rightarrow> ''not_cached'' | Some stored \<Rightarrow> if derivation_eq stored x then ''verified'' else ''diverged'')\<rparr>]"
  by (simp add: fx_verify_def verify_command_def mock_replay [OF assms(2)] case_prod_unfold Let_def populate_returns
      decided_log_facts assms List.map_filter_simps)

lemma decided_populated:
  assumes "workbench ex decided_log"
    and "derivation_for decided_log (mock_stores ascii_lower decided_log) (ConversationId ''c-1'') = Some x"
    and cache_def: "cache = snd (populate_cache (table_put ex) sqlite_derived_reclaim (ex_hasher ex) decided_log
      (mock_stores ascii_lower decided_log) fresh_table v)"
  shows "table_get ex cache v (ConversationId ''c-1'') (content_hash_of (ex_hasher ex) decided_log) = Some x"
    and "sqlite_derived_ok (ex_dec_derivation ex) cache"
    and "content \<noteq> content_hash_of (ex_hasher ex) decided_log \<Longrightarrow> table_get ex cache v (ConversationId ''c-1'') content = None"
proof -
  have storable: "\<forall>c x. derivation_for decided_log (mock_stores ascii_lower decided_log) c = Some x \<longrightarrow>
      ex_dec_derivation ex (ex_enc_derivation ex x) = Some x"
    using assms(1) by (simp add: workbench_def)
  show "table_get ex cache v (ConversationId ''c-1'') (content_hash_of (ex_hasher ex) decided_log) = Some x"
    using sqlite_derived.populate_get [OF fresh_table_facts(2) storable assms(2), of "ex_hasher ex" v]
    by (simp add: decided_log_facts content_hash_eq cache_def)
  show "sqlite_derived_ok (ex_dec_derivation ex) cache"
    unfolding cache_def by (rule sqlite_derived.populate_ok [OF fresh_table_facts(2) storable])
  let ?c = "ConversationId ''c-1''" and ?h = "content_hash_of (ex_hasher ex) decided_log"
  have cache: "cache = sqlite_derived_reclaim (table_put ex fresh_table v ?c ?h x) ?c v ?h"
    using assms(2) by (simp add: cache_def populate_cache_eq conversations_eq [symmetric] decided_log_facts derivation_for_eq
        case_prod_unfold Let_def or_empty_def)
  have x: "ex_dec_derivation ex (ex_enc_derivation ex x) = Some x" using storable assms(2) by blast
  note laws = sqlite_derived.get_put [where dec = "ex_dec_derivation ex" and enc = "ex_enc_derivation ex"]
    sqlite_derived.ok_put [where dec = "ex_dec_derivation ex" and enc = "ex_enc_derivation ex"]
    sqlite_derived.reclaim_shrinks [where dec = "ex_dec_derivation ex"]
  show "table_get ex cache v ?c content = None" if "content \<noteq> ?h"
  proof (rule ccontr)
    assume "table_get ex cache v ?c content \<noteq> None"
    then obtain y where "table_get ex cache v ?c content = Some y" by blast
    then have "table_get ex (table_put ex fresh_table v ?c ?h x) v ?c content = Some y"
      unfolding cache by (rule laws(3) [OF laws(2) [OF fresh_table_facts(2) x]])
    with that show False by (simp add: laws(1) [OF fresh_table_facts(2) x] fresh_table_facts(3))
  qed
qed

lemma verify_test:
  assumes "workbench ex decided_log" and "reads_messages dec [fx_decided]" and "\<forall>k. at_least_once (d k)"
    and "\<And>x. derivation_for decided_log (mock_stores ascii_lower decided_log) (ConversationId ''c-1'') = Some x \<Longrightarrow>
      ex_dec_derivation ex (ex_enc_derivation ex (x\<lparr>cd_projections := [], cd_hints := []\<rparr>)) = Some (x\<lparr>cd_projections := [], cd_hints := []\<rparr>)"
  shows "test_verify_outcomes ex dec d"
proof -
  let ?l = "fold mem_log_append decided_log mem_log_new" and ?v = "derivation_version ''projection'' (StepVersion ''mock:v1'')"
  have lower: "ex_lower ex = ascii_lower" using assms(1) by (simp add: workbench_def)
  obtain x where x: "derivation_for decided_log (mock_stores ascii_lower decided_log) (ConversationId ''c-1'') = Some x"
    "cd_conversation x = ConversationId ''c-1''" "cd_hints x \<noteq> []" "cd_projections x \<noteq> []" "derivation_eq x x"
    by (rule decided_session)
  let ?cache = "snd (populate_cache (table_put ex) sqlite_derived_reclaim (ex_hasher ex) decided_log
    (mock_stores ascii_lower decided_log) fresh_table ?v)"
  let ?tampered = "x\<lparr>cd_projections := [], cd_hints := []\<rparr>"
  note ok = decided_populated(2) [where v = ?v, OF assms(1) x(1) refl]
  obtain db' where put: "sqlite_derived_put (ex_enc_derivation ex) ?cache ?v (ConversationId ''c-1'')
      (content_hash_of (ex_hasher ex) decided_log) ?tampered = Some db'"
    using ok by (auto simp: sqlite_derived_put_def sqlite_derived_ok_def Let_def split: option.splits)
  have got: "table_get ex db' ?v (ConversationId ''c-1'') (content_hash_of (ex_hasher ex) decided_log) = Some ?tampered"
    using sqlite_derived.get_put [where dec = "ex_dec_derivation ex" and enc = "ex_enc_derivation ex", OF ok assms(4) [OF x(1)],
        of ?v "ConversationId ''c-1''" "content_hash_of (ex_hasher ex) decided_log" ?v "ConversationId ''c-1''"
        "content_hash_of (ex_hasher ex) decided_log"]
    by (simp add: put)
  have differs: "\<not> derivation_eq ?tampered x" using x(4) by (simp add: derivation_eq_def)
  have replayed: "snd (fx_replay_command ex d (replay_run (reference_context ascii_lower (mock_step ascii_lower))) ?v ?l fresh_table) = ?cache"
    using fx_replay_command_eq [OF _ assms(3), of ex ?l ?v fresh_table] assms(1) by (simp add: decided_ingested(2) decided_log_facts(1))
  have messages: "mem_log_messages_for ?l (ConversationId ''c-1'') = decided_log"
    by (simp add: mem_log_messages_for_def decided_ingested(2) decided_log_facts)
  show ?thesis
    unfolding test_verify_outcomes_def decided_ingested(1) [OF assms(2)] fresh_table_facts(1) fx_version_eq built_projection [OF lower]
    by (simp add: case_prod_unfold replayed messages decided_populated(1) [OF assms(1) x(1) refl] put got
        decided_verify [OF x(1) assms(3) x(2) decided_ingested(2)] fresh_table_facts(3) x(5) differs)
qed

lemma cached_read_tests:
  assumes "workbench ex decided_log" and "reads_messages dec [fx_decided, (''m-2'', ''c-1'', ''another note'')]"
    and "\<forall>k. at_least_once (d k)"
    and "content_hash_of (ex_hasher ex) (decided_log @ [json_message (''m-2'', ''c-1'', ''another note'')]) \<noteq>
      content_hash_of (ex_hasher ex) decided_log"
  shows "test_populated_conversation_reads_from_cache ex dec d" "test_changed_conversation_misses ex dec d"
proof -
  let ?l = "fold mem_log_append decided_log mem_log_new" and ?v = "derivation_version ''projection'' (StepVersion ''mock:v1'')"
    and ?note = "json_message (''m-2'', ''c-1'', ''another note'')"
  have lower: "ex_lower ex = ascii_lower" using assms(1) by (simp add: workbench_def)
  have reads: "reads_messages dec [fx_decided]" "reads_messages dec [(''m-2'', ''c-1'', ''another note'')]"
    using assms(2) by (simp_all add: reads_messages_def)
  obtain x where x: "derivation_for decided_log (mock_stores ascii_lower decided_log) (ConversationId ''c-1'') = Some x"
    "cd_hints x \<noteq> []"
    by (rule decided_session)
  let ?cache = "snd (populate_cache (table_put ex) sqlite_derived_reclaim (ex_hasher ex) decided_log
    (mock_stores ascii_lower decided_log) fresh_table ?v)"
  note populated = decided_populated [where v = ?v, OF assms(1) x(1) refl]
  have replayed: "snd (fx_replay_command ex d (replay_run (reference_context ascii_lower (mock_step ascii_lower))) ?v ?l fresh_table) = ?cache"
    using fx_replay_command_eq [OF _ assms(3), of ex ?l ?v fresh_table] assms(1) by (simp add: decided_ingested(2) decided_log_facts(1))
  have hit: "wo_context (fst (fx_warmup ex d empty_strategy ?v ?l ''c-1'' ?cache)) = Some (session_context_from x (version_str ?v) router_new)"
    by (simp add: fx_warmup_def warmup_command_def decided_ingested(2) decided_log_facts populated(1))
  show "test_populated_conversation_reads_from_cache ex dec d"
    unfolding test_populated_conversation_reads_from_cache_def decided_ingested(1) [OF reads(1)] fresh_table_facts(1) fx_version_eq
      built_projection [OF lower] built_empty
    by (simp add: case_prod_unfold replayed hit) (simp add: session_context_from_def Let_def case_prod_unfold x(2))
  have grown: "ingested dec [(''m-2'', ''c-1'', ''another note'')] ?l = Some (mem_log_append ?note ?l)"
    "mem_log_all (mem_log_append ?note ?l) = decided_log @ [?note]"
    "default_messages_for (decided_log @ [?note]) (ConversationId ''c-1'') = decided_log @ [?note]"
    by (simp_all add: ingested_eq [OF reads(2)] decided_log_def fx_decided_def json_message_def mem_log_ops default_messages_for_def
        conversation_of_def)
  have "wo_context (fst (fx_warmup ex d empty_strategy ?v (mem_log_append ?note ?l) ''c-1'' ?cache)) = None"
    by (simp add: fx_warmup_def warmup_command_def grown populated(3) [OF assms(4)] empty_strategy_def empty_stores_def
        derivation_for_def warmup_store_get_def store_new_def case_prod_unfold Let_def)
  then show "test_changed_conversation_misses ex dec d"
    unfolding test_changed_conversation_misses_def decided_ingested(1) [OF reads(1)] fresh_table_facts(1) fx_version_eq
      built_projection [OF lower] built_empty
    by (simp add: case_prod_unfold replayed grown(1))
qed

section \<open>Drafts\<close>

definition drafted_log :: "message_envelope list" where
  "drafted_log =
     map json_message [(''m-1'', ''c-1'', ''The auth sdk login is broken''), (''m-2'', ''c-1'', ''thanks everyone'')]"

lemma drafted_targets:
  "dec_target (fst (router_route router_new (mock_run ascii_lower (json_message (''m-1'', ''c-1'', ''The auth sdk login is broken''))))) =
    ConsumerGitHub"
  "dec_target (fst (router_route router_new (mock_run ascii_lower (json_message (''m-2'', ''c-1'', ''thanks everyone''))))) \<noteq>
    ConsumerGitHub"
  by code_simp+

lemma drafted_log_facts:
  "log_wf drafted_log" "default_messages_for drafted_log (ConversationId ''c-1'') = drafted_log"
  "conversations drafted_log = [ConversationId ''c-1'']"
  "mem_log_all (fold mem_log_append drafted_log mem_log_new) = drafted_log"
  by (simp_all add: drafted_log_def json_message_def log_wf_def default_messages_for_def conversations_eq
      default_conversation_ids_def conversation_of_def mem_log_ops)

lemma draft_test:
  assumes "workbench ex drafted_log"
    and "reads_messages dec [(''m-1'', ''c-1'', ''The auth sdk login is broken''), (''m-2'', ''c-1'', ''thanks everyone'')]"
    and "\<forall>k. at_least_once (d k)"
  shows "test_github_targeted_message_drafts ex dec d"
proof -
  let ?l = "fold mem_log_append drafted_log mem_log_new" and ?v = "derivation_version ''projection'' (StepVersion ''mock:v1'')"
  have lower: "ex_lower ex = ascii_lower" using assms(1) by (simp add: workbench_def)
  have "ConversationId ''c-1'' \<in> set (conversations drafted_log)" by (simp add: drafted_log_facts)
  then obtain x where x: "derivation_for drafted_log (mock_stores ascii_lower drafted_log) (ConversationId ''c-1'') = Some x"
    "cd_projections x = map (mock_run ascii_lower) (default_messages_for drafted_log (ConversationId ''c-1''))"
    using session_derivation [OF _ drafted_log_facts(1)] by metis
  have log: "ingested dec [(''m-1'', ''c-1'', ''The auth sdk login is broken''), (''m-2'', ''c-1'', ''thanks everyone'')] mem_log_new = Some ?l"
    by (simp add: ingested_eq [OF assms(2)] drafted_log_def)
  have out: "wo_context (fst (fx_warmup ex d (replay_run (reference_context ascii_lower (mock_step ascii_lower))) ?v ?l ''c-1'' fresh_table)) =
      Some (session_context_from x (version_str ?v) router_new)"
    using fx_warmup_miss(1) [OF assms(3), of ?l ex fresh_table ?v "''c-1''"] x(1)
    by (simp add: drafted_log_facts fresh_table_facts(3))
  have "sx_drafts (session_context_from x (version_str ?v) router_new) =
      [draft_for (mock_run ascii_lower (json_message (''m-1'', ''c-1'', ''The auth sdk login is broken'')))]"
    unfolding session_context_decisions x(2) drafted_log_facts(2) unfolding drafted_log_def
    using drafted_targets by (simp del: mock_run_fields)
  then show ?thesis
    unfolding test_github_targeted_message_drafts_def log fresh_table_facts(1) fx_version_eq built_projection [OF lower]
    by (simp add: out) (simp add: draft_for_def Let_def json_message_def)
qed

section \<open>Projectors\<close>

definition fx_decision_projection :: projection where
  "fx_decision_projection =
     \<lparr>proj_message_id = MessageId ''m-1'', proj_intent = Decision, proj_topics = [], proj_entities = [],
      proj_confidence = confidence_new (f64_lit (7 / 10))\<rparr>"

definition test_ollama_projector_prunes :: "'s externals \<Rightarrow> bool" where
  "test_ollama_projector_prunes ex =
     (let llm = llm_settings_default;
          current = cache_version (ex_hasher ex) (llm_projector_new
            (ollama_client (ex_render ex) (ex_dec_generate ex) (ex_post ex) (ol_base_url (ls_ollama llm)))
            (ol_model (ls_ollama llm)) (ol_prompt_version (ls_ollama llm)));
          enc = ex_enc_projection ex; dec = ex_dec_projection ex in
      do {
        db \<leftarrow> opened (projection_cache_init db_empty);
        db \<leftarrow> sqlite_projection_put enc db ''proj'' (StepVersion ''stale-v0'') ''m-1'' fx_decision_projection;
        db \<leftarrow> sqlite_projection_put enc db ''proj'' (StepVersion current) ''m-1'' fx_decision_projection;
        (projector, db) \<leftarrow> projector_for ex ProviderOllama llm db;
        db \<leftarrow> opened (projection_cache_init db);
        stale \<leftarrow> sqlite_projection_get dec db ''proj'' (StepVersion ''stale-v0'') ''m-1'';
        got \<leftarrow> sqlite_projection_get dec db ''proj'' (StepVersion current) ''m-1'';
        Some (stale = None \<and> option_eq projection_eq got (Some fx_decision_projection))
      } = Some True)"

definition test_openai_provider_wires_up :: "'s externals \<Rightarrow> bool" where
  "test_openai_provider_wires_up ex = (projector_for ex ProviderOpenai llm_settings_default db_empty \<noteq> None)"

lemma ollama_version_not_stale:
  "cache_version hasher (llm_projector_new (ollama_client render dec_generate post base) model prompt) \<noteq> ''stale-v0''"
  by (simp add: cache_version_def version_tag_def llm_projector_new_def ollama_client_def)

lemma llm_projector_tests:
  assumes "ex_dec_projection ex (ex_enc_projection ex fx_decision_projection) = Some fx_decision_projection"
  shows "test_ollama_projector_prunes ex" "test_openai_provider_wires_up ex"
proof -
  have same: "projection_eq fx_decision_projection fx_decision_projection" by (simp add: fx_decision_projection_def test_simps)
  have again: "1 \<le> db_user_version db \<Longrightarrow> projection_cache_init db = (True, db)" for db
    by (simp add: projection_cache_init_def single_step_skipped)
  show "test_ollama_projector_prunes ex"
    by (simp add: test_ollama_projector_prunes_def opened_def projection_cache_init_fresh sqlite_projection_put_def sqlite_projection_get_def
        sqlite_projection_prune_def projection_row_is_def projector_for_def llm_projector_for_def again ollama_version_not_stale ollama_version_not_stale [THEN not_sym] assms same Let_def)
  show "test_openai_provider_wires_up ex"
    by (simp add: test_openai_provider_wires_up_def projector_for_def llm_projector_for_def projection_cache_init_fresh
        sqlite_projection_prune_def Let_def)
qed

section \<open>Inspection\<close>

definition test_inspect_returns_context :: "unit externals \<Rightarrow> (string \<Rightarrow> 'e + message_envelope) \<Rightarrow> bool" where
  "test_inspect_returns_context ex dec =
     (let (result, store) = ingest dec mem_log_append (message_json (''m-1'', ''c-1'', ''Should we use sqlite?'')) mem_log_new in
      case result of
        Inl e \<Rightarrow> False
      | Inr i \<Rightarrow>
          (let traces = routing_trace_store_upsert store_new
                 \<lparr>rt_message_id = i, rt_steps = [\<lparr>ev_rule_name = ''test_rule'', ev_matched = True, ev_resulting_target = Some Human\<rparr>]\<rparr> in
           do {
             (projector, db) \<leftarrow> projector_for ex ProviderMock llm_settings_default db_empty;
             found \<leftarrow> fst (inspect_command (mem_log_get store) (routing_trace_store_get traces) projector router_new i (db, ()));
             context \<leftarrow> found;
             trace \<leftarrow> ic_trace context;
             Some (env_id (ic_message context) = i \<and> length (rt_steps trace) = 1)
           } = Some True))"

definition test_inspect_unknown_message :: "unit externals \<Rightarrow> bool" where
  "test_inspect_unknown_message ex =
     (do {
        (projector, db) \<leftarrow> projector_for ex ProviderMock llm_settings_default db_empty;
        found \<leftarrow> fst (inspect_command (mem_log_get mem_log_new) (routing_trace_store_get store_new) projector router_new
          (MessageId ''unknown'') (db, ()));
        Some (found = None)
      } = Some True)"

lemma inspect_tests:
  assumes "reads_messages dec [(''m-1'', ''c-1'', ''Should we use sqlite?'')]"
  shows "test_inspect_returns_context ex dec" "test_inspect_unknown_message ex"
  using assms
  by (simp_all add: test_inspect_returns_context_def test_inspect_unknown_message_def reads_messages_def ingest_def json_message_def
      inspect_command_def projector_for_def llm_projector_for_def mock_step_def mem_log_append_def mem_log_new_def mem_log_get_def
      routing_trace_store_upsert_def routing_trace_store_get_def store_new_def Let_def)

end
