(* ===== verification/Spec2Isabelle.thy ===== *)
theory Spec2Isabelle
  imports Main Prelude F64 Runtime Model MessageLog Stores Routing Mock ScopeWarmup Skill HintDev
    Derivation Jobs Replay Derived Submission Sqlite SqliteLog SqliteCaches Github Llm Commands Cli
    CliRun Session Verify Samples Expertise Opening Interleaving Working Rereading
    RoutedWork Drift Tests_Core Tests_Provider Tests_Storage Tests_Worker Tests_Strategy Tests_Edges Tests_Cli Tests_Commands
begin

text \<open>
  Mirrorlane turns a log of messages into derived views, session by session, and keeps the views
  reproducible: everything but the log is a cache of a deterministic computation. This library
  models the workspace under \<open>src/crates\<close> and proves what its parts promise.

  The parts and where they are modelled.

  \<^item> \<open>Prelude\<close>: strings, orderings, stable insertion sort, ordered maps, tables filled by upserts.
  \<^item> \<open>F64\<close>: binary64 as the code computes with it. A finite number is a sign and a rational, every
    operation rounds to nearest even, infinities and NaN are explicit.
  \<^item> \<open>Runtime\<close> (\<open>mirrorlane-runtime\<close>): steps, the semantic-cache port (the locale \<open>semantic_cache\<close>),
    the in-memory cache, the caching decorator.
  \<^item> \<open>Model\<close>, \<open>MessageLog\<close>, \<open>Stores\<close>, \<open>Derivation\<close> (\<open>mirrorlane-core\<close>): the data, the log port
    (\<open>message_store\<close>) and its in-memory implementation, the keyed stores (\<open>keyed_store\<close>), cache keys,
    derivation versions, the derived-output port (\<open>derived_cache\<close>).
  \<^item> \<open>Mock\<close>, \<open>ScopeWarmup\<close>, \<open>Skill\<close>, \<open>HintDev\<close>, \<open>Routing\<close> (\<open>mirrorlane-provider\<close>): the projector, scope,
    warm-up, skill index, routing hints, developer snapshots, router, consumers.
  \<^item> \<open>Jobs\<close>, \<open>Replay\<close>, \<open>Derived\<close>, \<open>Submission\<close> (\<open>mirrorlane-worker\<close>): the job handlers, stages over a
    broker, the six phases of a replay, filling the derived cache, strategies, routed work, dead
    letters, the observer. \<open>RoutedWork\<close>: the routing job over a registry that enqueues on a queue.
  \<^item> \<open>Sqlite\<close>, \<open>SqliteLog\<close>, \<open>SqliteCaches\<close> (\<open>mirrorlane-storage\<close>): a database file as a record of its
    tables and its version header, migrations as transactions, and the four stores on it.
  \<^item> \<open>Github\<close> (\<open>mirrorlane-github\<close>), \<open>Llm\<close> (\<open>mirrorlane-llm\<close>, \<open>-ollama\<close>, \<open>-openai\<close>): items, ingestion,
    drafts, the REST source; prompts, versions, answers, transports.
  \<^item> \<open>Commands\<close>, \<open>Cli\<close>, \<open>CliRun\<close>, \<open>Session\<close>, \<open>Verify\<close> (\<open>mirrorlane-cli\<close>): the command logic over the
    ports, settings, broker selection and dead letters, the commands on one database file with the
    way they end, sequences of commands (the step relation \<open>cli_step\<close> and its runs) with their
    invariants, and verification. \<open>Verify\<close> also says what a stored derivation is read back as when the
    parser of numbers is not exact, and \<open>Drift\<close> has a log on which that shows.
  \<^item> \<open>Expertise\<close>: the skill, hint and snapshot stages of a replay composed, so that a hint is described
    by the log alone; and what a cached context misses of other conversations.
  \<^item> \<open>Opening\<close>, \<open>Interleaving\<close>: several processes on one file. \<open>Opening\<close> takes \<open>migrate\<close> and the appends
    apart into events of processes that start, take turns and die; \<open>Interleaving\<close> takes the filling of
    the derived cache apart into its statements and lets runs interleave at them.
  \<^item> \<open>Working\<close>: the queue's \<open>work\<close> against \<open>replay\<close>, on the same file. \<open>Rereading\<close>: a replay that reads the
    log before and after another process appended to it.
  \<^item> \<open>Samples\<close>: concrete data for the witnesses, among them a codec that meets the laws the durable
    log asks of serde and SQLite.
  \<^item> \<open>Tests_Core\<close>, \<open>Tests_Provider\<close>, \<open>Tests_Storage\<close>, \<open>Tests_Worker\<close>, \<open>Tests_Strategy\<close>,
    \<open>Tests_Edges\<close>, \<open>Tests_Cli\<close>, \<open>Tests_Commands\<close>: the unit tests of the workspace. Each \<open>test_\<close>
    definition is the body of one test, its assertions included, over the definitions of the model,
    each \<open>fx_\<close> definition a fixture, and a lemma shows that the model passes it. What a test leaves to
    chance is quantified: the queue's order and repetitions, the turns of concurrent writers.

  How state and effects are modelled. A port with state is a function that passes the state on. A
  panic is \<open>None\<close>, an error the left of a sum, a job's end one of three results. A command returns how
  it ended and the file it leaves, also when it failed or panicked. Settings that are \<open>usize\<close>,
  \<open>u64\<close> or \<open>u32\<close> and caps that are \<open>i64\<close> are words of that width. SQLite's sequence numbers and its version
  header are unbounded integers: they count appends and schema steps, and stay far below \<open>2 ^ 63\<close>. The
  in-process broker is a delivery function, from the number of payloads to the indices in the order
  they are handed out; only that each is handed out at least once is assumed, and a retry is one more
  delivery. Loops of the code are structural recursions, so no fuel
  is needed anywhere and every function is total.

  How the parts fit. Ports are locales with the laws their clients use. Each is interpreted on the
  model of the code that provides it, twice where the code has two implementations: the log in memory
  and on SQLite, the semantic cache in memory and on the projection table, the derived cache in memory
  and on its table. What is proved in a locale, such as the reproducibility of a replay over a cache
  or the agreement of warm-up and replay, thus holds for both. The conditions a durable
  implementation adds, that a value can be written and read back, are its \<open>storable\<close> predicate.

  Several processes on one file are one sequence of events: a batch of a migration is a transaction
  and every other write a single statement, and SQLite serialises them. The reads of the schema
  version and of the log are not part of those transactions, and the model keeps them apart. A run reads
  the log at its start and again when it fills the cache; \<open>strategy_run\<close> and \<open>replay_command_reread\<close> take
  the two readings as two arguments, and the commands that have the file to themselves pass the same.
  That an opening finishes is proved with the number of turns it needs; a batch that gives up waiting for
  SQLite's lock ends its process, and is the event in which a process dies.

  The properties. C1 to C3 say what a replay computes and why it is reproducible; C4, C5 what the
  cache decorator guarantees; C6 that the durable log is the abstract log; C7, C8 what holds when
  several processes open the file and append to it, and that each opening finishes; C9 to C14 follow
  the commands on one file, C10 being a defect: the stores share one schema version, so the cache
  tables are never created on a file that only the binary has opened; C13 shows another, \<open>verify\<close> can
  report a replay's own cache as diverged; C15 to C21 the derived cache
  and its keys, C16 to C18 under interleaved runs and appends, C17, C18 and C19 being defects: runs
  can remove each other's current entries, a message ingested during a run is filed as derived, and a
  context keeps being served although the expertise in it has changed; C22, C23 migrations; C24 hints
  across conversations; C25 to C29 the derived views and their numbers; C30 to C33 routing, routed work
  and traces; C34 the log in memory; C35 to C38 GitHub; C39, C40 models.
  The router's decisions, the strategy registry, the keys of the in-memory derived cache and of
  routed work, the \<open>--repo\<close> argument and the dead-letter commands have their lemmas in \<open>Routing\<close>,
  \<open>Submission\<close>, \<open>Derivation\<close>, \<open>Commands\<close> and \<open>Cli\<close>.

  Parameters. Code outside the workspace is an argument of the definitions that use it: the hash
  function, Unicode lower-casing, the debug format of strings, serde's and SQLite's JSON, HTTP, the
  Worklane broker, number parsing of the settings, the environment. Where a property depends on one
  of them its law is a hypothesis: injectivity on the values at hand, a round trip, deduplication. The
  workspace uses \<open>serde_json\<close> without \<open>float_roundtrip\<close>, so a stored derivation may come back with
  another number in it. C13 is about that: the parser of numbers is an arbitrary function there. The
  other properties of the derived cache that speak of the value read back are for derivations that do come
  back unchanged, and have that as a hypothesis on each derivation at hand.

  Not modelled: printing, opening files and the WAL pragmas, \<open>VACUUM\<close>, mutexes (each operation holds
  its lock throughout), the worker loop and the retry policy of the queue library, the traits without
  bodies and the examples. Of the tests those are left out that exercise what is not modelled: serde's
  text, the command-line parser, the network, WAL pragmas, poisoned locks, and the reservations and
  retries inside the queue library. The handler timeout of the queue library is a timer and not
  modelled: it can drop a run while its strategy waits, before the first statement of the pass over the
  cache. A process that is killed leaves its pass anywhere, which C16 covers.
\<close>

section \<open>Replay\<close>

text \<open>
  C1: However the in-process broker orders and repeats the jobs of the six stages, as long as it
  hands out each at least once, a replay over a log with distinct ids and a projector that answers
  computes the sequential specification: every store is a table of the port's results over the
  conversations in first-seen order, and the projector's state is as before.
\<close>

theorem replay_refines_spec:
  assumes "\<forall>k. at_least_once (d k)" and "log_wf ms" and "answers projector s f ms"
  shows "replay_run (reference_context lc projector) d ms s =
    (phases_spec (reference_context lc projector) ms (projections_of f ms), s)"
  by (rule reference.replay_eq [OF assms(1,2)]) (simp add: reference_context_def assms(3))

definition backwards_twice :: deliveries where
  "backwards_twice n = rev [0..<n] @ rev [0..<n]"

lemma backwards_twice_once: "\<forall>k :: nat. at_least_once ((\<lambda>_. backwards_twice) k)"
  by (auto simp: at_least_once_def backwards_twice_def)

lemma replay_refines_spec_witness:
  "replay_run (reference_context ascii_lower (mock_step ascii_lower)) (\<lambda>_. backwards_twice) sample_log (5 :: nat) =
    (phases_spec (reference_context ascii_lower (mock_step ascii_lower :: (nat, message_envelope, projection) step))
       sample_log (projections_of (mock_run ascii_lower) sample_log), 5)"
  by (rule replay_refines_spec [OF backwards_twice_once sample_log_wf mock_answers])

text \<open>
  C2: Such a replay accounts for every message and every conversation of the log and for nothing
  else, and every conversation of the log has a derivation that carries exactly the projections of
  its messages, in log order.
\<close>

theorem replay_accounts:
  assumes "\<forall>k. at_least_once (d k)" and "log_wf ms" and "answers projector s f ms"
    and "replay_run (reference_context lc projector) d ms s = (r, s')"
  shows "dom (rs_projections r) = env_id ` set ms \<and> dom (rs_hints r) = env_id ` set ms \<and>
    dom (rs_scopes r) = conversation_of ` set ms \<and> dom (rs_warmups r) = conversation_of ` set ms \<and>
    dom (rs_developers r) = conversation_of ` set ms \<and>
    (\<forall>c\<in>set (conversations ms). \<exists>x. derivation_for ms r c = Some x \<and> cd_conversation x = c \<and>
       cd_projections x = map f (default_messages_for ms c))"
proof -
  have r: "r = phases_spec (reference_context lc projector) ms (projections_of f ms)"
    using reference.replay_eq [OF assms(1,2), of lc projector s f] assms(3,4)
    by (simp add: reference_context_def)
  have label: "\<forall>m\<in>set ms. proj_message_id (f m) = env_id m" using assms(3) by (simp add: answers_def)
  show ?thesis
    using reference.spec_accounts [OF assms(2) label, of lc projector]
      spec_derivation [of _ ms "reference_context lc projector" "projections_of f ms"]
    unfolding r stored_projections_log [OF assms(2)] by simp
qed

lemma replay_accounts_witness:
  "dom (rs_scopes (fst (replay_run (reference_context ascii_lower (mock_step ascii_lower)) (\<lambda>_. in_order)
      sample_log ()))) = {ConversationId ''c1'', ConversationId ''c2''}"
proof -
  obtain r s' where r: "replay_run (reference_context ascii_lower (mock_step ascii_lower)) (\<lambda>_. in_order)
      sample_log () = (r, s')" by (metis prod.collapse)
  have "dom (rs_scopes r) = conversation_of ` set sample_log"
    by (rule replay_accounts [OF in_order_once sample_log_wf mock_answers r,
        THEN conjunct2, THEN conjunct2, THEN conjunct1])
  also note sample_log_conversation_set
  finally show ?thesis by (simp only: r fst_conv)
qed

text \<open>
  C3: Over the in-memory projection cache a replay is reproducible even when the model is not.
  A first replay from an empty cache, with a projector that may answer differently each time and
  keys that tell the messages apart, leaves a cache over which any later replay of the same log,
  under other deliveries and over another model of the same kind, gives the same result, asks that
  model nothing and leaves the cache as it is.
\<close>

theorem replay_reproducible:
  assumes "\<forall>k. at_least_once (d k)" and "\<forall>k. at_least_once (d' k)" and "log_wf ms"
    and "well_labelled inner ms" and "inj_on key (set ms)" and "st_kind inner' = st_kind inner"
    and "replay_run (reference_context lc (cached_step cache_get cache_put key inner version)) d ms
      (cache_new, s0) = (r, (c1, s1))"
  shows "replay_run (reference_context lc (cached_step cache_get cache_put key inner' version)) d' ms (c1, t) =
    (r, (c1, t))"
proof (rule mem_projections.replay_cached_twice [OF assms(1-3) _ _ assms(4-6) _ _ _ assms(7)])
  show "mem_projections.filed (st_kind inner) version key cache_new ms"
    by (simp add: mem_projections.filed_def cache_get_def cache_new_def)
qed simp_all

definition counting_model :: "(nat, message_envelope, projection) step" where
  "counting_model =
     \<lparr>st_kind = ''model'', st_version = StepVersion ''v'',
      st_run = (\<lambda>n m. (Some (mock_run ascii_lower m\<lparr>proj_topics := replicate n (Topic ''t'')\<rparr>), Suc n))\<rparr>"

lemma replay_reproducible_witness:
  "\<exists>r c1 s1. replay_run (reference_context ascii_lower
       (cached_step cache_get cache_put (message_id_str \<circ> env_id) counting_model (StepVersion ''v'')))
       (\<lambda>_. backwards_twice) sample_log (cache_new, 0) = (r, (c1, s1)) \<and>
     replay_run (reference_context ascii_lower
       (cached_step cache_get cache_put (message_id_str \<circ> env_id) counting_model (StepVersion ''v'')))
       (\<lambda>_. in_order) sample_log (c1, 17) = (r, (c1, 17))"
proof -
  let ?p = "cached_step cache_get cache_put (message_id_str \<circ> env_id) counting_model (StepVersion ''v'')"
  obtain r c1 s1 where r: "replay_run (reference_context ascii_lower ?p) (\<lambda>_. backwards_twice) sample_log
      (cache_new, 0) = (r, (c1, s1))" by (metis prod.collapse)
  have l: "well_labelled counting_model sample_log" by (simp add: well_labelled_def counting_model_def)
  have k: "inj_on (message_id_str \<circ> env_id) (set sample_log)"
    by (rule sample_log_keys)
  show ?thesis
    by (intro exI conjI) (rule r, rule replay_reproducible [OF backwards_twice_once in_order_once sample_log_wf l k refl r])
qed

section \<open>The projection cache\<close>

text \<open>
  C4: Once the caching decorator has answered an input, that answer is final: after any further
  calls, panicking ones included, an input with the same key gets the same answer, and neither the
  cache nor the wrapped step's state changes.
\<close>

theorem cached_answer_final:
  assumes "cached_run cache_get cache_put key inner version (c, s) i = (Some out, (c1, s1))"
    and "run_all (cached_run cache_get cache_put key inner version) (c1, s1) js = (os, (c2, s2))"
    and "key j = key i"
  shows "cached_run cache_get cache_put key inner version (c2, s2) j = (Some out, (c2, s2))"
  by (rule mem_cache.cached_answer_for_good [OF _ _ assms]) simp_all

definition flaky_step :: "(nat, nat, nat) step" where
  "flaky_step =
     \<lparr>st_kind = ''flaky'', st_version = StepVersion ''v'',
      st_run = (\<lambda>n i. (if i = 0 then None else Some (n * 10 + i), Suc n))\<rparr>"

lemma cached_answer_final_witness:
  "\<exists>c. cached_run cache_get cache_put show_nat flaky_step (StepVersion ''v'') (c, 6) 2 = (Some 52, (c, 6))"
proof -
  let ?run = "cached_run cache_get cache_put show_nat flaky_step (StepVersion ''v'')"
  obtain c1 where one: "?run (cache_new, 5) 2 = (Some 52, (c1, 6))"
    by (simp add: cached_run_def flaky_step_def cache_get_def cache_new_def)
  have "run_all ?run (c1, 6) [] = ([], (c1, 6))" by simp
  from cached_answer_final [OF one this refl] show ?thesis by blast
qed

text \<open>
  C5: From an empty cache, whatever the sequence of calls, the wrapped step answers at most one
  input per key: the inputs it answered, recorded by a ghost of the same step, have distinct keys.
\<close>

theorem cached_asks_once:
  assumes "run_all (cached_run cache_get cache_put key (logged inner) version) (cache_new, (s, [])) js =
    (os, (c', (s', asked)))"
  shows "distinct (map key asked)"
  by (rule mem_cache.cached_inner_once [OF _ _ assms]) simp_all

lemma cached_asks_once_witness:
  "\<exists>os c' s' asked. run_all (cached_run cache_get cache_put show_nat (logged flaky_step) (StepVersion ''v''))
     (cache_new, (0, [])) [2, 0, 2, 0, 3] = (os, (c', (s', asked))) \<and> distinct (map show_nat asked)"
proof -
  obtain os c' s' asked where r: "run_all (cached_run cache_get cache_put show_nat (logged flaky_step)
      (StepVersion ''v'')) (cache_new, (0, [])) [2, 0, 2, 0, 3] = (os, (c', (s', asked)))"
    by (metis prod.collapse)
  show ?thesis by (intro exI conjI) (rule r, rule cached_asks_once [OF r])
qed

section \<open>The durable log\<close>

text \<open>
  C6: On a sound database the SQLite log implements the abstract log. An append of a message that
  serde and SQLite's JSON can carry does not panic, keeps the database sound, replaces a message of
  the same id in place or adds the new one at the end, and from then on every read, by id, in order,
  by conversation, and of the conversation ids in first-seen order, is the read of the abstract log.
\<close>

theorem sqlite_log_refines:
  assumes "sqlite_log_ok dec jget db" and "sqlite_all dec db = Some ms"
    and "message_storable enc dec jget m"
  shows "\<exists>db'. sqlite_append enc m db = Some db' \<and> sqlite_log_ok dec jget db' \<and>
    sqlite_all dec db' = Some (log_append m ms) \<and>
    (\<forall>i. sqlite_get dec db' i = Some (log_find i (log_append m ms))) \<and>
    sqlite_conversation_ids jget db' = Some (default_conversation_ids (log_append m ms)) \<and>
    (\<forall>c. sqlite_messages_for dec jget db' c = Some (default_messages_for (log_append m ms) c))"
proof -
  obtain db' where db': "sqlite_append enc m db = Some db'" "sqlite_log_ok dec jget db'"
    "sqlite_all dec db' = Some (log_append m ms)"
    using sqlite_append_ok [OF assms(1,3)] assms(2) by (metis option.inject)
  then show ?thesis
    using sqlite_get_ok [OF db'(2,3)] sqlite_conversation_ids_ok [OF db'(2,3)]
      sqlite_messages_for_ok [OF db'(2,3)] by blast
qed

lemma sqlite_log_refines_witness:
  "\<exists>db'. sqlite_append sample_enc (sample_message ''m2'' ''c1'' ''al'' ''edited'') sample_db = Some db' \<and>
    sqlite_conversation_ids sample_jget db' = Some [ConversationId ''c1'']"
proof -
  let ?m = "sample_message ''m2'' ''c1'' ''al'' ''edited''"
  have "default_conversation_ids (log_append ?m sample_log) = [ConversationId ''c1'']"
    by (simp add: sample_log_def default_conversation_ids_def)
  then show ?thesis
    using sqlite_log_refines [OF sample_db_ok sample_db_all sample_storable, of ?m] by metis
qed

text \<open>
  C7: However the processes of several commands take turns on a fresh file, each opening the log and
  then other stores batch by batch with the schema version it read at the start, each appending once
  it is ready, and any of them dying at any moment, the log holds exactly the messages that were
  appended, in their order, under the sequence numbers one, two, and so on without gap or repetition;
  a process that is ready has a log to append to; and no cache or trace table ever comes to exist.
\<close>

theorem concurrent_opens_keep_log:
  assumes "\<forall>e\<in>set es. event_ok (message_storable enc dec jget) e"
  shows "let w = history enc es world_start; ms = fold log_append (appended enc es world_start) [] in
    no_side_tables (w_file w) \<and>
    (case db_messages (w_file w) of
       None \<Rightarrow> ms = [] \<and> (\<forall>p. w_processes w p \<noteq> Ready)
     | Some rows \<Rightarrow> sqlite_log_ok dec jget (w_file w) \<and> sqlite_all dec (w_file w) = Some ms \<and>
         map mr_seq rows = map int [1..<Suc (length ms)])"
proof -
  let ?w = "history enc es world_start" and ?ms = "fold log_append (appended enc es world_start) []"
  have w: "file_holds dec jget ?ms (w_file ?w)" "\<forall>p. process_ok (w_file ?w) (w_processes ?w p)"
    using history_ok [OF world_ok_start assms] by (simp_all add: world_ok_def)
  show ?thesis
  proof (cases "db_messages (w_file ?w)")
    case None
    then have "w_processes ?w p \<noteq> Ready" for p using w(2) by (metis has_log_def process_ok.simps(4))
    with None w(1) show ?thesis by (simp add: Let_def file_holds_def)
  next
    case (Some rows)
    have r: "distinct (map mr_id rows)" "map mr_seq rows = map int [1..<Suc (length rows)]"
      "list_all2 (row_message dec jget) rows ?ms" "no_side_tables (w_file ?w)"
      using w(1) Some by (simp_all add: file_holds_def del: upt_Suc)
    note asc = seqs_ascending [OF r(2)]
    show ?thesis
      using Some r(2,4) sqlite_log_okI [OF Some r(1) asc r(3)] sqlite_all_rows [OF Some asc r(3)]
        list_all2_lengthD [OF r(3)] by (simp add: Let_def del: upt_Suc)
  qed
qed

text \<open>Two processes read version zero; one is done and has appended when the other migrates again.\<close>

definition opening_race :: "event list" where
  "opening_race =
     [Start 0 [message_steps, [[create_traces]]], Start 1 [message_steps], Tick 0, Tick 1] @
     replicate 7 (Tick 0) @ [Append 0 (sample_message ''m1'' ''c1'' ''al'' ''hello'')] @
     [Tick 1, Tick 1, Tick 1, Tick 1, Append 1 (sample_message ''m2'' ''c1'' ''bob'' ''hi''), Crash 0]"

lemma concurrent_opens_keep_log_witness:
  "sqlite_all sample_dec (w_file (history sample_enc opening_race world_start)) =
    Some [sample_message ''m1'' ''c1'' ''al'' ''hello'', sample_message ''m2'' ''c1'' ''bob'' ''hi'']"
proof -
  have ok: "\<forall>e\<in>set opening_race. event_ok (message_storable sample_enc sample_dec sample_jget) e"
    by (simp add: opening_race_def event_ok_def command_stores_def side_schemas_def sample_storable)
  have msgs: "fold log_append (appended sample_enc opening_race world_start) [] =
      [sample_message ''m1'' ''c1'' ''al'' ''hello'', sample_message ''m2'' ''c1'' ''bob'' ''hi'']"
    by (simp add: opening_race_def world_start_def message_steps_def db_empty_def create_messages_def set_user_version_def
        create_messages_v2_def copy_messages_def renumbered_def unique_rows_def drop_messages_def rename_messages_v2_def
        sqlite_append_def next_seq_def numeral_eq_Suc Let_def)
  from concurrent_opens_keep_log [OF ok] msgs show ?thesis by (auto simp: Let_def split: option.splits)
qed

text \<open>
  C8: An opening always finishes. Whatever the other processes do on the file meanwhile, their
  migrations, appends and deaths, a process that has begun to open its stores and is not killed is
  ready as soon as it has had its own turns, a number fixed by the stores it opens (eight for the two
  that every command opens); no batch of it is refused for what the others did to the tables, and
  nothing sends it back. (Giving up on SQLite's lock is a death.)
\<close>

theorem openings_finish:
  assumes "\<forall>e\<in>set (es @ fs). event_ok (message_storable enc dec jget) e"
    and "w_processes (history enc es world_start) p = Opening stores"
    and "Crash p \<notin> set fs" and "todo (Opening stores) \<le> turns p fs"
  shows "w_processes (history enc (es @ fs) world_start) p = Ready"
proof -
  have w: "world_ok dec jget (fold log_append (appended enc es world_start) []) (history enc es world_start)"
    by (rule history_ok [OF world_ok_start]) (use assms(1) in simp)
  have fs: "\<forall>e\<in>set fs. event_ok (message_storable enc dec jget) e" using assms(1) by simp
  have alive: "w_processes (history enc es world_start) p \<noteq> Gone" using assms(2) by simp
  note progress = history_progress [OF w fs assms(3) alive]
  have "todo (w_processes (history enc fs (history enc es world_start)) p) = 0"
    using progress(2) assms(2,4) by simp
  then show ?thesis using todo_ready [OF progress(1)] by (simp add: history_append)
qed

lemma openings_finish_witness:
  "w_processes (history sample_enc ([Start 1 [message_steps, [[create_traces]]], Start 0 [message_steps]] @
     concat (replicate 8 [Tick 1, Tick 0, Append 0 (sample_message ''m1'' ''c1'' ''al'' ''hello'')]) @ [Crash 0]) world_start) 1 = Ready"
proof -
  let ?es = "[Start 1 [message_steps, [[create_traces]]], Start 0 [message_steps]]"
  let ?fs = "concat (replicate 8 [Tick 1, Tick 0, Append 0 (sample_message ''m1'' ''c1'' ''al'' ''hello'')]) @ [Crash 0]"
  have ok: "\<forall>e\<in>set (?es @ ?fs). event_ok (message_storable sample_enc sample_dec sample_jget) e"
    by (auto simp: event_ok_def command_stores_def side_schemas_def sample_storable)
  have start: "w_processes (history sample_enc ?es world_start) 1 = Opening [message_steps, [[create_traces]]]"
    by (simp add: world_start_def)
  have "turns 1 ?fs = 8" by (simp add: turns_def numeral_eq_Suc)
  then have turns: "todo (Opening [message_steps, [[create_traces]]]) \<le> turns 1 ?fs" by (simp add: length_message_steps)
  have "Crash 1 \<notin> set ?fs" by auto
  from openings_finish [OF ok start this turns] show ?thesis .
qed

section \<open>The commands on one file\<close>

text \<open>
  C9: Whatever commands are run on a fresh database file, with whatever arguments, settings, model
  and HTTP answers, failed and panicking commands included, the message log stays sound and its ids
  distinct, and a later log starts with the ids of an earlier one in the same order: no command
  drops or reorders a message. (Serde and SQLite's JSON carry what the commands ingest.)
\<close>

theorem cli_log_append_only:
  assumes "codecs_ok cx" and "cli_run cx ex db_empty db" and "cli_run cx ex db db'"
  shows "file_ok cx db' \<and> log_wf (file_log cx db') \<and>
    (\<exists>new. map env_id (file_log cx db') = map env_id (file_log cx db) @ new)"
proof -
  have "file_ok cx db_empty" by (simp add: file_ok_def)
  then have db: "file_ok cx db" using cli_run_grows [OF assms(2,1)] by (simp add: grows_def)
  then have "file_ok cx db'" using cli_run_grows [OF assms(3,1)] by (simp add: grows_def)
  then show ?thesis using file_log_wf cli_run_log_prefix [OF assms(3,1) db] by blast
qed

definition sample_codecs :: codecs where
  "sample_codecs =
     \<lparr>cx_parse = (\<lambda>t. case sample_dec t of None \<Rightarrow> Inl ''bad json'' | Some m \<Rightarrow> Inr m),
      cx_enc = sample_enc, cx_dec = sample_dec, cx_jget = sample_jget, cx_trace = (\<lambda>_. None)\<rparr>"

lemma sample_codecs_ok: "codecs_ok sample_codecs"
  using sample_storable by (simp add: codecs_ok_def sample_codecs_def)

text \<open>A file after one message was ingested.\<close>

definition ingested_db :: sqlite_db where
  "ingested_db = snd (cli_ingest (cx_parse sample_codecs) (cx_enc sample_codecs)
     (sample_enc (sample_message ''m1'' ''c1'' ''al'' ''jwt?'')) db_empty)"

lemma ingested_run: "cli_run sample_codecs sample_externals db_empty ingested_db"
  by (rule run_step [OF run_refl], rule step_ingest) (simp add: ingested_db_def prod_eq_iff)

lemma ingested_log: "file_log sample_codecs ingested_db = [sample_message ''m1'' ''c1'' ''al'' ''jwt?'']"
proof -
  let ?m = "sample_message ''m1'' ''c1'' ''al'' ''jwt?''"
  let ?db = "db_empty\<lparr>db_messages := Some [], db_user_version := 2\<rparr>"
  have "cli_open db_empty = (True, ?db)"
    using versioned_skips(5) [of ?db] by (simp add: cli_open_def message_store_init_fresh)
  moreover have dec: "sample_dec (sample_enc ?m) = Some ?m"
    using sample_storable [of ?m] by (simp add: message_storable_def)
  ultimately show ?thesis
    by (simp add: ingested_db_def cli_ingest_def ingest_def sample_codecs_def file_append_def sqlite_append_def
        file_log_def sqlite_all_def Let_def)
qed

lemma cli_log_append_only_witness:
  "log_wf (file_log sample_codecs ingested_db) \<and> file_log sample_codecs ingested_db \<noteq> []"
  using cli_log_append_only [OF sample_codecs_ok run_refl ingested_run] ingested_log by simp

text \<open>
  C10: The commands share one database file, and the schema version in its header is one number for
  all the stores, so on every file that the commands can produce from a fresh one the cache and
  trace tables never exist. Once the log holds a message, a replay of the reference strategy panics
  with any provider, every warm-up fails or panics, and the inspection of a logged message panics.
\<close>

theorem cli_shared_file_panics:
  assumes "codecs_ok cx" and "cli_run cx ex db_empty db" and "m \<in> set (file_log cx db)"
    and "run_strategy rs = ''projection''" and "\<forall>k. at_least_once (d k)"
  shows "fst (cli_replay ex (cx_dec cx) rs d (db, s)) = Panicked \<and>
    fst (cli_warmup ex (cx_dec cx) (cx_jget cx) rs d c (db, s)) \<in> {Failed, Panicked} \<and>
    fst (cli_inspect ex (cx_dec cx) (cx_trace cx) rs cap (env_id m) (db, s)) = Panicked"
proof -
  have "file_log cx db \<noteq> []" using assms(3) by auto
  note panics = reachable_panics [OF assms(2,1) this]
  show ?thesis by (intro conjI panics(1) [OF assms(4,5)] panics(2) panics(3) [OF assms(3)])
qed

lemma cli_shared_file_panics_witness:
  "fst (cli_replay sample_externals (cx_dec sample_codecs) sample_settings (\<lambda>_. in_order) (ingested_db, ())) = Panicked"
  using cli_shared_file_panics [OF sample_codecs_ok ingested_run, of "sample_message ''m1'' ''c1'' ''al'' ''jwt?''"
      sample_settings "\<lambda>_. in_order" "()"] in_order_once
  by (simp add: ingested_log)

text \<open>
  C11: On a file whose cache table does exist and is sound, a replay with the mock provider and the
  reference strategy, over any at-least-once deliveries, succeeds: it reports every conversation of
  the log once, in first-seen order, leaves no message unprojected, leaves the external state alone,
  and the file it leaves answers every conversation's cache lookup with its derivation.
\<close>

theorem cli_replay_serves:
  assumes "0 \<le> db_user_version db" and "cli_open db = (True, db')" and "sqlite_all dec db' = Some ms"
    and "run_provider rs = ProviderMock" and "run_strategy rs = ''projection''"
    and "\<forall>k. at_least_once (d k)" and "log_wf ms" and "sqlite_derived_ok (ex_dec_derivation ex) db'"
    and "\<forall>c x. derivation_for ms (mock_stores (ex_lower ex) ms) c = Some x \<longrightarrow>
      ex_dec_derivation ex (ex_enc_derivation ex x) = Some x"
  shows "\<exists>out db''. cli_replay ex dec rs d (db, s) = (Done out, (db'', s)) \<and>
    map sx_conversation (ro_contexts out) = default_conversation_ids ms \<and> ro_unprojected out = [] \<and>
    (\<forall>c\<in>set (default_conversation_ids ms).
       sqlite_derived_get (ex_dec_derivation ex) db'' (derivation_version ''projection'' (StepVersion ''mock:v1''))
         c (content_hash (ex_hasher ex) ms c) = Some (derivation_for ms (mock_stores (ex_lower ex) ms) c))"
  by (rule cli_replay_done [OF assms, of s]) blast

lemma cli_replay_serves_witness:
  "\<exists>out db''. cli_replay sample_externals sample_dec sample_settings (\<lambda>_. backwards_twice) (sample_db, ()) =
      (Done out, (db'', ())) \<and>
    map sx_conversation (ro_contexts out) = [ConversationId ''c1'', ConversationId ''c2'']"
proof -
  have v: "0 \<le> db_user_version sample_db" by (simp add: sample_db_def)
  have ok: "sqlite_derived_ok (ex_dec_derivation sample_externals) sample_db" by (simp add: sample_db_derived)
  have sto: "\<forall>c x. derivation_for sample_log (mock_stores (ex_lower sample_externals) sample_log) c = Some x \<longrightarrow>
      ex_dec_derivation sample_externals (ex_enc_derivation sample_externals x) = Some x"
    using sample_derivation_storable by (simp add: sample_stores_def)
  show ?thesis
    using cli_replay_serves [OF v sample_db_open sample_db_all sample_settings_simps backwards_twice_once
        sample_log_wf ok sto, of "()"] sample_log_conversations by auto
qed

text \<open>
  C12: Over the SQLite cache, a warm-up that follows a replay is served from the cache: it runs no
  strategy, changes neither the cache nor the ports, and returns exactly the context the replay
  reported for the conversation.
\<close>

theorem warmup_hits_after_replay:
  assumes "sqlite_derived_ok dec db" and "strategy d all s = (stores, s1)"
    and "\<forall>c x. derivation_for all stores c = Some x \<longrightarrow> dec (enc x) = Some x"
    and "c \<in> set (conversations all)" and "derivation_for all stores c = Some x"
    and "replay_command (\<lambda>db v c y x. the (sqlite_derived_put enc db v c y x)) sqlite_derived_reclaim hasher
      strategy d version router all (db, s) = (out, (db', s1))"
  shows "\<exists>context. context \<in> set (ro_contexts out) \<and> sx_conversation context = c \<and>
    warmup_command (\<lambda>db v c y. the (sqlite_derived_get dec db v c y))
      (\<lambda>db v c y x. the (sqlite_derived_put enc db v c y x)) sqlite_derived_reclaim hasher
      strategy' d' version router all c (db', t) =
    (\<lparr>wo_context = Some context,
      wo_unprojected = filter (\<lambda>i. i \<notin> proj_message_id ` set (cd_projections x)) (messages_in all c)\<rparr>, (db', t))"
proof -
  have "cd_conversation x = c" using assms(5) by (auto simp: derivation_for_def Let_def split: option.splits)
  then have "sx_conversation (session_context_from x (version_str version) router) = c"
    by (simp add: session_context_from_def Let_def)
  then show ?thesis
    using sqlite_derived.warmup_after_replay(1) [OF assms]
      sqlite_derived.warmup_after_replay(2) [OF assms, of strategy' d' t] by auto
qed

definition sample_strategy :: "nat replay_strategy" where
  "sample_strategy d ms s = (sample_stores, Suc s)"

lemma warmup_hits_after_replay_witness:
  "\<exists>(out :: replay_output) db' context. context \<in> set (ro_contexts out) \<and>
    wo_context (fst (warmup_command (\<lambda>db v c y. the (sqlite_derived_get sample_dec_derivation db v c y))
      (\<lambda>db v c y x. the (sqlite_derived_put sample_enc_derivation db v c y x)) sqlite_derived_reclaim sample_hasher
      sample_strategy (\<lambda>_. in_order) (StepVersion ''v'') router_new sample_log (ConversationId ''c2'') (db', 3))) =
    Some context"
proof -
  obtain x where x: "derivation_for sample_log sample_stores (ConversationId ''c2'') = Some x"
      "ConversationId ''c2'' \<in> set (conversations sample_log)"
    by (rule sample_derivation [of "ConversationId ''c2''"]) simp_all
  have run: "sample_strategy (\<lambda>_. in_order) sample_log 0 = (sample_stores, Suc 0)"
    by (simp add: sample_strategy_def)
  obtain out db' where r: "replay_command (\<lambda>db v c y x. the (sqlite_derived_put sample_enc_derivation db v c y x))
      sqlite_derived_reclaim sample_hasher sample_strategy (\<lambda>_. in_order) (StepVersion ''v'') router_new sample_log
      (sample_db, 0) = (out, (db', Suc 0))"
    by (simp add: replay_command_def sample_strategy_def case_prod_unfold Let_def)
  from warmup_hits_after_replay [OF sample_db_derived run sample_derivation_storable x(2,1) r,
      of sample_strategy "\<lambda>_. in_order" 3]
  obtain sctx where c: "sctx \<in> set (ro_contexts out)" and w: "warmup_command
      (\<lambda>db v c y. the (sqlite_derived_get sample_dec_derivation db v c y))
      (\<lambda>db v c y x. the (sqlite_derived_put sample_enc_derivation db v c y x)) sqlite_derived_reclaim sample_hasher
      sample_strategy (\<lambda>_. in_order) (StepVersion ''v'') router_new sample_log (ConversationId ''c2'') (db', 3) =
      (\<lparr>wo_context = Some sctx, wo_unprojected = filter (\<lambda>i. i \<notin> proj_message_id ` set (cd_projections x))
        (messages_in sample_log (ConversationId ''c2''))\<rparr>, (db', 3))"
    by blast
  show ?thesis by (rule exI [of _ out], rule exI [of _ db'], rule exI [of _ sctx]) (simp add: c w)
qed

text \<open>
  C13: What \<open>verify\<close> says after a replay. \<open>rd w\<close> is what \<open>serde_json\<close> parses the printed number \<open>w\<close> as;
  every other field of a derivation is read back as it was written. On a file whose cache table
  exists and is sound, a mock replay succeeds, and \<open>verify\<close> on the file it leaves, under any other
  deliveries, changes nothing and reports every conversation of the log in first-seen order, as
  verified exactly when each confidence, score and weight of its derivation comes back equal (clamped,
  where the type clamps what it reads), and as diverged otherwise; it exits with an error exactly when
  one diverged. A parser that is exact on the unit interval makes every conversation verified, for
  logs of at most \<open>2 ^ 53\<close> messages. The workspace builds \<open>serde_json\<close> without \<open>float_roundtrip\<close>, so its
  parser need not be: in the witness one number is read as its neighbour, and \<open>verify\<close> fails right
  after the replay, although the cache was populated by the same code.
\<close>

theorem verify_sees_what_was_read:
  assumes "0 \<le> db_user_version db" and "cli_open db = (True, db')" and "sqlite_all dec db' = Some ms"
    and "run_provider rs = ProviderMock" and "run_strategy rs = ''projection''"
    and "\<forall>k. at_least_once (d k)" and "log_wf ms" and "sqlite_derived_ok (ex_dec_derivation ex) db'"
    and "\<forall>c x. derivation_for ms (mock_stores (ex_lower ex) ms) c = Some x \<longrightarrow>
      ex_dec_derivation ex (ex_enc_derivation ex x) = Some (read_derivation rd x)"
    and "\<forall>k. at_least_once (d' k)"
  shows "\<exists>out db''. cli_replay ex dec rs d (db, s) = (Done out, (db'', s)) \<and>
    (let cs = default_conversation_ids ms;
         kept = (\<lambda>c. survives rd (the (derivation_for ms (mock_stores (ex_lower ex) ms) c)));
         records = map (\<lambda>c. \<lparr>vr_conversation = c, vr_outcome = if kept c then ''verified'' else ''diverged''\<rparr>) cs in
     cli_verify ex dec rs d' None (db'', t) =
       ((if \<forall>c\<in>set cs. kept c then Done records else DoneWithError records), (db'', t)) \<and>
     (length ms \<le> 2 ^ 53 \<and> (\<forall>w. f64_unit w \<longrightarrow> rd w = w) \<longrightarrow> (\<forall>c\<in>set cs. kept c)))"
proof (rule cli_replay_reads [where returned = "read_derivation rd", OF assms(1-9), of s])
  fix out db''
  assume run: "cli_replay ex dec rs d (db, s) = (Done out, (db'', s))"
    and served: "\<And>c. c \<in> set (default_conversation_ids ms) \<Longrightarrow>
      sqlite_derived_get (ex_dec_derivation ex) db'' (derivation_version ''projection'' (StepVersion ''mock:v1''))
        c (content_hash (ex_hasher ex) ms c) =
        Some (map_option (read_derivation rd) (derivation_for ms (mock_stores (ex_lower ex) ms) c))"
    and frame: "db_user_version db'' = db_user_version db'" "db_messages db'' = db_messages db'"
  have v: "2 \<le> db_user_version db''" using cli_open_eq(2) [OF assms(1,2)] frame(1) by simp
  have all: "sqlite_all dec db'' = Some ms" using assms(3) frame(2) by (simp add: sqlite_all_def)
  have reports: "\<forall>c\<in>set (default_conversation_ids ms).
      sqlite_derived_get (ex_dec_derivation ex) db'' (derivation_version ''projection'' (StepVersion ''mock:v1''))
        c (content_hash (ex_hasher ex) ms c) =
        Some (map_option (read_derivation rd) (derivation_for ms (mock_stores (ex_lower ex) ms) c))"
    using served by blast
  note verify = cli_verify_reports [OF v all assms(7,4,5,10) reports, of t]
  have "survives rd (the (derivation_for ms (mock_stores (ex_lower ex) ms) c))"
    if "c \<in> set (default_conversation_ids ms)" "length ms \<le> 2 ^ 53" "\<forall>w. f64_unit w \<longrightarrow> rd w = w" for c
  proof -
    have "c \<in> set (conversations ms)" using that(1) by (simp only: conversations_eq)
    then obtain x where "derivation_for ms (mock_stores (ex_lower ex) ms) c = Some x"
      using mock_stores_derivation by blast
    with survives_exact [OF mock_derivation_ok [OF assms(7) that(2)] that(3)] show ?thesis by simp
  qed
  with run verify show ?thesis by (intro exI conjI) (simp_all add: Let_def)
qed

lemma verify_sees_what_was_read_witness:
  "(\<exists>out db''. cli_replay drift_externals sample_dec sample_settings (\<lambda>_. backwards_twice) (drift_db, ()) = (Done out, (db'', ())) \<and>
      cli_verify drift_externals sample_dec sample_settings (\<lambda>_. in_order) None (db'', ()) =
        (DoneWithError [\<lparr>vr_conversation = ConversationId ''c1'', vr_outcome = ''diverged''\<rparr>], (db'', ()))) \<and>
   (\<exists>db''. cli_verify sample_externals sample_dec sample_settings (\<lambda>_. in_order) None (db'', ()) =
      (Done [\<lparr>vr_conversation = ConversationId ''c1'', vr_outcome = ''verified''\<rparr>,
             \<lparr>vr_conversation = ConversationId ''c2'', vr_outcome = ''verified''\<rparr>], (db'', ())))"
proof
  have sto: "\<forall>c x. derivation_for drift_log (mock_stores (ex_lower drift_externals) drift_log) c = Some x \<longrightarrow>
      ex_dec_derivation drift_externals (ex_enc_derivation drift_externals x) = Some (read_derivation drift_read x)"
    using drift_reads by (simp add: drift_stores_def)
  have "ConversationId ''c1'' \<in> set (conversations drift_log)" by (simp add: conversations_eq drift_conversations)
  then obtain x where x: "derivation_for drift_log drift_stores (ConversationId ''c1'') = Some x"
    using mock_stores_derivation unfolding drift_stores_def by blast
  show "\<exists>out db''. cli_replay drift_externals sample_dec sample_settings (\<lambda>_. backwards_twice) (drift_db, ()) = (Done out, (db'', ())) \<and>
      cli_verify drift_externals sample_dec sample_settings (\<lambda>_. in_order) None (db'', ()) =
        (DoneWithError [\<lparr>vr_conversation = ConversationId ''c1'', vr_outcome = ''diverged''\<rparr>], (db'', ()))"
    using verify_sees_what_was_read [OF drift_db_facts(1,2) drift_db_all sample_settings_simps backwards_twice_once
        drift_log_wf drift_db_facts(3) sto in_order_once, of "()" "()"] drift_diverges [OF x] x
    by (auto simp: drift_conversations drift_stores_def Let_def)
next
  have v: "0 \<le> db_user_version sample_db" by (simp add: sample_db_def)
  have ok: "sqlite_derived_ok (ex_dec_derivation sample_externals) sample_db" by (simp add: sample_db_derived)
  have len: "length sample_log \<le> 2 ^ 53" by (simp add: sample_log_def)
  have exact: "read_derivation (\<lambda>w. w) x = x"
    if "derivation_for sample_log (mock_stores ascii_lower sample_log) c = Some x" for c x
    by (rule read_derivation_exact [OF mock_derivation_ok [OF sample_log_wf len that]]) simp
  have sto: "\<forall>c x. derivation_for sample_log (mock_stores (ex_lower sample_externals) sample_log) c = Some x \<longrightarrow>
      ex_dec_derivation sample_externals (ex_enc_derivation sample_externals x) = Some (read_derivation (\<lambda>w. w) x)"
    using sample_derivation_storable exact by (simp add: sample_stores_def)
  show "\<exists>db''. cli_verify sample_externals sample_dec sample_settings (\<lambda>_. in_order) None (db'', ()) =
      (Done [\<lparr>vr_conversation = ConversationId ''c1'', vr_outcome = ''verified''\<rparr>,
             \<lparr>vr_conversation = ConversationId ''c2'', vr_outcome = ''verified''\<rparr>], (db'', ()))"
    using verify_sees_what_was_read [OF v sample_db_open sample_db_all sample_settings_simps backwards_twice_once
        sample_log_wf ok sto in_order_once, of "()" "()"] len
    by (auto simp: sample_log_conversations Let_def)
qed

text \<open>
  C14: A submitted run does what a replay does. On a file whose cache table exists and is sound, with
  the mock provider, a worker that is handed any list of jobs with a run of the reference strategy
  among them, redeliveries and other strategies included, leaves exactly the file and the external
  state that one \<open>replay\<close> of the reference strategy would leave, under any at-least-once
  deliveries of either; and every job ends well unless its strategy is unknown.
\<close>

theorem work_equals_replay:
  fixes ex :: "'s externals" and s :: 's
  assumes "0 \<le> db_user_version db" and "cli_open db = (True, db')" and "sqlite_all dec db' = Some ms"
    and "run_provider rs = ProviderMock" and "log_wf ms" and "sqlite_derived_ok (ex_dec_derivation ex) db'"
    and "\<forall>(request, d)\<in>set jobs. \<forall>k. at_least_once (d k)"
    and "\<exists>(request, d)\<in>set jobs. srun_strategy request = ''projection''"
    and "run_strategy rs' = ''projection''" and "run_provider rs' = ProviderMock" and "\<forall>k. at_least_once (d' k)"
  shows "cli_work ex dbg dec rs True jobs True (db, s) =
    (Done (map (job_end dbg \<circ> fst) jobs), snd (cli_replay ex dec rs' d' (db, s)))"
  by (rule cli_work_replays [OF assms])

lemma work_equals_replay_witness:
  "snd (cli_work sample_externals id sample_dec sample_settings True
      [(\<lparr>srun_strategy = ''projection''\<rparr>, \<lambda>_. backwards_twice), (\<lparr>srun_strategy = ''other''\<rparr>, \<lambda>_. in_order),
       (\<lparr>srun_strategy = ''projection''\<rparr>, \<lambda>_. in_order)] True (sample_db, ())) =
    snd (cli_replay sample_externals sample_dec sample_settings (\<lambda>_. in_order) (sample_db, ()))"
proof -
  let ?jobs = "[(\<lparr>srun_strategy = ''projection''\<rparr>, \<lambda>_ :: nat. backwards_twice), (\<lparr>srun_strategy = ''other''\<rparr>, \<lambda>_. in_order),
       (\<lparr>srun_strategy = ''projection''\<rparr>, \<lambda>_. in_order)]"
  have v: "0 \<le> db_user_version sample_db" by (simp add: sample_db_def)
  have ok: "sqlite_derived_ok (ex_dec_derivation sample_externals) sample_db" by (simp add: sample_db_derived)
  have once: "\<forall>(request, d)\<in>set ?jobs. \<forall>k. at_least_once (d k)" using backwards_twice_once in_order_once by simp
  have some: "\<exists>(request, d)\<in>set ?jobs. srun_strategy request = ''projection''" by simp
  show ?thesis
    using work_equals_replay [OF v sample_db_open sample_db_all sample_settings_simps(1) sample_log_wf ok once some
      sample_settings_simps(2,1) in_order_once, of id "()"] by simp
qed

section \<open>The derived-output cache\<close>

text \<open>
  C15: Filling the SQLite cache publishes exactly the run. Every derivation of the log's
  conversations can be read back under the run's version and the hash of the conversation's
  messages, the entries of conversations outside the log are untouched, and the table stays sound.
\<close>

theorem populate_publishes:
  assumes "sqlite_derived_ok dec db"
    and "\<forall>c x. derivation_for all stores c = Some x \<longrightarrow> dec (enc x) = Some x"
    and "populate_cache (\<lambda>db v c y x. the (sqlite_derived_put enc db v c y x)) sqlite_derived_reclaim hasher
      all stores db version = (published, db')"
  shows "sqlite_derived_ok dec db' \<and>
    published = List.map_filter (derivation_for all stores) (conversations all) \<and>
    (\<forall>c x. c \<in> set (conversations all) \<and> derivation_for all stores c = Some x \<longrightarrow>
       sqlite_derived_get dec db' version c (content_hash hasher all c) = Some (Some x)) \<and>
    (\<forall>c v y. c \<notin> set (conversations all) \<longrightarrow> sqlite_derived_get dec db' v c y = sqlite_derived_get dec db v c y)"
proof -
  let ?put = "\<lambda>db v c y x. the (sqlite_derived_put enc db v c y x)"
  let ?pop = "populate_cache ?put sqlite_derived_reclaim hasher all stores db version"
  have db': "db' = snd ?pop" "published = fst ?pop" using assms(3) by simp_all
  have ok: "sqlite_derived_ok dec db'" unfolding db' by (rule sqlite_derived.populate_ok [OF assms(1,2)])
  note total_new = sqlite_derived_get_total [OF ok] and total_old = sqlite_derived_get_total [OF assms(1)]
  have "sqlite_derived_get dec db' version c (content_hash hasher all c) = Some (Some x)"
    if "c \<in> set (conversations all)" "derivation_for all stores c = Some x" for c x
    using sqlite_derived.populate_get [OF assms(1,2) that(2,1), of hasher version] total_new
    unfolding db' by (metis option.collapse)
  moreover have "sqlite_derived_get dec db' v c y = sqlite_derived_get dec db v c y"
    if "c \<notin> set (conversations all)" for c v y
    using sqlite_derived.populate_other [OF assms(1,2) that, of hasher version v y] total_new total_old
    unfolding db' by (metis option.collapse)
  ultimately show ?thesis using ok by (simp add: db' populate_returns)
qed

lemma populate_publishes_witness:
  "\<exists>db' x. sqlite_derived_get sample_dec_derivation db' (StepVersion ''v'') (ConversationId ''c1'')
    (content_hash sample_hasher sample_log (ConversationId ''c1'')) = Some (Some x)"
proof -
  obtain published db' where p: "populate_cache (\<lambda>db v c y x. the (sqlite_derived_put sample_enc_derivation db v c y x))
      sqlite_derived_reclaim sample_hasher sample_log sample_stores sample_db (StepVersion ''v'') = (published, db')"
    by (metis prod.collapse)
  obtain x where x: "derivation_for sample_log sample_stores (ConversationId ''c1'') = Some x"
      "ConversationId ''c1'' \<in> set (conversations sample_log)"
    by (rule sample_derivation [of "ConversationId ''c1''"]) simp_all
  then show ?thesis
    using populate_publishes [OF sample_db_derived sample_derivation_storable p] by blast
qed

text \<open>
  C16: The durable cache never lies, whatever is interleaved. After any sequence of statements taken
  from any number of runs, over different logs, strategies and versions, in any order and with any of
  them cut short, the table is sound, no lookup panics, and a hit is an entry that was there before or
  the derivation that one of the runs computed for exactly this version, conversation and content.
\<close>

theorem interleaved_runs_sound:
  assumes "sqlite_derived_ok dec db"
    and "\<forall>(all, stores, version)\<in>set runs. \<forall>c d. derivation_for all stores c = Some d \<longrightarrow> dec (enc d) = Some d"
    and "set sts \<subseteq> (\<Union>(all, stores, version)\<in>set runs. set (populate_statements hasher all stores version))"
  shows "sqlite_derived_ok dec (fold (sqlite_exec enc) sts db) \<and>
    (\<forall>v c x. case sqlite_derived_get dec (fold (sqlite_exec enc) sts db) v c x of
       None \<Rightarrow> False
     | Some None \<Rightarrow> True
     | Some (Some d) \<Rightarrow> sqlite_derived_get dec db v c x = Some (Some d) \<or>
         (\<exists>(all, stores, version)\<in>set runs. v = version \<and> x = content_hash hasher all c \<and>
            c \<in> set (conversations all) \<and> derivation_for all stores c = Some d))"
proof -
  have sub: "set sts \<subseteq> run_statements hasher runs" using assms(3) by (simp add: run_statements_def)
  then have sto: "\<forall>st\<in>set sts. sqlite_derived.statement_storable dec enc st"
    using run_statements_storable [OF assms(2)] by blast
  note sound = sqlite_derived.statements_sound [OF assms(1) sto, folded sqlite_exec_def]
  have hit: "sqlite_derived_get dec db v c x = Some (Some d) \<or>
      (\<exists>(all, stores, version)\<in>set runs. v = version \<and> x = content_hash hasher all c \<and>
         c \<in> set (conversations all) \<and> derivation_for all stores c = Some d)"
    if "sqlite_derived_get dec (fold (sqlite_exec enc) sts db) v c x = Some (Some d)" for v c x d
  proof -
    have "the (sqlite_derived_get dec db v c x) = Some d \<or> PutDerived v c x d \<in> run_statements hasher runs"
      using sound(2) [of v c x d] that sub by auto
    then show ?thesis unfolding run_statements_puts using get_eqI [OF assms(1)] by blast
  qed
  have "sqlite_derived_get dec (fold (sqlite_exec enc) sts db) v c x \<noteq> None" for v c x
    using sqlite_derived_get_total [OF sound(1)] by blast
  with hit sound(1) show ?thesis by (simp split: option.split)
qed

lemma interleaved_runs_sound_witness:
  "sqlite_derived_ok sample_dec_derivation (fold (sqlite_exec sample_enc_derivation)
     (rev (populate_statements sample_hasher sample_log sample_stores (StepVersion ''a'')) @
      take 1 (populate_statements sample_hasher sample_log sample_stores (StepVersion ''b''))) sample_db)"
proof -
  let ?runs = "[(sample_log, sample_stores, StepVersion ''a''), (sample_log, sample_stores, StepVersion ''b'')]"
  let ?sts = "rev (populate_statements sample_hasher sample_log sample_stores (StepVersion ''a'')) @
      take 1 (populate_statements sample_hasher sample_log sample_stores (StepVersion ''b''))"
  have sto: "\<forall>(all, stores, version)\<in>set ?runs. \<forall>c d. derivation_for all stores c = Some d \<longrightarrow>
      sample_dec_derivation (sample_enc_derivation d) = Some d"
    using sample_derivation_storable by simp
  have "set ?sts \<subseteq> (\<Union>(all, stores, version)\<in>set ?runs. set (populate_statements sample_hasher all stores version))"
    using set_take_subset [of 1 "populate_statements sample_hasher sample_log sample_stores (StepVersion ''b'')"] by auto
  from interleaved_runs_sound [OF sample_db_derived sto this] show ?thesis by blast
qed

text \<open>
  C17: But interleaved runs can undo each other. Take two runs that write a conversation under
  different keys, as runs of two strategies or providers do, or runs before and after an append to
  it. One after the other, in either order, the later one's entry is there; but some interleaving of
  their statements leaves the conversation without any entry, although both runs completed.
\<close>

theorem racing_runs_lose_entry:
  assumes "sqlite_derived_ok dec db"
    and "\<forall>c d. derivation_for all1 stores1 c = Some d \<longrightarrow> dec (enc d) = Some d"
    and "\<forall>c d. derivation_for all2 stores2 c = Some d \<longrightarrow> dec (enc d) = Some d"
    and "c \<in> set (conversations all1)" and "derivation_for all1 stores1 c = Some d1"
    and "c \<in> set (conversations all2)" and "derivation_for all2 stores2 c = Some d2"
    and "(v1, content_hash hasher all1 c) \<noteq> (v2, content_hash hasher all2 c)"
  shows "let run1 = populate_statements hasher all1 stores1 v1; run2 = populate_statements hasher all2 stores2 v2 in
    sqlite_derived_get dec (fold (sqlite_exec enc) (run1 @ run2) db) v2 c (content_hash hasher all2 c) = Some (Some d2) \<and>
    sqlite_derived_get dec (fold (sqlite_exec enc) (run2 @ run1) db) v1 c (content_hash hasher all1 c) = Some (Some d1) \<and>
    (\<exists>sts \<in> shuffles run1 run2. \<forall>v x. sqlite_derived_get dec (fold (sqlite_exec enc) sts db) v c x = Some None)"
proof -
  have sto: "\<forall>st\<in>set (populate_statements hasher all stores v). sqlite_derived.statement_storable dec enc st"
    if "\<forall>c d. derivation_for all stores c = Some d \<longrightarrow> dec (enc d) = Some d" for all stores v
    by (rule sqlite_derived.populate_statements_storable [OF that])
  note ok1 = sqlite_derived.statements_sound(1) [OF assms(1) sto [OF assms(2)], folded sqlite_exec_def]
    and ok2 = sqlite_derived.statements_sound(1) [OF assms(1) sto [OF assms(3)], folded sqlite_exec_def]
  show ?thesis
    unfolding Let_def fold_append comp_apply run_leaves(2) [OF ok1 assms(3,6,7)] run_leaves(2) [OF ok2 assms(2,4,5)]
    using race_loses_entry [OF assms] by simp
qed

lemma racing_runs_lose_entry_witness:
  "\<exists>sts \<in> shuffles (populate_statements sample_hasher sample_log sample_stores (StepVersion ''a''))
      (populate_statements sample_hasher sample_log sample_stores (StepVersion ''b'')).
    \<forall>v x. sqlite_derived_get sample_dec_derivation (fold (sqlite_exec sample_enc_derivation) sts sample_db) v
      (ConversationId ''c1'') x = Some None"
proof -
  obtain x where x: "derivation_for sample_log sample_stores (ConversationId ''c1'') = Some x"
      "ConversationId ''c1'' \<in> set (conversations sample_log)"
    by (rule sample_derivation [of "ConversationId ''c1''"]) simp_all
  have "(StepVersion ''a'', content_hash sample_hasher sample_log (ConversationId ''c1'')) \<noteq>
      (StepVersion ''b'', content_hash sample_hasher sample_log (ConversationId ''c1''))" by simp
  from racing_runs_lose_entry [OF sample_db_derived sample_derivation_storable sample_derivation_storable x(2,1) x(2,1) this]
  show ?thesis unfolding Let_def by blast
qed

text \<open>
  C18: What is ingested during a run is hidden by the run. Let a message of a known conversation, new or
  an edit of one, be appended between the strategy's reading of the log and the reading of the pass
  that fills the cache. The pass files the old derivation under the new content. So a warm-up of the
  new log hits, answers with the context from before the message, and changes nothing, whatever its
  strategy: a new message stays unprojected and fails every warm-up, an edit goes unnoticed. A replay
  of the new log would derive the message, and \<open>verify\<close> compares with that.
\<close>

theorem ingest_during_run_hidden:
  assumes "sqlite_derived_ok dec db" and "log_wf all" and "\<forall>k. at_least_once (d k)" and "\<forall>k. at_least_once (d' k)"
    and "answers projector s f (m # all)" and "stays_put m all" and "conversation_of m \<in> set (conversations all)"
    and "\<forall>c x. derivation_for all (fst (replay_run (reference_context lc projector) d all s)) c = Some x \<longrightarrow> dec (enc x) = Some x"
    and "replay_command_reread (\<lambda>db v c y x. the (sqlite_derived_put enc db v c y x)) sqlite_derived_reclaim hasher
      (replay_run (reference_context lc projector)) d version router all (log_append m all) (db, s) = (out, (db', s'))"
  shows "\<exists>x y. derivation_for all (fst (replay_run (reference_context lc projector) d all s)) (conversation_of m) = Some x \<and>
    cd_projections x = map f (default_messages_for all (conversation_of m)) \<and>
    warmup_command (\<lambda>db v c y. the (sqlite_derived_get dec db v c y))
        (\<lambda>db v c y x. the (sqlite_derived_put enc db v c y x)) sqlite_derived_reclaim hasher
        strategy' d'' version router (log_append m all) (conversation_of m) (db', t) =
      (\<lparr>wo_context = Some (session_context_from x (version_str version) router),
        wo_unprojected = (if env_id m \<in> env_id ` set all then [] else [env_id m])\<rparr>, (db', t)) \<and>
    derivation_for (log_append m all) (fst (replay_run (reference_context lc projector) d' (log_append m all) s))
      (conversation_of m) = Some y \<and>
    cd_projections y = map f (default_messages_for (log_append m all) (conversation_of m)) \<and>
    \<lparr>vr_conversation = conversation_of m, vr_outcome = (if derivation_eq x y then ''verified'' else ''diverged'')\<rparr> \<in>
      set (fst (verify_command (\<lambda>db v c y. the (sqlite_derived_get dec db v c y)) hasher
        (replay_run (reference_context lc projector)) d' version (log_append m all) (db', s)))"
proof -
  let ?new = "log_append m all" and ?c = "conversation_of m"
  have ans: "answers projector s f all" "answers projector s f ?new"
    using assms(5) by (auto simp: answers_def set_log_append [OF assms(2)])
  have wf: "log_wf ?new" using assms(2) by (simp add: log_wf_append)
  have c: "?c \<in> set (conversations ?new)" using conversations_append [OF assms(2,6,7)] assms(7) by simp
  obtain r where r: "replay_run (reference_context lc projector) d all s = (r, s)"
    "dom (rs_projections r) = env_id ` set all" "dom (rs_hints r) = env_id ` set all"
    "\<forall>c\<in>set (conversations all). \<exists>x. derivation_for all r c = Some x \<and> cd_conversation x = c \<and>
      cd_projections x = map f (default_messages_for all c)"
    by (rule replay_answers_derive [OF assms(3,2) ans(1), of lc])
  obtain r' where r': "replay_run (reference_context lc projector) d' ?new s = (r', s)"
    "\<forall>c\<in>set (conversations ?new). \<exists>x. derivation_for ?new r' c = Some x \<and> cd_conversation x = c \<and>
      cd_projections x = map f (default_messages_for ?new c)"
    by (rule replay_answers_derive [OF assms(4) wf ans(2), of lc])
  obtain x where x: "derivation_for all r ?c = Some x" "cd_projections x = map f (default_messages_for all ?c)"
    using r(4) assms(7) by blast
  obtain y where y: "derivation_for ?new r' ?c = Some y" "cd_conversation y = ?c"
    "cd_projections y = map f (default_messages_for ?new ?c)"
    using r'(2) c by blast
  have same: "derivation_for ?new r c = derivation_for all r c" for c
    by (rule derivation_append [OF assms(6)]) (use r(2,3) in auto)
  have sto: "\<forall>c x. derivation_for all r c = Some x \<longrightarrow> dec (enc x) = Some x" using assms(8) by (simp add: r(1))
  note filed = sqlite_derived.reread_publishes [OF assms(1) sto same c x(1) r(1) assms(9)]
  have label: "map proj_message_id (cd_projections x) = messages_in all ?c"
    using ans(1) by (auto simp: x(2) messages_in_def default_messages_for_def answers_def)
  have left: "filter (\<lambda>i. i \<notin> set (map proj_message_id (cd_projections x))) (messages_in ?new ?c) =
      (if env_id m \<in> env_id ` set all then [] else [env_id m])"
    unfolding label messages_in_append [OF assms(6)] by (auto simp: messages_in_def filter_empty_conv)
  have report: "\<lparr>vr_conversation = ?c, vr_outcome = (if derivation_eq x y then ''verified'' else ''diverged'')\<rparr> \<in>
      set (fst (verify_command (\<lambda>db v c y. the (sqlite_derived_get dec db v c y)) hasher
        (replay_run (reference_context lc projector)) d' version ?new (db', s)))"
    by (rule verify_reports, rule r'(1), rule c, rule y(1), rule y(2), rule filed(2))
  show ?thesis
    unfolding r(1) r'(1) fst_conv
    by (rule exI [of _ x], rule exI [of _ y]) (intro conjI x y(1,3) filed(3) [unfolded left] report)
qed

text \<open>An edit of the first message is ingested while the log is replayed.\<close>

lemma ingest_during_run_hidden_witness:
  "\<exists>db' x. wo_unprojected (fst (warmup_command (\<lambda>db v c y. the (sqlite_derived_get sample_dec_derivation db v c y))
      (\<lambda>db v c y x. the (sqlite_derived_put sample_enc_derivation db v c y x)) sqlite_derived_reclaim sample_hasher
      (replay_run (reference_context ascii_lower (mock_step ascii_lower))) (\<lambda>_. in_order) (StepVersion ''v'') router_new
      (log_append (sample_message ''m1'' ''c1'' ''al'' ''never mind'') sample_log) (ConversationId ''c1'') (db' :: sqlite_db, ()))) = [] \<and>
    wo_context (fst (warmup_command (\<lambda>db v c y. the (sqlite_derived_get sample_dec_derivation db v c y))
      (\<lambda>db v c y x. the (sqlite_derived_put sample_enc_derivation db v c y x)) sqlite_derived_reclaim sample_hasher
      (replay_run (reference_context ascii_lower (mock_step ascii_lower))) (\<lambda>_. in_order) (StepVersion ''v'') router_new
      (log_append (sample_message ''m1'' ''c1'' ''al'' ''never mind'') sample_log) (ConversationId ''c1'') (db', ()))) =
      Some (session_context_from x ''v'' router_new) \<and>
    proj_topics (hd (cd_projections x)) = [Topic ''auth'']"
proof -
  let ?m = "sample_message ''m1'' ''c1'' ''al'' ''never mind''"
  obtain out db' where run: "replay_command_reread (\<lambda>db v c y x. the (sqlite_derived_put sample_enc_derivation db v c y x))
      sqlite_derived_reclaim sample_hasher (replay_run (reference_context ascii_lower (mock_step ascii_lower)))
      (\<lambda>_. backwards_twice) (StepVersion ''v'') router_new sample_log (log_append ?m sample_log) (sample_db, ()) = (out, (db', ()))"
    by (simp add: replay_command_reread_def case_prod_unfold Let_def)
  have stay: "stays_put ?m sample_log" by (simp add: stays_put_def sample_log_def)
  have c: "conversation_of ?m \<in> set (conversations sample_log)" by (simp add: conversations_eq sample_log_def)
  have id: "env_id ?m \<in> env_id ` set sample_log" by (simp add: sample_log_def)
  have sto: "\<forall>c x. derivation_for sample_log (fst (replay_run (reference_context ascii_lower (mock_step ascii_lower))
      (\<lambda>_. backwards_twice) sample_log ())) c = Some x \<longrightarrow> sample_dec_derivation (sample_enc_derivation x) = Some x"
    using sample_derivation_storable by (simp add: mock_replay [OF backwards_twice_once sample_log_wf] sample_stores_def)
  have topics: "proj_topics (hd (map (mock_run ascii_lower) (default_messages_for sample_log (ConversationId ''c1'')))) = [Topic ''auth'']"
    by (simp add: default_messages_for_def sample_log_def sample_topics del: mock_run_fields)
  note hidden = ingest_during_run_hidden [OF sample_db_derived sample_log_wf backwards_twice_once in_order_once mock_answers stay c
      sto run, of "replay_run (reference_context ascii_lower (mock_step ascii_lower))" "\<lambda>_. in_order" "()",
      unfolded sample_message_fields step_version.sel]
  from hidden id topics show ?thesis
  proof (elim exE conjE, goal_cases)
    case (1 x y)
    then show ?case by (intro exI [of _ db'] exI [of _ x] conjI) (simp_all del: mock_run_fields)
  qed
qed

text \<open>
  C19: A cached context goes stale. After a replay with the mock provider, let a message be appended to
  another conversation, about a topic of a message n of c, by someone who had not written about n's
  topics. The warm-up of c still hits the cache and answers as before, with a hint for n that leaves
  the newcomer out, while a replay of the longer log derives a hint for n that names them.
\<close>

theorem cached_context_goes_stale:
  assumes "sqlite_derived_ok dec db" and "log_wf (all @ [m])" and "\<forall>k. at_least_once (d k)" and "\<forall>k. at_least_once (d' k)"
    and "\<forall>c x. derivation_for all (mock_stores lc all) c = Some x \<longrightarrow> dec (enc x) = Some x"
    and "n \<in> set all" and "conversation_of m \<noteq> conversation_of n"
    and "t \<in> set (proj_topics (mock_run lc n))" and "t \<in> set (proj_topics (mock_run lc m))"
    and "\<forall>u\<in>set (proj_topics (mock_run lc n)). au_id (env_author m) \<notin> writers_on (mock_run lc) all u"
    and "replay_command (\<lambda>db v c y x. the (sqlite_derived_put enc db v c y x)) sqlite_derived_reclaim hasher
      (replay_run (reference_context lc (mock_step lc))) d version router all (db, s) = (out, (db', s1))"
  shows "\<exists>out' answer h. warmup_command (\<lambda>db v c y. the (sqlite_derived_get dec db v c y))
        (\<lambda>db v c y x. the (sqlite_derived_put enc db v c y x)) sqlite_derived_reclaim hasher
        (replay_run (reference_context lc (mock_step lc))) d' version router (all @ [m]) (conversation_of n) (db', s1) =
      (out', (db', s1)) \<and> wo_context out' = Some answer \<and>
    h \<in> set (sx_hints answer) \<and> hint_message_id h = env_id n \<and>
    au_id (env_author m) \<notin> ec_author ` set (hint_reviewers h) \<and>
    (\<exists>g. rs_hints (fst (replay_run (reference_context lc (mock_step lc)) d' (all @ [m]) s1)) (env_id n) = Some g \<and>
       au_id (env_author m) \<in> ec_author ` set (hint_reviewers g))"
proof -
  let ?get = "\<lambda>db v c y. the (sqlite_derived_get dec db v c y)"
  let ?put = "\<lambda>db v c y x. the (sqlite_derived_put enc db v c y x)"
  let ?strategy = "replay_run (reference_context lc (mock_step lc))"
  have wf: "log_wf all" using assms(2) by (simp add: log_wf_def)
  have c: "conversation_of n \<in> set (conversations all)" using assms(6) by (simp add: conversations_eq)
  obtain x where x: "derivation_for all (mock_stores lc all) (conversation_of n) = Some x"
    using mock_stores_derivation [OF c] by auto
  note run = mock_replay [OF assms(3) wf, of lc s]
  have s1: "s1 = s" using assms(11) by (simp add: replay_command_def run case_prod_unfold Let_def)
  obtain h where h: "rs_hints (mock_stores lc all) (env_id n) = Some h" "hint_message_id h = env_id n"
      "ec_author ` set (hint_reviewers h) = (\<Union>u\<in>set (proj_topics (mock_run lc n)). writers_on (mock_run lc) all u)"
    using mock_hint [OF wf assms(6), of lc] by (elim exE conjE)
  have n: "n \<in> set (all @ [m])" using assms(6) by simp
  obtain g where g: "rs_hints (mock_stores lc (all @ [m])) (env_id n) = Some g"
      "ec_author ` set (hint_reviewers g) = (\<Union>u\<in>set (proj_topics (mock_run lc n)). writers_on (mock_run lc) (all @ [m]) u)"
    using mock_hint [OF assms(2) n, of lc] by (elim exE conjE)
  have "au_id (env_author m) \<in> writers_on (mock_run lc) (all @ [m]) t" using assms(9) by (auto simp: writers_on_def)
  with assms(8) g(2) have fresh: "au_id (env_author m) \<in> ec_author ` set (hint_reviewers g)" by blast
  let ?answer = "session_context_from x (version_str version) router"
  let ?out = "\<lparr>wo_context = Some ?answer, wo_unprojected = filter (\<lambda>i. i \<notin> set (map proj_message_id (cd_projections x)))
      (messages_in all (conversation_of n))\<rparr>"
  have "warmup_command ?get ?put sqlite_derived_reclaim hasher ?strategy d' version router (all @ [m]) (conversation_of n) (db', s1) =
      (?out, (db', s1))"
    unfolding sqlite_derived.warmup_after_append_elsewhere [OF assms(1) run assms(5) c x assms(11) [unfolded s1] assms(7)]
    by (rule sqlite_derived.warmup_after_replay(2) [OF assms(1) run assms(5) c x assms(11) [unfolded s1]])
  moreover have "h \<in> set (sx_hints ?answer)"
    using derivation_hints [OF x assms(6) refl h(1)] by (simp add: session_context_from_def Let_def)
  moreover have "au_id (env_author m) \<notin> ec_author ` set (hint_reviewers h)" unfolding h(3) using assms(10) by blast
  ultimately show ?thesis
    using h(2) g(1) fresh by (intro exI [of _ ?out] exI [of _ ?answer] exI [of _ h] exI [of _ g] conjI) (simp_all add: mock_replay [OF assms(4,2)])
qed

text \<open>Carol's message about authentication, in the other conversation, is not seen by the warm-up.\<close>

lemma cached_context_goes_stale_witness:
  "\<exists>out' answer h (db' :: sqlite_db). warmup_command (\<lambda>db v c y. the (sqlite_derived_get sample_dec_derivation db v c y))
      (\<lambda>db v c y x. the (sqlite_derived_put sample_enc_derivation db v c y x)) sqlite_derived_reclaim sample_hasher
      (replay_run (reference_context ascii_lower (mock_step ascii_lower))) (\<lambda>_. backwards_twice) (StepVersion ''v'') router_new
      (sample_log @ [sample_newcomer]) (ConversationId ''c1'') (db', ()) = (out', (db', ())) \<and> wo_context out' = Some answer \<and>
    h \<in> set (sx_hints answer) \<and> hint_message_id h = MessageId ''m1'' \<and>
    AuthorId ''carol'' \<notin> ec_author ` set (hint_reviewers h) \<and>
    (\<exists>g. rs_hints (fst (replay_run (reference_context ascii_lower (mock_step ascii_lower)) (\<lambda>_. backwards_twice)
        (sample_log @ [sample_newcomer]) ())) (MessageId ''m1'') = Some g \<and>
      AuthorId ''carol'' \<in> ec_author ` set (hint_reviewers g))"
proof -
  obtain out db' where run: "replay_command (\<lambda>db v c y x. the (sqlite_derived_put sample_enc_derivation db v c y x))
      sqlite_derived_reclaim sample_hasher (replay_run (reference_context ascii_lower (mock_step ascii_lower)))
      (\<lambda>_. in_order) (StepVersion ''v'') router_new sample_log (sample_db, ()) = (out, (db', ()))"
    by (simp add: replay_command_def case_prod_unfold Let_def)
  have n: "hd sample_log \<in> set sample_log" "env_id (hd sample_log) = MessageId ''m1''"
      "conversation_of (hd sample_log) = ConversationId ''c1''"
      "proj_topics (mock_run ascii_lower (hd sample_log)) = [Topic ''auth'']"
    by (simp_all add: sample_log_def sample_topics del: mock_run_fields)
  have m: "conversation_of sample_newcomer \<noteq> conversation_of (hd sample_log)" "au_id (env_author sample_newcomer) = AuthorId ''carol''"
    by (simp_all add: n sample_newcomer_def)
  have t: "Topic ''auth'' \<in> set (proj_topics (mock_run ascii_lower (hd sample_log)))"
      "Topic ''auth'' \<in> set (proj_topics (mock_run ascii_lower sample_newcomer))"
    unfolding n(4) sample_topics by simp_all
  have new: "\<forall>u\<in>set (proj_topics (mock_run ascii_lower (hd sample_log))).
      au_id (env_author sample_newcomer) \<notin> writers_on (mock_run ascii_lower) sample_log u"
    unfolding n(4) m(2) by (simp add: sample_log_def sample_topics del: mock_run_fields)
  from cached_context_goes_stale [OF sample_db_derived sample_newcomer_wf in_order_once backwards_twice_once
      sample_derivation_storable [unfolded sample_stores_def] n(1) m(1) t new run]
  show ?thesis unfolding n m(2) by (elim exE conjE) (intro exI conjI, assumption+)
qed

text \<open>
  C20: A delivery into the SQLite cache, the write of an entry and the reclaim that follows it,
  leaves exactly one entry for the conversation: it reads back as written, every other version or
  content hash of that conversation misses, and other conversations are untouched.
\<close>

theorem delivery_supersedes:
  assumes "sqlite_derived_ok dec db" and "dec (enc x) = Some x"
  shows "\<exists>db1. sqlite_derived_put enc db v c y x = Some db1 \<and>
    sqlite_derived_ok dec (sqlite_derived_reclaim db1 c v y) \<and>
    (\<forall>v' c' y'. sqlite_derived_get dec (sqlite_derived_reclaim db1 c v y) v' c' y' =
      (if c' = c then Some (if v' = v \<and> y' = y then Some x else None) else sqlite_derived_get dec db v' c' y'))"
proof -
  obtain db1 where put: "sqlite_derived_put enc db v c y x = Some db1" "sqlite_derived_ok dec db1"
    "\<And>v' c' y'. sqlite_derived_get dec db1 v' c' y' =
      (if (v', c', y') = (v, c, y) then Some (Some x) else sqlite_derived_get dec db v' c' y')"
    using sqlite_derived_put_lookup [where dec = dec and enc = enc, OF assms, of v c y] by metis
  then show ?thesis
    using sqlite_derived_reclaim_lookup [OF put(2), of c v y] by simp
qed

lemma delivery_supersedes_witness:
  "\<exists>db2 x. sqlite_derived_get sample_dec_derivation db2 (StepVersion ''v'') (ConversationId ''c1'') ''h'' = Some (Some x) \<and>
    sqlite_derived_get sample_dec_derivation db2 (StepVersion ''old'') (ConversationId ''c1'') ''h'' = Some None"
proof -
  obtain x where x: "derivation_for sample_log sample_stores (ConversationId ''c1'') = Some x"
    by (rule sample_derivation [of "ConversationId ''c1''"]) simp_all
  then have "sample_dec_derivation (sample_enc_derivation x) = Some x"
    using sample_derivation_storable by blast
  from delivery_supersedes [OF sample_db_derived, where enc = sample_enc_derivation, OF this,
      of "StepVersion ''v''" "ConversationId ''c1''" "''h''"]
  obtain db1 where "\<forall>v' c' y'. sqlite_derived_get sample_dec_derivation
      (sqlite_derived_reclaim db1 (ConversationId ''c1'') (StepVersion ''v'') ''h'') v' c' y' =
      (if c' = ConversationId ''c1'' then Some (if v' = StepVersion ''v'' \<and> y' = ''h'' then Some x else None)
       else sqlite_derived_get sample_dec_derivation sample_db v' c' y')" by blast
  then show ?thesis
    by (intro exI [of _ "sqlite_derived_reclaim db1 (ConversationId ''c1'') (StepVersion ''v'') ''h''"] exI [of _ x]) simp
qed

text \<open>
  C21: The content hash identifies a conversation's messages. For logs whose strings are UTF-8,
  and a hash function without a collision on the two byte streams, two logs give a conversation the
  same hash exactly when they hold the same ids and bodies in the same order there. (So it sees
  neither the authors nor the other conversations, on which skills and hints also depend.)
\<close>

theorem content_hash_exact:
  assumes "\<forall>m\<in>set all. message_utf8 m" and "\<forall>m\<in>set all'. message_utf8 m"
    and "inj_on hasher {content_stream all c, content_stream all' c}"
  shows "content_hash hasher all c = content_hash hasher all' c \<longleftrightarrow>
    map (\<lambda>m. (env_id m, env_body m)) (default_messages_for all c) =
    map (\<lambda>m. (env_id m, env_body m)) (default_messages_for all' c)"
  by (rule content_hash_inj [OF assms])

lemma content_hash_exact_witness:
  "content_hash sample_hasher [sample_message ''m1'' ''c'' ''al'' ''x''] (ConversationId ''c'') =
    content_hash sample_hasher [sample_message ''m1'' ''c'' ''bob'' ''x'', sample_message ''m2'' ''d'' ''al'' ''y'']
      (ConversationId ''c'')"
proof -
  let ?a = "[sample_message ''m1'' ''c'' ''al'' ''x'']"
  let ?b = "[sample_message ''m1'' ''c'' ''bob'' ''x'', sample_message ''m2'' ''d'' ''al'' ''y'']"
  have "\<forall>m\<in>set ?a. message_utf8 m" "\<forall>m\<in>set ?b. message_utf8 m"
    by (simp_all add: message_utf8_def utf8_def sample_message_def)
  moreover have "content_stream ?a (ConversationId ''c'') = content_stream ?b (ConversationId ''c'')"
    by (simp add: content_stream_eq default_messages_for_def message_bytes_def)
  ultimately show ?thesis
    using content_hash_exact [of ?a ?b sample_hasher "ConversationId ''c''"] by (simp add: default_messages_for_def)
qed

section \<open>Schema migrations\<close>

text \<open>
  C22: Opening a store migrates atomically. If every step succeeds, the file's version is the
  larger of its old version and the number of steps, and a second migration is a no-op; if one
  fails, the file is exactly as the steps before it left it, at their version, and a retry fails at
  the same step again from there.
\<close>

theorem migrate_atomic:
  assumes "0 \<le> db_user_version db" and "migrate steps db = (succeeded, db')"
  shows "if succeeded
    then db_user_version db' = max (db_user_version db) (int (length steps)) \<and> migrate steps db' = (True, db')
    else (\<exists>k<length steps. migrate (take k steps) db = (True, db') \<and>
      db_user_version db' = max (db_user_version db) (int k) \<and>
      execute_batch (steps ! k @ [set_user_version (int k + 1)]) db' = None)"
proof (cases succeeded)
  case True
  with assms show ?thesis using migrate_version [OF assms(1)] migrate_twice [OF assms(1)] by simp
next
  case False
  then obtain k where k: "k < length steps" "migrate (take k steps) db = (True, db')"
    "execute_batch (steps ! k @ [set_user_version (int k + 1)]) db' = None"
    using migrate_failure [of steps db db'] assms(2) by auto
  have "db_user_version db' = max (db_user_version db) (int k)"
    using migrate_version [OF assms(1) k(2)] k(1) by simp
  with k False show ?thesis by auto
qed

lemma migrate_atomic_witness:
  "db_user_version (snd (migrate message_steps db_empty)) = 2"
proof -
  have "migrate message_steps db_empty = (True, snd (migrate message_steps db_empty))"
    using message_store_init_fresh by (simp add: message_store_init_def)
  from migrate_atomic [OF _ this] show ?thesis by (simp add: db_empty_def length_message_steps)
qed

text \<open>
  C23: The rebuild of the log's second schema version keeps the log: on a sound file that predates
  the version number, opening succeeds and the same messages are read back in the same order.
\<close>

theorem schema_upgrade_keeps_log:
  assumes "db_user_version db = 0" and "db_messages_v2 db = None" and "sqlite_log_ok dec jget db"
  shows "fst (message_store_init db) \<and> sqlite_log_ok dec jget (snd (message_store_init db)) \<and>
    sqlite_all dec (snd (message_store_init db)) = sqlite_all dec db \<and>
    db_user_version (snd (message_store_init db)) = 2"
proof -
  have "message_store_init db = (True, snd (message_store_init db))"
    using message_store_init_keeps_log(1) [OF assms] by (metis prod.collapse)
  then have "db_user_version (snd (message_store_init db)) = 2"
    using migrate_version [of db message_steps] assms(1) by (simp add: message_store_init_def length_message_steps)
  then show ?thesis using message_store_init_keeps_log [OF assms] by simp
qed

lemma schema_upgrade_keeps_log_witness:
  "sqlite_all sample_dec (snd (message_store_init (sample_db\<lparr>db_user_version := 0\<rparr>))) = Some sample_log"
proof -
  let ?db = "sample_db\<lparr>db_user_version := 0\<rparr>"
  have "sqlite_log_ok sample_dec sample_jget ?db" "sqlite_all sample_dec ?db = Some sample_log"
    using sample_db_ok sample_db_all by (simp_all add: sqlite_log_ok_def sqlite_all_def)
  moreover have "db_user_version ?db = 0" "db_messages_v2 ?db = None" by (simp_all add: sample_db_def)
  ultimately show ?thesis using schema_upgrade_keeps_log by metis
qed

section \<open>The derived views\<close>

text \<open>
  C24: Expertise spans conversations. In a replay whose projector answers with confidences in the unit
  interval, the routing hint of a message ranks, best first and each once, exactly the people who
  wrote about one of the message's topics anywhere in the log; and the stored ownership of a topic
  names exactly the people who wrote about it, and is missing only when nobody did. The developer
  snapshot of the message's conversation lists exactly the conversation's authors, each with exactly
  those of the conversation's topics that the author wrote about anywhere.
\<close>

theorem hints_name_the_writers:
  assumes "\<forall>k. at_least_once (d k)" and "log_wf ms" and "answers projector s f ms"
    and "\<forall>m\<in>set ms. confidence_ok (proj_confidence (f m))"
    and "replay_run (reference_context lc projector) d ms s = (r, s')" and "m \<in> set ms"
  shows "(\<exists>h. rs_hints r (env_id m) = Some h \<and> hint_message_id h = env_id m \<and>
       ranked (hint_reviewers h) \<and> distinct (map ec_author (hint_reviewers h)) \<and>
       ec_author ` set (hint_reviewers h) = (\<Union>t\<in>set (proj_topics (f m)). writers_on f ms t)) \<and>
    (\<forall>t. case rs_skills r t of None \<Rightarrow> writers_on f ms t = {}
       | Some w \<Rightarrow> own_topic w = t \<and> ec_author ` set (own_candidates w) = writers_on f ms t) \<and>
    (\<exists>sd. rs_developers r (conversation_of m) = Some sd \<and>
       ds_author ` set (sd_developers sd) = {au_id (env_author n) | n. n \<in> set ms \<and> conversation_of n = conversation_of m} \<and>
       (\<forall>d\<in>set (sd_developers sd). tw_topic ` set (ds_topics d) =
          {t. ds_author d \<in> writers_on f ms t \<and>
            (\<exists>n\<in>set ms. conversation_of n = conversation_of m \<and> t \<in> set (proj_topics (f n)))}))"
proof -
  have r: "r = phases_spec (reference_context lc projector) ms (projections_of f ms)"
    using reference.replay_eq [OF assms(1,2), of lc projector s f] assms(3,5)
    by (simp add: reference_context_def)
  have c: "conversation_of m \<in> conversation_of ` set ms" using assms(6) by simp
  have "\<forall>m\<in>set ms. proj_message_id (f m) = env_id m" using assms(3) by (simp add: answers_def)
  then have f: "\<forall>m\<in>set ms. confidence_ok (proj_confidence (f m)) \<and> proj_message_id (f m) = env_id m"
    using assms(4) by blast
  show ?thesis
    unfolding r
  proof (intro conjI allI)
    show "case rs_skills (phases_spec (reference_context lc projector) ms (projections_of f ms)) t of
        None \<Rightarrow> writers_on f ms t = {}
      | Some w \<Rightarrow> own_topic w = t \<and> ec_author ` set (own_candidates w) = writers_on f ms t" for t
      using spec_skills [OF assms(2,4), of lc projector t] by (simp split: option.split)
  qed (rule spec_hint [OF assms(2) f assms(6)], rule spec_snapshot [OF assms(2,4) c])
qed

text \<open>The hint of the first message names both people, who wrote about its topic in turn.\<close>

lemma hints_name_the_writers_witness:
  "\<exists>h. rs_hints (fst (replay_run (reference_context ascii_lower (mock_step ascii_lower)) (\<lambda>_. backwards_twice) sample_log ()))
      (MessageId ''m1'') = Some h \<and>
    ec_author ` set (hint_reviewers h) = {AuthorId ''al'', AuthorId ''bob''}"
proof -
  have m: "hd sample_log \<in> set sample_log" and i: "env_id (hd sample_log) = MessageId ''m1''"
    by (simp_all add: sample_log_def)
  have conf: "\<forall>m\<in>set sample_log. confidence_ok (proj_confidence (mock_run ascii_lower m))"
    by (intro ballI mock_confidence_ok)
  have "(\<Union>t\<in>set (proj_topics (mock_run ascii_lower (hd sample_log))). writers_on (mock_run ascii_lower) sample_log t) =
      {AuthorId ''al'', AuthorId ''bob''}"
    by (simp add: sample_log_def sample_topics del: mock_run_fields)
  with hints_name_the_writers [OF backwards_twice_once sample_log_wf mock_answers conf
      prod.collapse [symmetric] m, of ascii_lower "()", THEN conjunct1]
  show ?thesis unfolding i by (elim exE conjE) (intro exI conjI, assumption, simp)
qed

text \<open>
  C25: The skill index of any contributions with real confidences has one ownership per topic
  mentioned, in ascending order of topic; each ownership ranks exactly the authors who
  mentioned the topic, each once, under the name of their latest contribution, best first and ties by
  author. An author's weight on a topic is the sum of the confidences of the mentions in contribution
  order, the weights are those of the profiles, and the score is the weight divided by the largest
  weight on the topic, rounded to binary64. So the first candidate scores 1.0 unless nobody has a
  weight, and 1.0 is scored by exactly those with the largest weight: rounding never lifts another
  author to it.
\<close>

theorem skill_index_correct:
  assumes "\<forall>k\<in>set ks. contribution_ok k"
  shows "set (map own_topic (si_ownerships (skill_build ks))) = skill_topics ks \<and>
    sorted_wrt (<) (map own_topic (si_ownerships (skill_build ks))) \<and>
    (\<forall>w\<in>set (si_ownerships (skill_build ks)). ownership_ok w \<and>
       ec_author ` set (own_candidates w) =
         {a. mentioned ks (author_id_str a) (topic_str (own_topic w))} \<and>
       (let t = topic_str (own_topic w); peak = peak_weight ks t in
        (\<forall>e\<in>set (own_candidates w). \<exists>v. weight_spec ks (author_id_str (ec_author e)) t = Some v \<and>
           ec_display_name e = last_name ks (author_id_str (ec_author e)) \<and>
           f64_rat (skill_score_get (ec_score e)) = (if 0 < peak then round_mag (f64_rat v / peak) else 0) \<and>
           (0 < peak \<longrightarrow> (skill_score_get (ec_score e) = f64_one \<longleftrightarrow> f64_rat v = peak))) \<and>
        (0 < peak \<longrightarrow> skill_score_get (ec_score (hd (own_candidates w))) = f64_one))) \<and>
    (\<forall>a t w. (\<exists>p\<in>set (si_profiles (skill_build ks)). dp_author p = AuthorId a \<and>
       \<lparr>tw_topic = Topic t, tw_weight = w\<rparr> \<in> set (dp_topics p)) \<longleftrightarrow> weight_spec ks a t = Some w)"
proof -
  have candidate: "\<exists>v. weight_spec ks (author_id_str (ec_author e)) (topic_str (own_topic w)) = Some v \<and>
      ec_display_name e = last_name ks (author_id_str (ec_author e)) \<and>
      f64_rat (skill_score_get (ec_score e)) = (if 0 < peak_weight ks (topic_str (own_topic w))
        then round_mag (f64_rat v / peak_weight ks (topic_str (own_topic w))) else 0) \<and>
      (0 < peak_weight ks (topic_str (own_topic w)) \<longrightarrow>
        (skill_score_get (ec_score e) = f64_one \<longleftrightarrow> f64_rat v = peak_weight ks (topic_str (own_topic w))))"
    if "w \<in> set (si_ownerships (skill_build ks))" "e \<in> set (own_candidates w)" for w e
    by (rule skill_candidate [OF assms that]) blast
  show ?thesis
    unfolding Let_def
    by (intro conjI ballI allI impI skill_ownership_topics skill_ownership_ok [OF assms] skill_profile_weights
        candidate skill_leader [OF assms])
qed

definition sample_contributions :: "skill_contribution list" where
  "sample_contributions =
     [\<lparr>sk_author = AuthorId ''bob'', sk_display_name = ''Bob'', sk_topics = [Topic ''auth''],
       sk_confidence = Confidence f64_one\<rparr>,
      \<lparr>sk_author = AuthorId ''al'', sk_display_name = ''Al'', sk_topics = [Topic ''auth'', Topic ''ci''],
       sk_confidence = Confidence f64_one\<rparr>]"

lemma skill_index_correct_witness:
  "set (map own_topic (si_ownerships (skill_build sample_contributions))) = {Topic ''auth'', Topic ''ci''}"
proof -
  have "\<forall>k\<in>set sample_contributions. contribution_ok k"
    by (simp add: sample_contributions_def contribution_ok_def confidence_ok_def confidence_get_def)
  from skill_index_correct [OF this] show ?thesis
    by (auto simp: skill_topics_def sample_contributions_def)
qed

text \<open>Ownerships and a projection for the witnesses.\<close>

definition sample_ownership :: "string \<Rightarrow> string \<Rightarrow> topic_ownership" where
  "sample_ownership t a =
     \<lparr>own_topic = Topic t, own_candidates =
       [\<lparr>ec_author = AuthorId a, ec_display_name = a, ec_score = SkillScore f64_one\<rparr>]\<rparr>"

lemma sample_ownership_ok:
  "\<forall>w\<in>{sample_ownership ''auth'' ''al'', sample_ownership ''ci'' ''bob''}. \<forall>c\<in>set (own_candidates w). score_ok c"
  by (simp add: sample_ownership_def score_ok_def skill_score_get_def)

definition sample_projection :: projection where
  "sample_projection =
     \<lparr>proj_message_id = MessageId ''m1'', proj_intent = Proposal, proj_topics = [Topic ''ci''], proj_entities = [],
      proj_confidence = Confidence f64_one\<rparr>"

text \<open>
  C26: A session's developer snapshot has one entry per participant, in ascending order of author;
  each carries the participant's name and exactly the topics whose ownership ranks the author, with
  the score there as the weight, heaviest first and ties by topic.
\<close>

theorem developer_snapshot_correct:
  assumes "\<forall>w\<in>set ws. \<forall>c\<in>set (own_candidates w). score_ok c"
    and "\<forall>w\<in>set ws. distinct (map ec_author (own_candidates w))"
  shows "sd_conversation (snapshot_build c qs ws) = c \<and>
    length (sd_developers (snapshot_build c qs ws)) = length qs \<and>
    ds_author ` set (sd_developers (snapshot_build c qs ws)) = pt_author ` set qs \<and>
    sorted (map (author_id_str \<circ> ds_author) (sd_developers (snapshot_build c qs ws))) \<and>
    (\<forall>d\<in>set (sd_developers (snapshot_build c qs ws)). \<exists>q\<in>set qs.
       ds_author d = pt_author q \<and> ds_display_name d = pt_display_name q \<and>
       (\<forall>tw. tw \<in> set (ds_topics d) \<longleftrightarrow>
         (\<exists>w\<in>set ws. \<exists>e\<in>set (own_candidates w). ec_author e = pt_author q \<and>
            tw = \<lparr>tw_topic = own_topic w, tw_weight = skill_score_get (ec_score e)\<rparr>)) \<and>
       sorted_wrt (\<lambda>a b. f64_rat (tw_weight b) < f64_rat (tw_weight a) \<or>
         f64_rat (tw_weight a) = f64_rat (tw_weight b) \<and> topic_str (tw_topic a) \<le> topic_str (tw_topic b))
         (ds_topics d))"
proof -
  have entry: "ds_author d = pt_author q \<and> ds_display_name d = pt_display_name q \<and>
       (\<forall>tw. tw \<in> set (ds_topics d) \<longleftrightarrow>
         (\<exists>w\<in>set ws. \<exists>e\<in>set (own_candidates w). ec_author e = pt_author q \<and>
            tw = \<lparr>tw_topic = own_topic w, tw_weight = skill_score_get (ec_score e)\<rparr>)) \<and>
       sorted_wrt (\<lambda>a b. f64_rat (tw_weight b) < f64_rat (tw_weight a) \<or>
         f64_rat (tw_weight a) = f64_rat (tw_weight b) \<and> topic_str (tw_topic a) \<le> topic_str (tw_topic b))
         (ds_topics d)" (is "?entry d q") if d: "d = snapshot_of ws q" for d q
    unfolding d set_ds_topics
    by (intro conjI allI owned_topics_iff [OF assms(2)] snapshot_topics_ranked [OF assms(1)])
      (simp_all add: snapshot_of_def)
  have "\<exists>q\<in>set qs. ?entry d q" if d: "d \<in> set (sd_developers (snapshot_build c qs ws))" for d
  proof -
    obtain q where q: "q \<in> set qs" "d = snapshot_of ws q" using d by (auto simp: snapshot_developer)
    show ?thesis using entry [OF q(2)] q(1) by (rule bexI)
  qed
  then show ?thesis by (intro conjI ballI snapshot_participants snapshot_sorted)
qed

lemma developer_snapshot_correct_witness:
  "ds_author ` set (sd_developers (snapshot_build (ConversationId ''c1'')
     [\<lparr>pt_author = AuthorId ''bob'', pt_display_name = ''Bob''\<rparr>] [sample_ownership ''ci'' ''bob''])) = {AuthorId ''bob''}"
proof -
  let ?ws = "[sample_ownership ''ci'' ''bob'']" and ?qs = "[\<lparr>pt_author = AuthorId ''bob'', pt_display_name = ''Bob''\<rparr>]"
  have "\<forall>w\<in>set ?ws. \<forall>c\<in>set (own_candidates w). score_ok c" using sample_ownership_ok by simp
  moreover have "\<forall>w\<in>set ?ws. distinct (map ec_author (own_candidates w))" by (simp add: sample_ownership_def)
  ultimately have "ds_author ` set (sd_developers (snapshot_build (ConversationId ''c1'') ?qs ?ws)) = pt_author ` set ?qs"
    by (rule developer_snapshot_correct [THEN conjunct2, THEN conjunct2, THEN conjunct1])
  then show ?thesis by simp
qed

text \<open>
  C27: A session scope splits the component catalogue: it loads exactly the components that the
  session's projections name, sorted and without repetition, and ignores exactly the others; and its
  confidence, a mean in binary64, stays in the unit interval for up to \<open>2 ^ 53\<close> projections.
\<close>

theorem session_scope_correct:
  assumes "\<forall>p\<in>set ps. confidence_ok (proj_confidence p)" and "length ps \<le> 2 ^ 53"
  shows "sc_conversation (scope_project lc c ps) = c \<and>
    set (sc_load (scope_project lc c ps)) = named_components lc ps \<and>
    sorted (sc_load (scope_project lc c ps)) \<and> distinct (sc_load (scope_project lc c ps)) \<and>
    set (sc_ignore (scope_project lc c ps)) = Component ` set catalog - named_components lc ps \<and>
    set (sc_load (scope_project lc c ps)) \<union> set (sc_ignore (scope_project lc c ps)) = Component ` set catalog \<and>
    confidence_ok (sc_confidence (scope_project lc c ps))"
  using scope_load_set [of lc c ps] scope_load_sorted [of lc c ps] scope_ignore_set [of lc c ps]
    scope_confidence_unit [OF assms, of lc c] named_components_catalog [of lc ps] by auto

lemma session_scope_correct_witness:
  "confidence_ok (sc_confidence (scope_project ascii_lower (ConversationId ''c'') [sample_projection, sample_projection]))"
proof -
  have "confidence_ok (proj_confidence sample_projection)"
    by (simp add: sample_projection_def confidence_ok_def confidence_get_def)
  then have "\<forall>p\<in>set [sample_projection, sample_projection]. confidence_ok (proj_confidence p)" by simp
  from session_scope_correct [OF this] show ?thesis by simp
qed

text \<open>
  C28: A warm-up document files the session's messages by intent: its decisions, open questions and
  tasks are exactly the messages projected with those intents, in session order and without overlap
  when the messages are distinct, its focus is what the scope loads, and its summary gives the sizes.
\<close>

theorem session_warmup_correct:
  assumes "distinct (map proj_message_id ps)"
  shows "wu_focus (warmup_build c s ps) = (case s of Some x \<Rightarrow> sc_load x | None \<Rightarrow> []) \<and>
    wu_decisions (warmup_build c s ps) = map proj_message_id (filter (\<lambda>p. proj_intent p = Decision) ps) \<and>
    wu_open_questions (warmup_build c s ps) = map proj_message_id (filter (\<lambda>p. proj_intent p = Question) ps) \<and>
    wu_tasks (warmup_build c s ps) = map proj_message_id (filter (\<lambda>p. proj_intent p = Task) ps) \<and>
    distinct (wu_decisions (warmup_build c s ps) @ wu_open_questions (warmup_build c s ps) @ wu_tasks (warmup_build c s ps)) \<and>
    wu_summary (warmup_build c s ps) = warmup_render c s (wu_focus (warmup_build c s ps))
      (wu_decisions (warmup_build c s ps)) (wu_open_questions (warmup_build c s ps)) (wu_tasks (warmup_build c s ps))"
proof -
  have "distinct (ids_with i ps)" for i using assms by (simp add: ids_with_def distinct_map_filter)
  then have "distinct (ids_with Decision ps @ ids_with Question ps @ ids_with Task ps)"
    using ids_with_disjoint [OF assms] by (simp add: Int_Un_distrib)
  then show ?thesis using warmup_summary [of c s ps] by (simp add: ids_with_def)
qed

lemma session_warmup_correct_witness:
  "wu_decisions (warmup_build (ConversationId ''c'') None
     [sample_projection, sample_projection\<lparr>proj_message_id := MessageId ''m2'', proj_intent := Decision\<rparr>]) = [MessageId ''m2'']"
proof -
  let ?ps = "[sample_projection, sample_projection\<lparr>proj_message_id := MessageId ''m2'', proj_intent := Decision\<rparr>]"
  have "distinct (map proj_message_id ?ps)" by (simp add: sample_projection_def)
  from session_warmup_correct [OF this, THEN conjunct2, THEN conjunct1]
  show ?thesis by (simp add: sample_projection_def)
qed

text \<open>
  C29: Every number a replay derives is well formed. If the projector's confidences are in the unit
  interval, then so is, in binary64 and never a NaN, every confidence, expertise score and topic
  weight of every derivation of the replay; each hint's reviewers are ranked, and its human hint is
  the first of them, or missing when there is none.
\<close>

theorem replay_numbers_ok:
  assumes "\<forall>k. at_least_once (d k)" and "log_wf ms" and "answers projector s f ms"
    and "\<forall>m\<in>set ms. confidence_ok (proj_confidence (f m))" and "length ms \<le> 2 ^ 53"
    and "replay_run (reference_context lc projector) d ms s = (r, s')"
    and "derivation_for ms r c = Some x"
  shows "derivation_ok x"
proof -
  have "r = phases_spec (reference_context lc projector) ms (projections_of f ms)"
    using reference.replay_eq [OF assms(1,2), of lc projector s f] assms(3,6)
    by (simp add: reference_context_def)
  then show ?thesis using reference_derivation_ok [OF assms(4,2,5), of lc projector c x] assms(7) by simp
qed

lemma replay_numbers_ok_witness:
  "\<exists>x. derivation_for sample_log (fst (replay_run (reference_context ascii_lower (mock_step ascii_lower))
      (\<lambda>_. backwards_twice) sample_log ())) (ConversationId ''c1'') = Some x \<and> derivation_ok x"
proof -
  obtain x where x: "derivation_for sample_log sample_stores (ConversationId ''c1'') = Some x"
    by (rule sample_derivation [of "ConversationId ''c1''"]) simp_all
  have conf: "\<forall>m\<in>set sample_log. confidence_ok (proj_confidence (mock_run ascii_lower m))"
    by (intro ballI mock_confidence_ok)
  have run: "replay_run (reference_context ascii_lower (mock_step ascii_lower)) (\<lambda>_. backwards_twice) sample_log () = (sample_stores, ())"
    unfolding sample_stores_def by (rule mock_replay [OF backwards_twice_once sample_log_wf])
  have "length sample_log \<le> 2 ^ 53" by (simp add: sample_log_def)
  from replay_numbers_ok [OF backwards_twice_once sample_log_wf mock_answers conf this run x]
  show ?thesis using x by (simp add: run)
qed

section \<open>Routing\<close>

text \<open>
  C30: With the default router, what the mock projector says about a message goes to a human for
  lack of confidence exactly when no topic and no entity keyword occurs in its body; in every case
  the confidence is a number in the upper half of the unit interval.
\<close>

theorem mock_escalation:
  "dec_escalated (fst (router_route router_new (mock_run lc m))) =
     (proj_topics (mock_run lc m) = [] \<and> proj_entities (mock_run lc m) = []) \<and>
   confidence_ok (proj_confidence (mock_run lc m)) \<and>
   1 / 2 \<le> f64_rat (confidence_get (proj_confidence (mock_run lc m)))"
proof -
  have "rr_escalation_threshold router_new = f64_lit (6 / 10)"
    by (simp add: router_new_def router_with_rules_def default_escalation_threshold_def)
  then have "dec_escalated (fst (router_route router_new (mock_run lc m))) = (mock_signal lc m = 0)"
    by (simp only: route_escalated mock_below_threshold)
  then show ?thesis
    using mock_signal_pos [of lc m] mock_confidence_ok [of lc m] mock_confidence_ge_half [of lc m] by auto
qed

text \<open>
  The mock projector's confidence never falls when more keywords occur, in binary64 arithmetic
  as the code computes it, rounding and clamping included.
\<close>

theorem mock_confidence_monotone:
  assumes "length (proj_topics (mock_run lc m)) + length (proj_entities (mock_run lc m)) \<le>
    length (proj_topics (mock_run lc n)) + length (proj_entities (mock_run lc n))"
  shows "f64_rat (confidence_get (proj_confidence (mock_run lc m))) \<le>
    f64_rat (confidence_get (proj_confidence (mock_run lc n)))"
  using signal_confidence_mono [of "mock_signal lc m" "mock_signal lc n"] mock_signal_le [of lc n] assms
  by (simp add: mock_signal_def)

lemma mock_confidence_monotone_witness:
  "f64_rat (confidence_get (proj_confidence (mock_run ascii_lower (sample_message ''m1'' ''c'' ''a'' ''''))))
     \<le> f64_rat (confidence_get (proj_confidence (mock_run ascii_lower (sample_message ''m2'' ''c'' ''a'' ''jwt''))))"
proof -
  have "length (proj_topics (mock_run ascii_lower (sample_message ''m1'' ''c'' ''a'' ''''))) +
      length (proj_entities (mock_run ascii_lower (sample_message ''m1'' ''c'' ''a'' ''''))) = 0"
    by (simp add: topic_keywords_def entity_keywords_def str_contains_def ascii_lower_def)
  then show ?thesis by (intro mock_confidence_monotone) simp
qed

text \<open>
  C32: A routing job that succeeds has stored, for every message it was asked about and that has a
  projection, the router's decision on that projection, and has touched no other message's decision;
  messages without a projection are skipped. Running the job again then leaves the decisions alone.
\<close>

theorem route_job_correct:
  assumes "projections_sound projections"
    and "route_run router projections registry (routes, traces, w) request = (HOk, (routes', traces', w'))"
    and "route_run router projections registry (routes', traces', w') request = (HOk, (routes'', traces'', w''))"
  shows "(\<forall>i. routing_store_get routes' i =
      (case projection_store_get projections i of
         Some p \<Rightarrow> if i \<in> set (rreq_messages request) then Some (fst (router_route router p)) else routing_store_get routes i
       | None \<Rightarrow> routing_store_get routes i)) \<and> routes'' = routes'"
proof -
  have once: "routing_store_get routes2 i =
      (case projection_store_get projections i of
         Some p \<Rightarrow> if i \<in> set (rreq_messages request) then Some (fst (router_route router p)) else routing_store_get routes1 i
       | None \<Rightarrow> routing_store_get routes1 i)"
    if "route_run router projections registry (routes1, traces1, w1) request = (HOk, (routes2, traces2, w2))"
    for routes1 traces1 w1 routes2 traces2 w2 i
    using route_loop_ok [OF assms(1) that [unfolded route_run_def], of i]
    by (auto simp: routed_def split: option.split)
  have "routes'' i = routes' i" for i
    using once [OF assms(2), of i] once [OF assms(3), of i]
    by (auto simp: routing_store_get_def split: option.splits)
  then show ?thesis using once [OF assms(2)] by blast
qed

definition sample_projections :: projection_store where
  "sample_projections = [MessageId ''m1'' \<mapsto> sample_projection]"

lemma route_job_correct_witness:
  "\<exists>routes. routing_store_get routes (MessageId ''m1'') =
      Some (fst (router_route router_new sample_projection)) \<and> routing_store_get routes (MessageId ''m9'') = None"
proof -
  let ?reg = "\<lambda>_. None :: unit consumer option"
  let ?req = "\<lparr>rreq_messages = [MessageId ''m9'', MessageId ''m1'']\<rparr>"
  have sound: "projections_sound sample_projections"
    by (simp add: projections_sound_def sample_projections_def sample_projection_def)
  have run: "\<exists>routes' traces'. route_run router_new sample_projections ?reg (routes, traces, ()) ?req =
      (HOk, (routes', traces', ()))" for routes traces
    by (simp add: route_run_def sample_projections_def projection_store_get_def registry_dispatch_def
        case_prod_unfold Let_def)
  obtain r1 t1 where one: "route_run router_new sample_projections ?reg (store_new, store_new, ()) ?req =
      (HOk, (r1, t1, ()))" using run by blast
  obtain r2 t2 where "route_run router_new sample_projections ?reg (r1, t1, ()) ?req = (HOk, (r2, t2, ()))"
    using run by blast
  from route_job_correct [OF sound one this, THEN conjunct1] show ?thesis
    by (intro exI [of _ r1]) (simp add: sample_projections_def projection_store_get_def store_new_def routing_store_get_def)
qed

text \<open>
  C31: Routed work is queued once. Let the Worklane target of the registry be the consumer that
  enqueues, let the other targets leave the queue alone, and let the queue keep what its library
  documents of a deduplicating enqueue. After a routing job that succeeds, a message it was asked about
  has the live job it had before, or else, if the router sends its projection to Worklane, a job with
  exactly that message and projection, or else none; every other live job, whatever its lane, is as
  before. Routing the messages, or any of them, again while the jobs are live adds nothing.
\<close>

theorem routed_work_once:
  assumes "dedup_queue enqueue live" and "worklane_registry enqueue live registry" and "projections_sound projections"
    and "route_run router projections registry (routes, traces, w) request = (HOk, (routes', traces', w'))"
    and "route_run router projections registry (routes', traces', w') again = (HOk, (routes'', traces'', w''))"
    and "set (rreq_messages again) \<subseteq> set (rreq_messages request)"
  shows "(\<forall>i\<in>set (rreq_messages request). live w' (routed_work_lane, unique_key i) =
      (case live w (routed_work_lane, unique_key i) of
         Some job \<Rightarrow> Some job
       | None \<Rightarrow>
           (case projection_store_get projections i of
              None \<Rightarrow> None
            | Some p \<Rightarrow> if dec_target (fst (router_route router p)) = WorklaneJob
                then Some \<lparr>rwp_message_id = i, rwp_projection = p\<rparr> else None))) \<and>
    (\<forall>key. key \<notin> (\<lambda>i. (routed_work_lane, unique_key i)) ` set (rreq_messages request) \<longrightarrow> live w' key = live w key) \<and>
    live w'' = live w'"
proof -
  note live = route_loop_live [OF assms(1-3)]
  note first = live [OF assms(4) [unfolded route_run_def]] and second = live [OF assms(5) [unfolded route_run_def]]
  have own: "live w' (routed_key i) =
      (case live w (routed_key i) of Some job \<Rightarrow> Some job | None \<Rightarrow> wanted_job router projections i)"
    if "i \<in> set (rreq_messages request)" for i
    unfolding first using fold_wanted_own [OF that] fold_wanted_kept by (auto split: option.split)
  have other: "live w' key = live w key" if "key \<notin> routed_key ` set (rreq_messages request)" for key
    unfolding first by (rule fold_wanted_other) (use that in blast)
  have "live w'' key = live w' key" for key
    unfolding second
    by (rule fold_wanted_settled) (use own assms(6) in \<open>auto split: option.splits\<close>)
  then have "live w'' = live w'" by blast
  with own other show ?thesis
    unfolding routed_key_def [symmetric] wanted_job_def [symmetric] by blast
qed

definition sample_queue :: "(string \<times> string \<rightharpoonup> routed_work_payload) enqueue_unique" where
  "sample_queue lane key p b = (Inr (), add_job (lane, key) p b)"

definition sample_task :: projection where
  "sample_task =
     \<lparr>proj_message_id = MessageId ''m2'', proj_intent = Task, proj_topics = [], proj_entities = [],
      proj_confidence = Confidence f64_one\<rparr>"

lemma routed_work_once_witness:
  "\<exists>jobs. jobs (routed_work_lane, unique_key (MessageId ''m2'')) = Some \<lparr>rwp_message_id = MessageId ''m2'', rwp_projection = sample_task\<rparr> \<and>
    jobs (routed_work_lane, unique_key (MessageId ''m1'')) = None"
proof -
  let ?ps = "[MessageId ''m1'' \<mapsto> sample_projection, MessageId ''m2'' \<mapsto> sample_task]"
  let ?reg = "[WorklaneJob \<mapsto> worklane_consume sample_queue]"
  let ?req = "\<lparr>rreq_messages = [MessageId ''m9'', MessageId ''m1'', MessageId ''m2'', MessageId ''m2'']\<rparr>"
  have queue: "dedup_queue sample_queue (\<lambda>b. b)" by (simp add: dedup_queue_def sample_queue_def)
  have reg: "worklane_registry sample_queue (\<lambda>b. b) ?reg" by (simp add: worklane_registry_def)
  have sound: "projections_sound ?ps"
    by (simp add: projections_sound_def sample_projection_def sample_task_def)
  have target: "dec_target (fst (router_route router_new sample_task)) = WorklaneJob"
      "dec_target (fst (router_route router_new sample_projection)) = ConsumerGitHub"
    by code_simp+
  have dispatch: "\<exists>w'. registry_dispatch ?reg w d p = (Inr (), w')" for w d p
    by (cases "dec_target d = WorklaneJob")
      (auto simp: registry_dispatch_def worklane_consume_def sample_queue_def Let_def split: sum.split unit.split)
  have run: "\<exists>st. route_run router_new ?ps ?reg (routes, traces, w) ?req = (HOk, st)" for routes traces w
    unfolding route_run_def by (rule route_loop_succeeds [OF dispatch])
  obtain r1 t1 w1 where one: "route_run router_new ?ps ?reg (store_new, store_new, Map.empty) ?req = (HOk, (r1, t1, w1))"
    using run by (metis prod.exhaust)
  obtain r2 t2 w2 where two: "route_run router_new ?ps ?reg (r1, t1, w1) ?req = (HOk, (r2, t2, w2))"
    using run by (metis prod.exhaust)
  from routed_work_once [OF queue reg sound one two] target show ?thesis
    by (intro exI [of _ w1]) (simp add: projection_store_get_def)
qed

text \<open>
  C33: The durable trace store keeps its bound: an upsert into a sound store succeeds, keeps it
  sound and, with a cap that is not negative, leaves at most that many rows; and the trace of a
  message that was not stored yet can be read back right after it was written, unless the cap is 0.
\<close>

theorem trace_store_bounded:
  assumes "sqlite_traces_ok s" and "ts_max s = Some n" and "0 \<le> sint n"
  shows "\<exists>s' rows. sqlite_trace_upsert enc s t = Some s' \<and> sqlite_traces_ok s' \<and> ts_max s' = Some n \<and>
    db_traces (ts_db s') = Some rows \<and> int (length rows) \<le> sint n \<and>
    (dec (enc t) = Some t \<and> n \<noteq> 0 \<and> sqlite_trace_get dec s (rt_message_id t) = Some None \<longrightarrow>
       sqlite_trace_get dec s' (rt_message_id t) = Some (Some t))"
proof (rule sqlite_trace_upsert_bound [OF assms(1)])
  fix s' rows
  assume up: "sqlite_trace_upsert enc s t = Some s'" "sqlite_traces_ok s'" "db_traces (ts_db s') = Some rows"
      "ts_max s' = ts_max s" and le: "\<And>n. ts_max s = Some n \<Longrightarrow> 0 \<le> sint n \<Longrightarrow> int (length rows) \<le> sint n"
  have "sqlite_trace_get dec s' (rt_message_id t) = Some (Some t)"
    if h: "dec (enc t) = Some t" "n \<noteq> 0" "sqlite_trace_get dec s (rt_message_id t) = Some None"
  proof (rule sqlite_trace_new_kept [where dec = dec, OF assms(1) h(1) _ _ up(1)])
    show "message_id_str (rt_message_id t) \<notin> set (map tr_id rows0)" if "db_traces (ts_db s) = Some rows0" for rows0
      using h(3) that by (auto simp: sqlite_trace_get_def find_None_iff split: option.splits)
    show "sint k \<noteq> 0" if "ts_max s = Some k" for k
      using h(2) assms(2) that by (simp add: signed_eq_0_iff)
  qed
  then show ?thesis using up le [OF assms(2,3)] assms(2) by (intro exI [of _ s'] exI [of _ rows]) simp
qed

definition sample_traces :: sqlite_traces where
  "sample_traces = \<lparr>ts_db = sample_db, ts_max = Some 5\<rparr>"

lemma trace_store_bounded_witness:
  "\<exists>s'. sqlite_trace_upsert (\<lambda>_. ''x'') sample_traces \<lparr>rt_message_id = MessageId ''m1'', rt_steps = []\<rparr> = Some s' \<and>
     sqlite_trace_get (\<lambda>_. Some \<lparr>rt_message_id = MessageId ''m1'', rt_steps = []\<rparr>) s' (MessageId ''m1'') =
       Some (Some \<lparr>rt_message_id = MessageId ''m1'', rt_steps = []\<rparr>)"
proof -
  have "sqlite_traces_ok sample_traces" "ts_max sample_traces = Some 5" "0 \<le> sint (5 :: 64 word)"
    by (simp_all add: sample_traces_def sample_db_def sqlite_traces_ok_def traces_ok_def)
  from trace_store_bounded [OF this, of "\<lambda>_. ''x''" "\<lparr>rt_message_id = MessageId ''m1'', rt_steps = []\<rparr>"
      "\<lambda>_. Some \<lparr>rt_message_id = MessageId ''m1'', rt_steps = []\<rparr>"]
  show ?thesis by (auto simp: sample_traces_def sample_db_def sqlite_trace_get_def)
qed

section \<open>Logs in memory\<close>

text \<open>
  C34: The in-memory log implements the abstract log: an append keeps its invariant, replaces a
  message of the same id in place or adds the new one at the end, and every read is the read of the
  abstract log.
\<close>

theorem mem_log_refines:
  assumes "mem_log_ok s"
  shows "mem_log_ok (mem_log_append m s) \<and>
    mem_log_all (mem_log_append m s) = log_append m (mem_log_all s) \<and>
    (\<forall>i. mem_log_get (mem_log_append m s) i = log_find i (log_append m (mem_log_all s))) \<and>
    mem_log_conversation_ids (mem_log_append m s) = default_conversation_ids (log_append m (mem_log_all s)) \<and>
    (\<forall>c. mem_log_messages_for (mem_log_append m s) c = default_messages_for (log_append m (mem_log_all s)) c)"
proof -
  note ok = mem_log_ok_append [OF assms, of m]
  have all: "mem_log_all (mem_log_append m s) = log_append m (mem_log_all s)"
    by (rule mem_log_all_append [OF assms])
  show ?thesis
    using ok all mem_log.get_all [OF ok] mem_log.conversation_ids_all [OF ok] mem_log.messages_for_all [OF ok] by simp
qed

lemma mem_log_refines_witness:
  "mem_log_all (mem_log_append (sample_message ''m1'' ''c'' ''a'' ''x'') mem_log_new) = [sample_message ''m1'' ''c'' ''a'' ''x'']"
proof -
  have "mem_log_all mem_log_new = []" by (simp add: mem_log_all_def mem_log_new_def)
  then show ?thesis using mem_log_refines [OF mem_log_ok_new, of "sample_message ''m1'' ''c'' ''a'' ''x''"] by simp
qed

section \<open>GitHub\<close>

text \<open>
  C35: GitHub items get their own messages and threads: for repository names without a colon or a
  hash sign and owners without a slash, as GitHub's are, two items have the same message id exactly
  when they are the same item of the same kind and repository, and the same conversation exactly
  when they belong to the same numbered thread of the same repository.
\<close>

theorem github_ids_injective:
  assumes "\<forall>item\<in>{x, y}. CHR ''/'' \<notin> set (repo_owner (gi_repo item)) \<and>
    CHR '':'' \<notin> set (repo_name (gi_repo item)) \<and> CHR ''#'' \<notin> set (repo_name (gi_repo item))"
  shows "(env_id (to_message x) = env_id (to_message y) \<longleftrightarrow>
      gi_repo x = gi_repo y \<and> gi_kind x = gi_kind y \<and> gi_id x = gi_id y) \<and>
    (conversation_of (to_message x) = conversation_of (to_message y) \<longleftrightarrow>
      gi_repo x = gi_repo y \<and> gi_number x = gi_number y)"
  using item_message_id_inj [of x y] item_conversation_id_inj [of x y] assms
  by (simp add: to_message_def conversation_of_def)

definition sample_issue :: issue_dto where
  "sample_issue =
     \<lparr>is_number = 7, is_title = Some ''title'', is_body = None, is_login = ''al'', is_pull_request = False\<rparr>"

definition sample_comment :: comment_dto where
  "sample_comment =
     \<lparr>cm_id = 7, cm_body = Some ''hi'', cm_login = ''bob'', cm_issue_url = ''https://api.github.com/repos/o/n/issues/7''\<rparr>"

lemma show_7: "show_nat 7 = ''7''"
  by code_simp

lemma github_ids_injective_witness:
  "env_id (to_message (issue_item (repo_new ''o'' ''n'') sample_issue)) \<noteq>
    env_id (to_message (comment_item (repo_new ''o'' ''n'') sample_comment))"
  using github_ids_injective [of "issue_item (repo_new ''o'' ''n'') sample_issue" "comment_item (repo_new ''o'' ''n'') sample_comment"]
  by (simp add: issue_item_def comment_item_def repo_new_def sample_issue_def)

text \<open>
  C36: A comment whose issue URL ends in the number of an issue, in the decimal digits GitHub writes,
  lands in that issue's conversation; so an ingested thread is one conversation.
\<close>

theorem comments_join_their_issue:
  assumes "cm_issue_url comment = url @ ''/'' @ show_u64 (is_number issue)"
  shows "conversation_of (to_message (comment_item r comment)) = conversation_of (to_message (issue_item r issue)) \<and>
    gi_number (comment_item r comment) = is_number issue"
  using number_from_issue_url_show [of url "is_number issue"] assms
  by (simp add: comment_item_def issue_item_def to_message_def conversation_of_def item_conversation_id_def)

lemma comments_join_their_issue_witness:
  "conversation_of (to_message (comment_item (repo_new ''o'' ''n'') sample_comment)) =
    conversation_of (to_message (issue_item (repo_new ''o'' ''n'') sample_issue))"
proof -
  have "cm_issue_url sample_comment = ''https://api.github.com/repos/o/n/issues'' @ ''/'' @ show_u64 (is_number sample_issue)"
    by (simp add: sample_comment_def sample_issue_def show_u64_def show_7)
  from comments_join_their_issue [OF this] show ?thesis by simp
qed

text \<open>
  C37: Ingesting is idempotent on the durable log: into a sound log, ingesting a batch of items,
  which may repeat items, and then the same batch again leaves the log as the first time did, and
  that is the log with each item's message appended in turn.
\<close>

theorem ingest_idempotent:
  assumes "sqlite_log_ok dec jget db" and "\<forall>item\<in>set items. message_storable enc dec jget (to_message item)"
    and "sqlite_all dec db = Some ms"
    and "ingest_items (\<lambda>m db. the (sqlite_append enc m db)) items db = (ids, db1)"
    and "ingest_items (\<lambda>m db. the (sqlite_append enc m db)) items db1 = (ids', db2)"
  shows "sqlite_all dec db1 = Some (fold log_append (map to_message items) ms) \<and>
    sqlite_all dec db2 = sqlite_all dec db1 \<and> ids' = ids"
proof -
  note one = sqlite_log.ingest_items_all [OF assms(1,2), unfolded assms(4)]
  note two = sqlite_log.ingest_items_all [OF one(1) [unfolded snd_conv] assms(2), unfolded assms(5)]
  have first: "sqlite_all dec db1 = Some (fold log_append (map to_message items) ms)"
    using one(2) sqlite_all_total [OF one(1) [unfolded snd_conv]] assms(3) by simp
  have "log_wf ms" using sqlite_log.all_wf [OF assms(1)] assms(3) by simp
  then have "sqlite_all dec db2 = sqlite_all dec db1"
    using two(2) sqlite_all_total [OF two(1) [unfolded snd_conv]] first by (simp add: log_appends_idem)
  moreover have "ids' = ids"
    using arg_cong [OF assms(4), of fst] arg_cong [OF assms(5), of fst] by (simp add: ingest_items_eq)
  ultimately show ?thesis using first by simp
qed

lemma ingest_idempotent_witness:
  "\<exists>db2 ms. sqlite_all sample_dec db2 = Some ms \<and>
    map env_id ms = [MessageId ''m1'', MessageId ''m2'', MessageId ''m3'', MessageId ''github:o/n:issue:7'']"
proof -
  let ?items = "[issue_item (repo_new ''o'' ''n'') sample_issue]"
  obtain ids db1 where one: "ingest_items (\<lambda>m db. the (sqlite_append sample_enc m db)) ?items sample_db = (ids, db1)"
    by (metis prod.collapse)
  obtain ids' db2 where two: "ingest_items (\<lambda>m db. the (sqlite_append sample_enc m db)) ?items db1 = (ids', db2)"
    by (metis prod.collapse)
  have "\<forall>item\<in>set ?items. message_storable sample_enc sample_dec sample_jget (to_message item)"
    using sample_storable by simp
  from ingest_idempotent [OF sample_db_ok this sample_db_all one two]
  have "sqlite_all sample_dec db2 = Some (fold log_append (map to_message ?items) sample_log)" by simp
  moreover have "map env_id (fold log_append (map to_message ?items) sample_log) =
      [MessageId ''m1'', MessageId ''m2'', MessageId ''m3'', MessageId ''github:o/n:issue:7'']"
    by (simp add: log_ids_append sample_log_def to_message_def item_message_id_def issue_item_def sample_issue_def
        repo_new_def show_u64_def show_7)
  ultimately show ?thesis by (intro exI conjI)
qed

text \<open>
  C38: The GitHub token goes to GitHub only. With any other base URL a fetch does not depend on the
  token, nor on any answer of the service to a request that carries a credential: two services that
  agree on the two requests without an authorization header, for the issues and for the comments,
  give the same result whatever the tokens.
\<close>

theorem token_confined:
  assumes "rs_base_url src \<noteq> github_default_base_url"
    and "\<forall>url\<in>{issues_url src r, comments_url src r}.
      http \<lparr>hr_url = url, hr_headers = [(''User-Agent'', ''mirrorlane''), (''Accept'', ''application/vnd.github+json'')]\<rparr> =
      http' \<lparr>hr_url = url, hr_headers = [(''User-Agent'', ''mirrorlane''), (''Accept'', ''application/vnd.github+json'')]\<rparr>"
  shows "try_fetch http dec_issues dec_comments src r =
    try_fetch http' dec_issues dec_comments (src\<lparr>rs_token := token\<rparr>) r"
proof -
  have plain: "rest_request s url =
      \<lparr>hr_url = url, hr_headers = [(''User-Agent'', ''mirrorlane''), (''Accept'', ''application/vnd.github+json'')]\<rparr>"
    if "rs_base_url s \<noteq> github_default_base_url" for s :: rest_source and url
    using that by (simp add: rest_request_def sends_token_def)
  have "try_fetch http dec_issues dec_comments src r = try_fetch http' dec_issues dec_comments src r"
    using assms(2) by (intro rest_requests_only_two) (simp_all add: plain [OF assms(1)])
  also have "\<dots> = try_fetch http' dec_issues dec_comments (src\<lparr>rs_token := token\<rparr>) r"
    using try_fetch_no_token [of src http' dec_issues dec_comments r]
      try_fetch_no_token [of "src\<lparr>rs_token := token\<rparr>" http' dec_issues dec_comments r] assms(1) by simp
  finally show ?thesis .
qed

lemma token_confined_witness:
  "try_fetch (\<lambda>q. ReplyBody '''') (\<lambda>_. Inr [sample_issue]) (\<lambda>_. Inr [sample_comment])
      \<lparr>rs_base_url = ''http://localhost'', rs_token = Some ''secret''\<rparr> (repo_new ''o'' ''n'') =
    try_fetch (\<lambda>q. if length (hr_headers q) = 2 then ReplyBody '''' else ReplyTransport ''leak'') (\<lambda>_. Inr [sample_issue])
      (\<lambda>_. Inr [sample_comment]) (\<lparr>rs_base_url = ''http://localhost'', rs_token = Some ''secret''\<rparr>\<lparr>rs_token := None\<rparr>)
      (repo_new ''o'' ''n'')"
  by (rule token_confined) (simp_all add: github_default_base_url_def)

section \<open>Models\<close>

text \<open>
  C39: Projections of different models never share a cache entry. For providers and prompt versions
  without a colon, two LLM projectors have the same cache version exactly when provider, model and
  prompt version all agree; the model's name may contain colons.
\<close>

theorem llm_cache_version_exact:
  assumes "CHR '':'' \<notin> set (lc_provider_tag (lp_client a))" and "CHR '':'' \<notin> set (lc_provider_tag (lp_client b))"
    and "CHR '':'' \<notin> set (lp_prompt_version a)" and "CHR '':'' \<notin> set (lp_prompt_version b)"
  shows "cache_version hasher a = cache_version hasher b \<longleftrightarrow>
    lc_provider_tag (lp_client a) = lc_provider_tag (lp_client b) \<and> lp_model a = lp_model b \<and>
    lp_prompt_version a = lp_prompt_version b"
  by (rule cache_version_inj [OF assms])

definition sample_client :: "string \<Rightarrow> nat llm_client" where
  "sample_client answer =
     \<lparr>lc_complete_json = (\<lambda>n model prompt. (Some answer, Suc n)), lc_provider_tag = ''ollama''\<rparr>"

lemma llm_cache_version_exact_witness:
  "cache_version sample_hasher (llm_projector_new (sample_client ''x'') ''llama3:8b'' ''v2'') \<noteq>
    cache_version sample_hasher (llm_projector_new (sample_client ''x'') ''llama3'' ''v2'')"
  using llm_cache_version_exact [of "llm_projector_new (sample_client ''x'') ''llama3:8b'' ''v2''"
      "llm_projector_new (sample_client ''x'') ''llama3'' ''v2''" sample_hasher]
  by (simp add: llm_projector_new_def sample_client_def)

text \<open>
  C40: A model answer that is not a projection is never cached. Over a cache without an entry for the
  message, when the model's answer does not decode, the cached projector fails the call after asking
  the model once, and leaves the cache as it was; when it decodes, the projection carries the
  message's own id, whatever the model wrote.
\<close>

theorem llm_answers_checked:
  assumes "cache_get c ''mirrorlane.projection.llm'' v (key m) = None"
    and "lc_complete_json (lp_client lp) s (lp_model lp) (projection_prompt (env_body m)) = (Some response, s')"
  shows "case dec response of
      None \<Rightarrow> cached_run cache_get cache_put key (llm_step hasher dec lp) v (c, s) m = (None, (c, s'))
    | Some dto \<Rightarrow> \<exists>p c'. cached_run cache_get cache_put key (llm_step hasher dec lp) v (c, s) m = (Some p, (c', s')) \<and>
        proj_message_id p = env_id m \<and> cache_get c' ''mirrorlane.projection.llm'' v (key m) = Some p"
proof (cases "dec response")
  case None
  then show ?thesis using llm_malformed_not_cached [where get = cache_get and put = cache_put and key = key, OF assms, of dec hasher] by simp
next
  case (Some dto)
  then obtain p where p: "parse_projection dec response (env_id m) = Some p"
    by (simp add: parse_projection_def)
  have id: "proj_message_id p = env_id m" using parse_projection_sound(1) [OF p] .
  have kind: "st_kind (llm_step hasher dec lp) = ''mirrorlane.projection.llm''" by (simp add: llm_step_def)
  have "st_run (llm_step hasher dec lp) s m = (Some p, s')"
    using assms(2) p by (simp add: llm_step_def llm_run_def Let_def)
  then have "cached_run cache_get cache_put key (llm_step hasher dec lp) v (c, s) m =
      (Some p, (cache_put c ''mirrorlane.projection.llm'' v (key m) p, s'))"
    using assms(1) by (simp add: cached_run_def Let_def kind)
  then show ?thesis using Some id by (simp add: cache_get_def cache_put_def)
qed

lemma llm_answers_checked_witness:
  "cached_run cache_get cache_put (message_cache_key sample_hasher)
     (llm_step sample_hasher (\<lambda>_. None) (llm_projector_new (sample_client ''garbage'') ''m'' ''v2'')) (StepVersion ''v'')
     (cache_new, 4) (hd sample_log) = (None, (cache_new, 5))"
proof -
  let ?lp = "llm_projector_new (sample_client ''garbage'') ''m'' ''v2''"
  have "cache_get cache_new ''mirrorlane.projection.llm'' (StepVersion ''v'') (message_cache_key sample_hasher (hd sample_log)) = None"
    by (simp add: cache_get_def cache_new_def)
  moreover have "lc_complete_json (lp_client ?lp) 4 (lp_model ?lp) (projection_prompt (env_body (hd sample_log))) =
      (Some ''garbage'', 5)"
    by (simp add: llm_projector_new_def sample_client_def)
  ultimately show ?thesis
    using llm_answers_checked [of cache_new "StepVersion ''v''" "message_cache_key sample_hasher" "hd sample_log" ?lp 4
        "''garbage''" 5 sample_hasher "\<lambda>_. None"] by simp
qed

end
